(* ===== verification/Prelude.thy ===== *)
theory Prelude
  imports Main "HOL-Library.Multiset" "HOL-Library.Product_Lexorder"
begin

text \<open>
  Shared vocabulary of the development of \<open>src/app.py\<close>: the types that name the
  program's values (seats, connection handles, client identities, timestamps), a model of
  the Python \<open>dict\<close> as an insertion-ordered association list, Python's
  \<open>next((i for i, x in enumerate(xs) if p(x)), None)\<close> idiom, and the generic list
  lemmas that the component theories share.  The named collection \<open>model_simps\<close>
  gathers the equations that evaluate the model on concrete inputs.
\<close>

named_theorems model_simps "equations that evaluate the model of app.py"

type_synonym seat = nat
type_synonym sid = nat
type_synonym client_id = string
text \<open>
  Timestamps are \<open>time.time()\<close> in milliseconds: every delay of the program
  (0.2 s, 0.6 s, 1 s, 2 s, 2.5 s, 4 s, 30 s, and the deal pacing
  \<open>cards * n * 120 ms + 0.6 s\<close>) is a whole number of milliseconds, so integer
  milliseconds lose nothing the program compares.
\<close>
type_synonym time = int

subsection \<open>Python dictionaries\<close>

text \<open>
  A \<open>dict\<close> keeps its keys in insertion order; assigning to an existing key
  keeps its position, \<open>pop\<close> removes it.  The order matters where the program
  iterates over \<open>room["members"].items()\<close>.
\<close>

type_synonym ('k, 'v) dict = "('k \<times> 'v) list"

definition dict_get :: "('k, 'v) dict \<Rightarrow> 'k \<Rightarrow> 'v option" where
  "dict_get d k = map_of d k"

fun dict_set :: "('k, 'v) dict \<Rightarrow> 'k \<Rightarrow> 'v \<Rightarrow> ('k, 'v) dict" where
  "dict_set [] k v = [(k, v)]"
| "dict_set ((k', v') # d) k v =
     (if k' = k then (k, v) # d else (k', v') # dict_set d k v)"

definition dict_pop :: "('k, 'v) dict \<Rightarrow> 'k \<Rightarrow> ('k, 'v) dict" where
  "dict_pop d k = filter (\<lambda>(k', _). k' \<noteq> k) d"

definition dict_values :: "('k, 'v) dict \<Rightarrow> 'v list" where
  "dict_values d = map snd d"

definition dict_keys :: "('k, 'v) dict \<Rightarrow> 'k list" where
  "dict_keys d = map fst d"

text \<open>\<open>next((i for i, x in enumerate(xs) if p(x)), None)\<close>\<close>

fun first_index :: "('a \<Rightarrow> bool) \<Rightarrow> 'a list \<Rightarrow> nat option" where
  "first_index p [] = None"
| "first_index p (x # xs) =
     (if p x then Some 0 else map_option Suc (first_index p xs))"

text \<open>\<open>list.pop(i)\<close> for an index in range.\<close>

definition remove_at :: "nat \<Rightarrow> 'a list \<Rightarrow> 'a list" where
  "remove_at i xs = take i xs @ drop (Suc i) xs"

text \<open>\<open>all(x is not None for x in xs)\<close> and the number of set entries.\<close>

definition all_set :: "'a option list \<Rightarrow> bool" where
  "all_set xs \<longleftrightarrow> list_all (\<lambda>x. x \<noteq> None) xs"

definition count_set :: "'a option list \<Rightarrow> nat" where
  "count_set xs = length (filter (\<lambda>x. x \<noteq> None) xs)"

declare dict_get_def [model_simps] dict_pop_def [model_simps]
  dict_values_def [model_simps] dict_keys_def [model_simps]
  all_set_def [model_simps] count_set_def [model_simps] remove_at_def [model_simps]

subsection \<open>Dictionary lemmas\<close>

lemma map_of_dict_set [simp]: "map_of (dict_set d k v) = (map_of d)(k \<mapsto> v)"
  by (induction d) (auto simp: fun_eq_iff)

lemma dict_get_set [simp]: "dict_get (dict_set d k v) k' = (if k' = k then Some v else dict_get d k')"
  by (simp add: dict_get_def)

lemma set_dict_keys: "set (dict_keys d) = dom (map_of d)"
  by (simp add: dict_keys_def dom_map_of_conv_image_fst)

lemma keys_dict_set [simp]: "set (dict_keys (dict_set d k v)) = insert k (set (dict_keys d))"
  by (simp add: set_dict_keys)

lemma set_dict_set_sub: "set (dict_set d k v) \<subseteq> insert (k, v) (set d)"
  by (induction d) (auto split: if_splits)

lemma distinct_dict_set [simp]:
  "distinct (dict_keys d) \<Longrightarrow> distinct (dict_keys (dict_set d k v))"
proof (induction d)
  case Nil
  then show ?case by (simp add: dict_keys_def)
next
  case (Cons p d)
  then show ?case
    using keys_dict_set [of d k v] by (cases p) (auto simp: dict_keys_def)
qed

lemma map_of_dict_pop [simp]: "map_of (dict_pop d k) = (map_of d)(k := None)"
  by (induction d) (auto simp: dict_pop_def fun_eq_iff)

lemma dict_get_pop [simp]: "dict_get (dict_pop d k) k' = (if k' = k then None else dict_get d k')"
  by (simp add: dict_get_def)

lemma keys_dict_pop [simp]: "set (dict_keys (dict_pop d k)) = set (dict_keys d) - {k}"
  by (auto simp: dict_keys_def dict_pop_def)

lemma distinct_dict_pop [simp]:
  "distinct (dict_keys d) \<Longrightarrow> distinct (dict_keys (dict_pop d k))"
  by (simp add: dict_keys_def dict_pop_def distinct_map_filter)

lemma values_dict_get: "dict_get d k = Some v \<Longrightarrow> v \<in> set (dict_values d)"
  by (auto simp: dict_get_def dict_values_def dest: map_of_SomeD intro: rev_image_eqI)

lemma dict_values_subset_pop: "set (dict_values (dict_pop d k)) \<subseteq> set (dict_values d)"
  by (auto simp: dict_values_def dict_pop_def)

subsection \<open>Lists\<close>

lemma first_index_Some:
  "first_index p xs = Some i \<Longrightarrow> i < length xs \<and> p (xs ! i) \<and> (\<forall>j < i. \<not> p (xs ! j))"
proof (induction xs arbitrary: i)
  case Nil
  then show ?case by simp
next
  case (Cons x xs)
  then show ?case
    by (auto split: if_splits simp: nth_Cons' less_Suc_eq_0_disj)
qed

lemma first_index_None: "first_index p xs = None \<longleftrightarrow> (\<forall>x \<in> set xs. \<not> p x)"
  by (induction xs) auto

lemma first_index_distinct:
  assumes "distinct (map f xs)" and "i < length xs"
  shows "first_index (\<lambda>y. f y = f (xs ! i)) xs = Some i"
  using assms
proof (induction xs arbitrary: i)
  case Nil
  then show ?case by simp
next
  case (Cons x xs)
  show ?case
  proof (cases i)
    case 0
    then show ?thesis by simp
  next
    case (Suc j)
    with Cons.prems have "f x \<noteq> f (xs ! j)"
      by auto
    with Cons Suc show ?thesis by simp
  qed
qed

lemma length_remove_at [simp]: "i < length xs \<Longrightarrow> length (remove_at i xs) = length xs - 1"
  by (simp add: remove_at_def)

lemma mset_remove_at: "i < length xs \<Longrightarrow> mset (remove_at i xs) = mset xs - {# xs ! i #}"
proof -
  assume i: "i < length xs"
  have "xs = take i xs @ xs ! i # drop (Suc i) xs"
    using i by (simp add: id_take_nth_drop)
  then have "mset xs = mset (remove_at i xs) + {# xs ! i #}"
    by (metis add_mset_add_single mset.simps(2) mset_append remove_at_def union_mset_add_mset_right)
  then show ?thesis by simp
qed

lemma set_remove_at_subset: "set (remove_at i xs) \<subseteq> set xs"
  by (auto simp: remove_at_def dest: in_set_takeD in_set_dropD)

lemma count_set_replicate_None [simp]: "count_set (replicate k None) = 0"
  by (simp add: count_set_def)

lemma all_set_replicate_None [simp]: "all_set (replicate k None) \<longleftrightarrow> k = 0"
  by (cases k) (simp_all add: all_set_def)

lemma all_set_nth: "all_set xs \<Longrightarrow> i < length xs \<Longrightarrow> xs ! i \<noteq> None"
  by (simp add: all_set_def list_all_length)

lemma all_set_iff_count: "all_set xs \<longleftrightarrow> count_set xs = length xs"
proof (induction xs)
  case Nil
  then show ?case by (simp add: all_set_def count_set_def)
next
  case (Cons x xs)
  then show ?case
    by (auto simp: all_set_def count_set_def) (metis Suc_n_not_le_n length_filter_le)
qed

lemma count_set_update:
  "i < length xs \<Longrightarrow> xs ! i = None \<Longrightarrow> count_set (xs[i := Some v]) = Suc (count_set xs)"
proof (induction xs arbitrary: i)
  case Nil
  then show ?case by simp
next
  case (Cons x xs)
  then show ?case by (cases i) (simp_all add: count_set_def)
qed

lemma sum_list_map_const:
  "\<forall>x \<in> set xs. f x = c \<Longrightarrow> sum_list (map f xs) = c * length xs"
  by (induction xs) simp_all

lemma count_set_le: "count_set xs \<le> length xs"
  by (simp add: count_set_def)

lemma all_set_conv_nth: "all_set xs \<longleftrightarrow> (\<forall>i < length xs. xs ! i \<noteq> None)"
  by (simp add: all_set_def list_all_length)

lemma sum_list_map_nth: "sum_list (map (\<lambda>i. f (xs ! i)) [0..<length xs]) = sum_list (map f xs)"
proof -
  have "map (\<lambda>i. f (xs ! i)) [0..<length xs] = map f (map ((!) xs) [0..<length xs])"
    by (simp only: map_map comp_def)
  then show ?thesis by (simp only: map_nth)
qed

lemma count_set_sum: "count_set xs = sum_list (map (\<lambda>x. of_bool (x \<noteq> None)) xs)"
  by (induction xs) (simp_all add: count_set_def)

lemma fold_keeps: "(\<And>x r. x \<in> set xs \<Longrightarrow> g (f x r) = g r) \<Longrightarrow> g (fold f xs r) = g r"
  by (induction xs arbitrary: r) simp_all

lemma sum_list_update_Suc:
  "w < length xs \<Longrightarrow> sum_list (xs[w := Suc (xs ! w)]) = Suc (sum_list (xs :: nat list))"
proof (induction xs arbitrary: w)
  case Nil
  then show ?case by simp
next
  case (Cons x xs)
  then show ?case by (cases w) simp_all
qed

end
