(* ===== verification/Cards.thy ===== *)
theory Cards
  imports Prelude
begin

text \<open>
  Cards of the online game (\<open>src/app.py\<close>, "Online game helpers"): the suits
  \<open>ONLINE_SUITS\<close> with spades as trump, the ranks \<open>ONLINE_RANKS\<close> and their
  values \<open>ONLINE_RANK_VALUE\<close>, a card as the dictionary \<open>{"suit", "rank"}\<close>
  (a record), the deck \<open>_online_make_deck\<close>, the card identifier
  \<open>_online_card_key\<close> (rank symbol followed by the suit symbol, in UTF-8 bytes) and
  the pairwise comparison \<open>_online_compare_cards\<close>.  The lemmas show that the deck
  holds every card once, that the identifier is injective (so a play names exactly one
  card), and that the comparison is the comparison of a key, which makes it a total
  preorder: the fact the trick resolution of \<open>Trick\<close> rests on.
\<close>

datatype suit = Spade | Heart | Diamond | Club

datatype rank = R2 | R3 | R4 | R5 | R6 | R7 | R8 | R9 | R10 | RJ | RQ | RK | RA

definition online_suits :: "suit list" where
  "online_suits = [Spade, Heart, Diamond, Club]"

definition online_ranks :: "rank list" where
  "online_ranks = [R2, R3, R4, R5, R6, R7, R8, R9, R10, RJ, RQ, RK, RA]"

text \<open>\<open>ONLINE_RANK_VALUE = {r: i+2 for i, r in enumerate(ONLINE_RANKS)}\<close>\<close>

primrec rank_value :: "rank \<Rightarrow> nat" where
  "rank_value R2 = 2" | "rank_value R3 = 3" | "rank_value R4 = 4" | "rank_value R5 = 5"
| "rank_value R6 = 6" | "rank_value R7 = 7" | "rank_value R8 = 8" | "rank_value R9 = 9"
| "rank_value R10 = 10" | "rank_value RJ = 11" | "rank_value RQ = 12" | "rank_value RK = 13"
| "rank_value RA = 14"

text \<open>The symbols of \<open>ONLINE_RANKS\<close> and the UTF-8 bytes of the suit symbols.\<close>

primrec rank_symbol :: "rank \<Rightarrow> string" where
  "rank_symbol R2 = ''2''" | "rank_symbol R3 = ''3''" | "rank_symbol R4 = ''4''"
| "rank_symbol R5 = ''5''" | "rank_symbol R6 = ''6''" | "rank_symbol R7 = ''7''"
| "rank_symbol R8 = ''8''" | "rank_symbol R9 = ''9''" | "rank_symbol R10 = ''10''"
| "rank_symbol RJ = ''J''" | "rank_symbol RQ = ''Q''" | "rank_symbol RK = ''K''"
| "rank_symbol RA = ''A''"

primrec suit_symbol :: "suit \<Rightarrow> string" where
  "suit_symbol Spade = [CHR 0xE2, CHR 0x99, CHR 0xA0]"
| "suit_symbol Heart = [CHR 0xE2, CHR 0x99, CHR 0xA5]"
| "suit_symbol Diamond = [CHR 0xE2, CHR 0x99, CHR 0xA6]"
| "suit_symbol Club = [CHR 0xE2, CHR 0x99, CHR 0xA3]"

text \<open>
  Python compares the one-character suit strings by code point (U+2660, U+2665,
  U+2666, U+2663); the bot's fallback sort uses that order, the deal's sort uses the
  position in \<open>ONLINE_SUITS\<close> (\<open>suit_order\<close>).
\<close>

primrec suit_codepoint :: "suit \<Rightarrow> nat" where
  "suit_codepoint Spade = 0x2660" | "suit_codepoint Heart = 0x2665"
| "suit_codepoint Diamond = 0x2666" | "suit_codepoint Club = 0x2663"

primrec suit_order :: "suit \<Rightarrow> nat" where
  "suit_order Spade = 0" | "suit_order Heart = 1" | "suit_order Diamond = 2" | "suit_order Club = 3"

record card =
  suit :: suit
  rank :: rank

definition online_make_deck :: "card list" where
  "online_make_deck = concat (map (\<lambda>s. map (\<lambda>r. \<lparr>suit = s, rank = r\<rparr>) online_ranks) online_suits)"

definition online_card_key :: "card \<Rightarrow> string" where
  "online_card_key c = rank_symbol (rank c) @ suit_symbol (suit c)"

text \<open>\<open>(x > y) - (x < y)\<close>\<close>

definition py_cmp :: "nat \<Rightarrow> nat \<Rightarrow> int" where
  "py_cmp x y = (if x > y then 1 else 0) - (if x < y then 1 else 0)"

definition online_compare_cards :: "card \<Rightarrow> card \<Rightarrow> suit option \<Rightarrow> int" where
  "online_compare_cards a b lead_suit =
     (let a_trump = (suit a = Spade); b_trump = (suit b = Spade) in
      if a_trump \<and> \<not> b_trump then 1
      else if \<not> a_trump \<and> b_trump then -1
      else if suit a = suit b then py_cmp (rank_value (rank a)) (rank_value (rank b))
      else
        let a_lead = (Some (suit a) = lead_suit); b_lead = (Some (suit b) = lead_suit) in
        if a_lead \<and> \<not> b_lead then 1
        else if \<not> a_lead \<and> b_lead then -1
        else py_cmp (rank_value (rank a)) (rank_value (rank b)))"

text \<open>
  Relative to a lead suit, a card is ranked by its class (2 for a trump, 1 for the
  lead suit, 0 otherwise) and then by its rank value.
\<close>

definition trick_class :: "suit option \<Rightarrow> card \<Rightarrow> nat" where
  "trick_class lead c =
     (if suit c = Spade then 2 else if Some (suit c) = lead then 1 else 0)"

definition trick_key :: "suit option \<Rightarrow> card \<Rightarrow> nat" where
  "trick_key lead c = 15 * trick_class lead c + rank_value (rank c)"

subsection \<open>The deck\<close>

lemma rank_value_bounds: "2 \<le> rank_value r \<and> rank_value r \<le> 14"
  by (cases r) simp_all

lemma rank_value_inj: "rank_value r = rank_value r' \<longleftrightarrow> r = r'"
  by (cases r; cases r') simp_all

lemma rank_value_index: "i < length online_ranks \<Longrightarrow> rank_value (online_ranks ! i) = i + 2"
  by (simp add: online_ranks_def less_Suc_eq nth_Cons')
     (elim disjE; simp)

lemma length_online_make_deck: "length online_make_deck = 52"
  by (simp add: online_make_deck_def online_suits_def online_ranks_def)

lemma distinct_online_make_deck: "distinct online_make_deck"
  by (simp add: online_make_deck_def online_suits_def online_ranks_def)

lemma in_online_make_deck: "c \<in> set online_make_deck"
proof -
  obtain s r where c: "c = \<lparr>suit = s, rank = r\<rparr>"
    by (cases c) simp
  show ?thesis
    unfolding c online_make_deck_def online_suits_def online_ranks_def
    by (cases s; cases r) simp_all
qed

lemma set_online_make_deck: "set online_make_deck = UNIV"
  using in_online_make_deck by blast

subsection \<open>Card identifiers\<close>

lemma length_suit_symbol: "length (suit_symbol s) = 3"
  by (cases s) simp_all

lemma suit_symbol_inj: "suit_symbol s = suit_symbol s' \<longleftrightarrow> s = s'"
  by (cases s; cases s') simp_all

lemma rank_symbol_inj: "rank_symbol r = rank_symbol r' \<longleftrightarrow> r = r'"
  by (cases r; cases r') simp_all

lemma card_key_parts:
  assumes "online_card_key a = online_card_key b"
  shows "rank_symbol (rank a) = rank_symbol (rank b) \<and> suit_symbol (suit a) = suit_symbol (suit b)"
proof -
  have "rank_symbol (rank a) @ suit_symbol (suit a) = rank_symbol (rank b) @ suit_symbol (suit b)"
    using assms by (simp add: online_card_key_def)
  moreover have "length (suit_symbol (suit a)) = length (suit_symbol (suit b))"
    by (simp add: length_suit_symbol)
  ultimately show ?thesis
    using append_eq_append_conv by blast
qed

lemma online_card_key_inj_raw: "online_card_key a = online_card_key b \<Longrightarrow> a = b"
  using card_key_parts [of a b] by (simp add: rank_symbol_inj suit_symbol_inj)

subsection \<open>The comparison as a key\<close>

lemma py_cmp_cases:
  "py_cmp x y = (if x > y then 1 else if x < y then -1 else 0)"
  by (simp add: py_cmp_def)

lemma trick_key_less_iff:
  "trick_key lead a < trick_key lead b \<longleftrightarrow>
     trick_class lead a < trick_class lead b \<or>
     (trick_class lead a = trick_class lead b \<and> rank_value (rank a) < rank_value (rank b))"
  using rank_value_bounds [of "rank a"] rank_value_bounds [of "rank b"]
  by (auto simp: trick_key_def)

lemma online_compare_cards_key:
  "online_compare_cards a b lead = py_cmp (trick_key lead a) (trick_key lead b)"
  using rank_value_bounds [of "rank a"] rank_value_bounds [of "rank b"]
  by (auto simp: online_compare_cards_def py_cmp_def trick_key_def trick_class_def Let_def)

end
