(* ===== verification/State.thy ===== *)
theory State
  imports Cards
begin

text \<open>
  The authoritative game state of one online room, \<open>room["state"]\<close> in
  \<open>src/app.py\<close>, as a record with the dictionary's keys as fields (in the order
  \<open>online_create_room\<close> writes them, then \<open>sweepUntil\<close>, which
  \<open>_online_internal_play_card\<close> adds).  Python's \<open>None\<close> is \<open>None\<close> of an
  option type; \<open>botSeats\<close> is a set of seats; the hands, \<open>[None] * n\<close> in the
  lobby, are empty lists there (every reader of a hand treats \<open>None\<close> and
  \<open>[]\<close> alike: \<open>hand or []\<close>, \<open>if not hand\<close>).  The phase strings are the
  constructors of \<open>phase\<close>.

  A handler's observable effects besides the new state are a list of \<open>effect\<close>s in
  program order: a full-state broadcast (\<open>_online_emit_full_state\<close>), an error
  message to the requesting connection, a background task started with
  \<open>socketio.start_background_task\<close> together with the delay it first sleeps, and an
  exception escaping the handler.  The tasks are the closures of the program
  (\<open>_finish\<close>, the bot turn, the watchdog loop, the automatic next trick and next
  round, the bot takeover), each with the values it captured.
\<close>

datatype phase = Lobby | Dealing | Bidding | Playing | BetweenTricks | RoundFinished | GameFinished

record round_record =
  hist_round :: nat
  hist_cardsPer :: nat
  hist_bids :: "int list"
  hist_taken :: "nat list"
  hist_points :: "int list"

record game_state =
  n :: nat
  names :: "string option list"
  botSeats :: "seat set"
  roundIndex :: nat
  leader :: seat
  turn :: seat
  leadSuit :: "suit option"
  table :: "card option list"
  winner :: "seat option"
  phase :: phase
  hands :: "card list list"
  bids :: "nat option list"
  dealId :: nat
  dealSeq :: "seat list option"
  cardsPer :: "nat option"
  dealEndsAt :: "time option"
  tricksRound :: "nat list"
  tricksTotal :: "nat list"
  pointsTotal :: "int list"
  history :: "round_record list"
  autoNextDoneFor :: "nat option"
  lastActionAt :: time
  botScheduledAt :: time
  botScheduledTurn :: "seat option"
  botWatchdogStarted :: bool
  sweepUntil :: "time option"

datatype task =
    DealFinish nat
  | BotTurn
  | Watchdog
  | AutoNextTrick nat
  | AutoNextTrickResume nat
  | AutoNextRound nat
  | BotTakeover seat "client_id option" time

datatype message =
    ErrRoomNotFound | ErrNotInRoom | ErrNotYourTurn | ErrBidAlreadySet | ErrBidRange nat
  | ErrRoomFull | ErrBadCode | ErrNotHost | ErrOthersPresent | ErrNeedHuman | ErrNeedPlayers

datatype effect = EmitState | EmitError message | EmitLeft | Spawn time task | Crash

text \<open>
  The state literal of a new lobby, written out twice in the source
  (\<open>online_create_room\<close> and \<open>online_update_lobby\<close>).
\<close>

definition fresh_state :: "nat \<Rightarrow> string option list \<Rightarrow> seat set \<Rightarrow> time \<Rightarrow> game_state" where
  "fresh_state n_players names0 bot_seats now =
     \<lparr>n = n_players, names = names0, botSeats = bot_seats, roundIndex = 0, leader = 0, turn = 0,
      leadSuit = None, table = replicate n_players None, winner = None, phase = Lobby,
      hands = replicate n_players [], bids = replicate n_players None, dealId = 0, dealSeq = None,
      cardsPer = None, dealEndsAt = None, tricksRound = replicate n_players 0,
      tricksTotal = replicate n_players 0, pointsTotal = replicate n_players 0, history = [],
      autoNextDoneFor = None, lastActionAt = now, botScheduledAt = 0, botScheduledTurn = None,
      botWatchdogStarted = False, sweepUntil = None\<rparr>"

text \<open>\<open>f"{k}"\<close> for a natural number.\<close>

fun show_nat :: "nat \<Rightarrow> string" where
  "show_nat k = (if k < 10 then [char_of (48 + k)] else show_nat (k div 10) @ [char_of (48 + k mod 10)])"

declare show_nat.simps [simp del]

text \<open>The seats of a room, \<open>range(n)\<close>, and the test \<open>turn in botSeats\<close>.\<close>

definition seats :: "game_state \<Rightarrow> seat list" where
  "seats st = [0..<n st]"

definition bot_to_move :: "game_state \<Rightarrow> bool" where
  "bot_to_move st \<longleftrightarrow> phase st = Playing \<and> turn st \<in> botSeats st"

lemma show_nat_small: "k < 10 \<Longrightarrow> show_nat k = [char_of (48 + k)]"
  by (simp add: show_nat.simps)

end
