(* ===== verification/Deal.thy ===== *)
theory Deal
  imports Cards
begin

text \<open>
  Dealing (\<open>src/app.py\<close>, \<open>_online_deal\<close> and \<open>ONLINE_ROUND_CARDS\<close>).  The
  shuffle \<open>random.shuffle(deck)\<close> is the one source of randomness: the model takes
  the shuffled deck as an argument, and the lemmas hold for every permutation of
  \<open>_online_make_deck\<close>.  Indexing the 14-entry schedule past its end raises
  \<open>IndexError\<close>; the model returns \<open>None\<close> there.  The round-robin loop is a
  \<open>fold\<close> over \<open>enumerate(take)\<close>; it is shown equal to a filter by seat
  (\<open>deal_round_robin_eq\<close>), from which the partition lemmas follow: \<open>n\<close> hands
  of exactly \<open>cardsPer\<close> cards each, no card in two hands, every card from the deck,
  each hand sorted by (position of the suit in \<open>ONLINE_SUITS\<close>, rank value).
\<close>

definition online_round_cards :: "nat list" where
  "online_round_cards = [7, 6, 5, 4, 3, 2, 1, 1, 2, 3, 4, 5, 6, 7]"

definition cards_per_for :: "nat \<Rightarrow> nat \<Rightarrow> nat" where
  "cards_per_for requested n_players = max 1 (min requested (52 div max 1 n_players))"

definition deal_round_robin :: "nat \<Rightarrow> card list \<Rightarrow> card list list" where
  "deal_round_robin n_players cs =
     fold (\<lambda>(i, c) hands. hands[i mod n_players := hands ! (i mod n_players) @ [c]])
       (enumerate 0 cs) (replicate n_players [])"

definition hand_sort_key :: "card \<Rightarrow> nat \<times> nat" where
  "hand_sort_key c = (suit_order (suit c), rank_value (rank c))"

definition online_deal :: "nat \<Rightarrow> nat \<Rightarrow> card list \<Rightarrow> (card list list \<times> nat) option" where
  "online_deal n_players round_index deck =
     (if round_index < length online_round_cards then
        let requested = online_round_cards ! round_index;
            cards_per = cards_per_for requested n_players;
            needed = cards_per * n_players;
            hands = deal_round_robin n_players (take needed deck)
        in Some (map (sort_key hand_sort_key) hands, cards_per)
      else None)"

subsection \<open>The round-robin loop as a filter\<close>

definition hands_by_seat :: "nat \<Rightarrow> card list \<Rightarrow> card list list" where
  "hands_by_seat n_players cs =
     map (\<lambda>j. map snd (filter (\<lambda>(i, c). i mod n_players = j) (enumerate 0 cs))) [0..<n_players]"

lemma fold_round_robin:
  assumes "length hs = n" and "0 < n"
  shows "fold (\<lambda>(i, c) hands. hands[i mod n := hands ! (i mod n) @ [c]]) (enumerate k cs) hs =
         map (\<lambda>j. hs ! j @ map snd (filter (\<lambda>(i, c). i mod n = j) (enumerate k cs))) [0..<n]"
  using assms
proof (induction cs arbitrary: k hs)
  case Nil
  then show ?case by (simp, metis map_nth)
next
  case (Cons c cs)
  let ?hs' = "hs[k mod n := hs ! (k mod n) @ [c]]"
  have "length ?hs' = n" using Cons.prems by simp
  then have IH: "fold (\<lambda>(i, c) hands. hands[i mod n := hands ! (i mod n) @ [c]]) (enumerate (Suc k) cs) ?hs' =
      map (\<lambda>j. ?hs' ! j @ map snd (filter (\<lambda>(i, c). i mod n = j) (enumerate (Suc k) cs))) [0..<n]"
    using Cons.IH Cons.prems(2) by blast
  have "k mod n < n" using Cons.prems(2) by simp
  then show ?case
    using Cons.prems by (simp add: IH nth_list_update)
qed

lemma deal_round_robin_eq:
  "0 < n \<Longrightarrow> deal_round_robin n cs = hands_by_seat n cs"
  by (simp add: deal_round_robin_def hands_by_seat_def fold_round_robin)

lemma length_hands_by_seat [simp]: "length (hands_by_seat n cs) = n"
  by (simp add: hands_by_seat_def)

text \<open>The seat of a card of the dealt prefix is its position modulo \<open>n\<close>.\<close>

lemma length_filter_mod_upt:
  assumes "j < n"
  shows "length (filter (\<lambda>i. i mod n = j) [0..<m * n]) = m"
proof -
  have eq: "{i. i < m * n \<and> i mod n = j} = (\<lambda>k. k * n + j) ` {..<m}"
  proof (intro set_eqI iffI)
    fix i assume "i \<in> {i. i < m * n \<and> i mod n = j}"
    then have i: "i < m * n" "i mod n = j" by auto
    then have "i div n < m" by (simp add: less_mult_imp_div_less)
    moreover have "i = i div n * n + j" using i(2) div_mult_mod_eq [of i n] by simp
    ultimately show "i \<in> (\<lambda>k. k * n + j) ` {..<m}" by blast
  next
    fix i assume "i \<in> (\<lambda>k. k * n + j) ` {..<m}"
    then obtain k where k: "k < m" "i = k * n + j" by auto
    have "k * n + j < k * n + n" using assms by simp
    also have "\<dots> \<le> m * n" using k(1) by (metis add.commute mult_Suc Suc_leI mult_le_mono1)
    finally show "i \<in> {i. i < m * n \<and> i mod n = j}" using k assms by simp
  qed
  have inj: "inj_on (\<lambda>k. k * n + j) {..<m}"
    using assms by (auto intro!: inj_onI)
  have "length (filter (\<lambda>i. i mod n = j) [0..<m * n]) = card {i. i < m * n \<and> i mod n = j}"
    unfolding length_filter_conv_card by (rule arg_cong [where f = card]) auto
  also have "\<dots> = m" using eq inj by (simp add: card_image)
  finally show ?thesis .
qed

lemma length_hands_by_seat_nth:
  assumes "j < n"
  shows "length (hands_by_seat n cs ! j) = length (filter (\<lambda>i. i mod n = j) [0..<length cs])"
proof -
  have "length (hands_by_seat n cs ! j) =
        length (filter (\<lambda>(i, c). i mod n = j) (enumerate 0 cs))"
    using assms by (simp add: hands_by_seat_def)
  also have "filter (\<lambda>(i, c). i mod n = j) (enumerate 0 cs) =
      filter ((\<lambda>i. i mod n = j) \<circ> fst) (enumerate 0 cs)"
    by (auto intro: filter_cong)
  also have "length \<dots> = length (filter (\<lambda>i. i mod n = j) (map fst (enumerate 0 cs)))"
    by (simp only: filter_map length_map)
  also have "map fst (enumerate 0 cs) = [0..<length cs]"
    by simp
  finally show ?thesis .
qed

lemma sum_list_indicator:
  "a < n \<Longrightarrow> sum_list (map (\<lambda>j. if a = j then x else 0) [0..<n]) = (x :: 'b :: comm_monoid_add)"
  by (simp add: sum_list_distinct_conv_sum_set)

lemma mset_concat_filter_by:
  assumes "\<forall>i. f i < n"
  shows "mset (concat (map (\<lambda>j. map snd (filter (\<lambda>(i, c). f i = j) e)) [0..<n])) = mset (map snd e)"
proof (induction e)
  case Nil
  then show ?case by (simp add: mset_concat comp_def map_replicate_const)
next
  case (Cons p e)
  obtain i c where p: "p = (i, c)" by (cases p)
  have step: "\<And>j. mset (map snd (filter (\<lambda>(i, c). f i = j) (p # e))) =
      (if f i = j then {#c#} else {#}) + mset (map snd (filter (\<lambda>(i, c). f i = j) e))"
    by (simp add: p)
  have "mset (concat (map (\<lambda>j. map snd (filter (\<lambda>(i, c). f i = j) (p # e))) [0..<n])) =
        sum_list (map (\<lambda>j. mset (map snd (filter (\<lambda>(i, c). f i = j) (p # e)))) [0..<n])"
    by (simp only: mset_concat map_map comp_def)
  also have "\<dots> = sum_list (map (\<lambda>j. (if f i = j then {#c#} else {#}) +
            mset (map snd (filter (\<lambda>(i, c). f i = j) e))) [0..<n])"
    by (simp only: step)
  also have "\<dots> = {#c#} + mset (concat (map (\<lambda>j. map snd (filter (\<lambda>(i, c). f i = j) e)) [0..<n]))"
    using assms by (simp add: sum_list_addf sum_list_indicator mset_concat comp_def)
  finally show ?case
    using Cons.IH p by simp
qed

lemma mset_concat_hands_by_seat:
  "0 < n \<Longrightarrow> mset (concat (hands_by_seat n cs)) = mset cs"
  using mset_concat_filter_by [of "\<lambda>i. i mod n" n "enumerate 0 cs"]
  by (simp add: hands_by_seat_def enumerate_eq_zip)

lemma length_hands_by_seat_exact:
  "j < n \<Longrightarrow> length cs = m * n \<Longrightarrow> length (hands_by_seat n cs ! j) = m"
  by (simp add: length_hands_by_seat_nth length_filter_mod_upt)

lemma shuffled_deck:
  assumes "mset deck = mset online_make_deck"
  shows "distinct deck \<and> length deck = 52"
  using assms distinct_online_make_deck length_online_make_deck
  by (metis mset_eq_imp_distinct_iff mset_eq_length)

lemma cards_per_for_bounds:
  assumes "0 < n" and "n \<le> 52"
  shows "1 \<le> cards_per_for req n \<and> cards_per_for req n * n \<le> 52"
proof -
  have "0 < 52 div n"
    using assms by (simp add: div_greater_zero_iff)
  moreover have "(52 div n) * n \<le> 52"
    by (metis div_mult_mod_eq le_add1)
  ultimately show ?thesis
    using assms by (auto simp: cards_per_for_def max_def min_def intro: order.trans[OF mult_le_mono1])
qed

lemma online_deal_Some:
  "online_deal n ri deck = Some (hands, cp) \<longleftrightarrow>
     ri < 14 \<and> cp = cards_per_for (online_round_cards ! ri) n \<and>
     hands = map (sort_key hand_sort_key) (deal_round_robin n (take (cp * n) deck))"
  by (auto simp: online_deal_def online_round_cards_def Let_def)

lemma online_round_cards_bounds: "ri < 14 \<Longrightarrow> 1 \<le> online_round_cards ! ri \<and> online_round_cards ! ri \<le> 7"
  by (simp add: online_round_cards_def less_Suc_eq nth_Cons')

lemma mset_concat_sort: "mset (concat (map (sort_key f) xss)) = mset (concat xss)"
  by (induction xss) simp_all

text \<open>The shape of a deal from a deck of at least 52 cards, for the invariants.\<close>

lemma online_deal_shape:
  assumes "0 < n" and "n \<le> 52" and "52 \<le> length deck" and "online_deal n ri deck = Some (hs, cp)"
  shows "length hs = n \<and> (\<forall>j < n. length (hs ! j) = cp) \<and> 0 < cp \<and> cp * n \<le> 52"
proof -
  have d: "cp = cards_per_for (online_round_cards ! ri) n"
    "hs = map (sort_key hand_sort_key) (hands_by_seat n (take (cp * n) deck))"
    using assms(1,4) by (simp_all add: online_deal_Some deal_round_robin_eq)
  have b: "1 \<le> cp \<and> cp * n \<le> 52"
    using cards_per_for_bounds [OF assms(1,2)] d(1) by simp
  then have "length (take (cp * n) deck) = cp * n"
    using assms(3) by simp
  then show ?thesis
    using d(2) b length_hands_by_seat_exact by auto
qed

subsection \<open>Properties of the deal\<close>

text \<open>
  C6: dealing from a shuffled deck to \<open>n\<close> seats (\<open>1 \<le> n \<le> 52\<close>) gives
  \<open>n\<close> hands of exactly \<open>cardsPer\<close> cards each, \<open>cardsPer * n\<close> cards in all, no
  card in two hands (nor twice in one), every card taken from the deck.
\<close>

theorem online_deal_partition:
  assumes "mset deck = mset online_make_deck" and "0 < n" and "n \<le> 52"
    and "online_deal n ri deck = Some (hands, cp)"
  shows "length hands = n \<and> (\<forall>h \<in> set hands. length h = cp) \<and>
         sum_list (map length hands) = cp * n \<and>
         distinct (concat hands) \<and> set (concat hands) \<subseteq> set deck"
proof -
  let ?take = "take (cp * n) deck"
  have d: "ri < 14" "cp = cards_per_for (online_round_cards ! ri) n"
    "hands = map (sort_key hand_sort_key) (hands_by_seat n ?take)"
    using assms(2,4) by (simp_all add: online_deal_Some deal_round_robin_eq)
  have deck: "distinct deck" "length deck = 52"
    using shuffled_deck [OF assms(1)] by simp_all
  have "cp * n \<le> 52"
    using cards_per_for_bounds [OF assms(2,3)] d(2) by simp
  then have len_take: "length ?take = cp * n"
    using deck(2) by simp
  have lens: "\<forall>h \<in> set hands. length h = cp"
    using d(3) length_hands_by_seat_exact [OF _ len_take] by (auto simp: in_set_conv_nth)
  have ms: "mset (concat hands) = mset ?take"
    using d(3) assms(2) by (simp add: mset_concat_sort mset_concat_hands_by_seat)
  have "distinct ?take"
    using deck(1) by simp
  then have "distinct (concat hands)"
    using mset_eq_imp_distinct_iff [OF ms] by simp
  moreover have "set (concat hands) \<subseteq> set deck"
    using mset_eq_setD [OF ms] set_take_subset by metis
  moreover have "length hands = n"
    using d(3) by simp
  moreover have "sum_list (map length hands) = cp * n"
    using sum_list_map_const [OF lens] \<open>length hands = n\<close> by simp
  ultimately show ?thesis
    using lens by blast
qed

text \<open>
  C7: every dealt hand is in the order of the source's sort: by the position of the
  suit in \<open>ONLINE_SUITS\<close> (spades, hearts, diamonds, clubs) and, within a suit, by
  rank value.  The order is stated on the pair itself, lexicographically.
\<close>

theorem online_deal_sorted:
  assumes "online_deal n ri deck = Some (hands, cp)"
  shows "\<forall>h \<in> set hands. sorted_wrt (\<lambda>a b. (suit_order (suit a), rank_value (rank a)) \<le>
                                         (suit_order (suit b), rank_value (rank b))) h"
proof -
  have k: "(\<lambda>a b. (suit_order (suit a), rank_value (rank a)) \<le> (suit_order (suit b), rank_value (rank b))) =
           (\<lambda>a b. hand_sort_key a \<le> hand_sort_key b)"
    by (simp only: hand_sort_key_def)
  show ?thesis
  proof
    fix h
    assume "h \<in> set hands"
    then obtain x where "h = sort_key hand_sort_key x"
      using assms by (auto simp: online_deal_Some)
    then have "sorted (map hand_sort_key h)"
      by simp
    then show "sorted_wrt (\<lambda>a b. (suit_order (suit a), rank_value (rank a)) \<le>
                                 (suit_order (suit b), rank_value (rank b))) h"
      unfolding k sorted_map .
  qed
qed

text \<open>
  C8: the number of cards per seat is
  \<open>max(1, min(ONLINE_ROUND_CARDS[roundIndex], 52 // n))\<close>; for 1 to 52 seats it is
  between 1 and the scheduled number, and the \<open>cardsPer * n\<close> cards dealt fit in the
  52-card deck.
\<close>

theorem online_deal_cards_per_bounds:
  assumes "0 < n" and "n \<le> 52" and "online_deal n ri deck = Some (hands, cp)"
  shows "cp = max 1 (min (online_round_cards ! ri) (52 div n)) \<and>
         1 \<le> cp \<and> cp \<le> online_round_cards ! ri \<and> cp * n \<le> 52"
proof -
  have d: "ri < 14" "cp = cards_per_for (online_round_cards ! ri) n"
    using assms(3) by (simp_all add: online_deal_Some)
  have "1 \<le> online_round_cards ! ri"
    using online_round_cards_bounds [OF d(1)] by simp
  then show ?thesis
    using cards_per_for_bounds [OF assms(1,2), of "online_round_cards ! ri"] d(2) assms(1)
    by (simp add: cards_per_for_def)
qed

text \<open>The example of the specification: eight seats in round 0 (7 scheduled) get 6 cards.\<close>

theorem online_deal_cards_per_bounds_witness:
  "\<exists>hands. online_deal 8 0 online_make_deck = Some (hands, 6) \<and>
     6 = max 1 (min (online_round_cards ! 0) (52 div 8)) \<and> 6 * (8::nat) \<le> 52"
proof -
  obtain hands where h: "online_deal 8 0 online_make_deck = Some (hands, 6)"
    by (simp add: online_deal_def online_round_cards_def cards_per_for_def Let_def)
  show ?thesis
    using online_deal_cards_per_bounds [OF _ _ h] h by auto
qed

text \<open>
  The deal raises \<open>IndexError\<close> exactly when the round index is past
  the 14-round schedule; within it the deal always succeeds.
\<close>

theorem online_deal_total:
  "(\<exists>hands cp. online_deal n ri deck = Some (hands, cp)) \<longleftrightarrow> ri < 14"
  by (simp add: online_deal_def online_round_cards_def Let_def)

text \<open>A witness of the partition theorem: two seats in round 6 (one card each) from the unshuffled deck.\<close>

theorem online_deal_partition_witness:
  "online_deal 2 6 online_make_deck =
     Some ([[\<lparr>suit = Spade, rank = R2\<rparr>], [\<lparr>suit = Spade, rank = R3\<rparr>]], 1) \<and>
   distinct (concat [[\<lparr>suit = Spade, rank = R2\<rparr>], [\<lparr>suit = Spade, rank = R3\<rparr>]]) \<and>
   sum_list (map length [[\<lparr>suit = Spade, rank = R2\<rparr>], [\<lparr>suit = Spade, rank = R3\<rparr>]]) = 1 * 2"
proof -
  have d: "online_deal 2 6 online_make_deck =
     Some ([[\<lparr>suit = Spade, rank = R2\<rparr>], [\<lparr>suit = Spade, rank = R3\<rparr>]], 1)"
    by (simp add: online_deal_def online_round_cards_def cards_per_for_def deal_round_robin_def
        online_make_deck_def online_suits_def online_ranks_def numeral_2_eq_2)
  show ?thesis
    using online_deal_partition [OF refl _ _ d] d by simp
qed

theorem online_deal_sorted_witness:
  "online_deal 2 6 online_make_deck =
     Some ([[\<lparr>suit = Spade, rank = R2\<rparr>], [\<lparr>suit = Spade, rank = R3\<rparr>]], 1) \<and>
   sorted_wrt (\<lambda>a b. (suit_order (suit a), rank_value (rank a)) \<le> (suit_order (suit b), rank_value (rank b)))
     [\<lparr>suit = Spade, rank = R3\<rparr>]"
proof -
  have d: "online_deal 2 6 online_make_deck =
     Some ([[\<lparr>suit = Spade, rank = R2\<rparr>], [\<lparr>suit = Spade, rank = R3\<rparr>]], 1)"
    by (simp add: online_deal_def online_round_cards_def cards_per_for_def deal_round_robin_def
        online_make_deck_def online_suits_def online_ranks_def numeral_2_eq_2)
  have "\<forall>h \<in> set [[\<lparr>suit = Spade, rank = R2\<rparr>], [\<lparr>suit = Spade, rank = R3\<rparr>]].
          sorted_wrt (\<lambda>a b. (suit_order (suit a), rank_value (rank a)) \<le> (suit_order (suit b), rank_value (rank b))) h"
    by (rule online_deal_sorted [OF d])
  then have "sorted_wrt (\<lambda>a b. (suit_order (suit a), rank_value (rank a)) \<le> (suit_order (suit b), rank_value (rank b)))
               [\<lparr>suit = Spade, rank = R3\<rparr>]"
    by (rule bspec) simp
  with d show ?thesis
    by (rule conjI)
qed

end
