(* ===== verification/Bot.thy ===== *)
theory Bot
  imports State Deal
begin

text \<open>
  The computer player (\<open>src/app.py\<close>, \<open>_online_bot_choose_bid\<close> and
  \<open>_online_bot_choose_card\<close>).

  The bid is \<open>max(0, min(max_bid, int(round(sp * 0.6 + hi * 0.35))))\<close> with
  \<open>sp\<close> the spades and \<open>hi\<close> the cards of value at least 11 in the hand.  The model
  computes \<open>round\<close> as Python does on the exact value \<open>(12 sp + 7 hi) / 20\<close>:
  to the nearest integer, ties to even (\<open>py_round_half_even\<close>).  The float
  expression of the source rounds the same way for every hand that occurs (at most 7
  cards, so \<open>sp, hi \<le> 7\<close>; the two ties there, 2.5 and 4.5, are exact in binary).
  \<open>max_bid\<close> is \<open>st.get("cardsPer") or ONLINE_ROUND_CARDS[roundIndex]\<close>; the
  index raises \<open>IndexError\<close> past the schedule, so the bid step returns an option.
  The loop runs over \<open>botSeats\<close>; CPython iterates a set of small integers in
  ascending order, which is the order of the fold over the bot seats among
  \<open>range(n)\<close>.

  The card choice returns the chosen card and the hand after the call: the fallback
  branch sorts the hand in place by (suit string, rank value), where Python compares the
  suit symbols by code point.
\<close>

definition round_cards_at :: "nat \<Rightarrow> nat option" where
  "round_cards_at ri = (if ri < length online_round_cards then Some (online_round_cards ! ri) else None)"

definition max_bid_of :: "game_state \<Rightarrow> nat option" where
  "max_bid_of st = (case cardsPer st of Some c \<Rightarrow> if c \<noteq> 0 then Some c else round_cards_at (roundIndex st)
                                    | None \<Rightarrow> round_cards_at (roundIndex st))"

definition py_round_half_even :: "int \<Rightarrow> int \<Rightarrow> int" where
  "py_round_half_even a b =
     (let q = a div b; r = a mod b in
      if 2 * r < b then q else if 2 * r > b then q + 1 else if even q then q else q + 1)"

definition bot_bid_for :: "nat \<Rightarrow> card list \<Rightarrow> nat" where
  "bot_bid_for max_bid hand =
     (let sp = length (filter (\<lambda>c. suit c = Spade) hand);
          hi = length (filter (\<lambda>c. 11 \<le> rank_value (rank c)) hand)
      in nat (max 0 (min (int max_bid) (py_round_half_even (12 * int sp + 7 * int hi) 20))))"

definition bot_bid_step :: "game_state \<Rightarrow> nat \<Rightarrow> seat \<Rightarrow> nat option list \<Rightarrow> nat option list" where
  "bot_bid_step st max_bid seat bs =
     (if bs ! seat \<noteq> None then bs else bs[seat := Some (bot_bid_for max_bid (hands st ! seat))])"

definition online_bot_choose_bid :: "game_state \<Rightarrow> game_state option" where
  "online_bot_choose_bid st =
     (case max_bid_of st of
        None \<Rightarrow> None
      | Some max_bid \<Rightarrow>
          Some (st\<lparr>bids := fold (bot_bid_step st max_bid) (filter (\<lambda>s. s \<in> botSeats st) (seats st)) (bids st)\<rparr>))"

definition lowest_by_rank :: "card list \<Rightarrow> card" where
  "lowest_by_rank cs = hd (sort_key (\<lambda>c. rank_value (rank c)) cs)"

definition fallback_key :: "card \<Rightarrow> nat \<times> nat" where
  "fallback_key c = (suit_codepoint (suit c), rank_value (rank c))"

definition trump_or_fallback :: "card list \<Rightarrow> card option \<times> card list" where
  "trump_or_fallback hand =
     (let tr = filter (\<lambda>c. suit c = Spade) hand in
      if tr \<noteq> [] then (Some (lowest_by_rank tr), hand)
      else let sorted_hand = sort_key fallback_key hand in (Some (hd sorted_hand), sorted_hand))"

definition online_bot_choose_card :: "game_state \<Rightarrow> seat \<Rightarrow> card option \<times> card list" where
  "online_bot_choose_card st seat =
     (let hand = hands st ! seat in
      if hand = [] then (None, hand)
      else case leadSuit st of
             Some lead \<Rightarrow>
               (let same = filter (\<lambda>c. suit c = lead) hand in
                if same \<noteq> [] then (Some (lowest_by_rank same), hand) else trump_or_fallback hand)
           | None \<Rightarrow> trump_or_fallback hand)"

subsection \<open>Rounding and the bid\<close>

lemma py_round_half_even_nonneg: "0 \<le> a \<Longrightarrow> 0 < b \<Longrightarrow> 0 \<le> py_round_half_even a b"
  by (simp add: py_round_half_even_def Let_def pos_imp_zdiv_nonneg_iff)

lemma bot_bid_for_le: "bot_bid_for max_bid hand \<le> max_bid"
  by (simp add: bot_bid_for_def Let_def)

lemma bids_fold_bot_bid_step:
  assumes "\<forall>s \<in> set ss. s < length bs"
  shows "length (fold (bot_bid_step st m) ss bs) = length bs \<and>
         (\<forall>i < length bs. fold (bot_bid_step st m) ss bs ! i =
            (if i \<in> set ss \<and> bs ! i = None then Some (bot_bid_for m (hands st ! i)) else bs ! i))"
  using assms
proof (induction ss arbitrary: bs)
  case Nil
  then show ?case by simp
next
  case (Cons s ss)
  let ?bs = "bot_bid_step st m s bs"
  have len: "length ?bs = length bs"
    by (simp add: bot_bid_step_def)
  have at: "\<forall>i < length bs. ?bs ! i = (if i = s \<and> bs ! i = None then Some (bot_bid_for m (hands st ! i)) else bs ! i)"
    using Cons.prems by (auto simp: bot_bid_step_def nth_list_update)
  have "\<forall>s \<in> set ss. s < length ?bs"
    using Cons.prems len by simp
  then have IH: "length (fold (bot_bid_step st m) ss ?bs) = length ?bs \<and>
      (\<forall>i < length ?bs. fold (bot_bid_step st m) ss ?bs ! i =
         (if i \<in> set ss \<and> ?bs ! i = None then Some (bot_bid_for m (hands st ! i)) else ?bs ! i))"
    by (rule Cons.IH)
  show ?case
    using IH len at by auto
qed

text \<open>
  The bid step as a map over the seats: a bot seat without a bid gets the bot's bid,
  every other entry is kept.
\<close>

lemma online_bot_choose_bid_nth:
  assumes "online_bot_choose_bid st = Some st'" and "length (bids st) = n st"
  shows "length (bids st') = n st \<and>
         (\<exists>m. max_bid_of st = Some m \<and>
            (\<forall>i < n st. bids st' ! i =
               (if i \<in> botSeats st \<and> bids st ! i = None then Some (bot_bid_for m (hands st ! i))
                else bids st ! i)))"
proof -
  obtain m where m: "max_bid_of st = Some m"
    and st': "st' = st\<lparr>bids := fold (bot_bid_step st m) (filter (\<lambda>s. s \<in> botSeats st) (seats st)) (bids st)\<rparr>"
    using assms(1) by (auto simp: online_bot_choose_bid_def split: option.splits)
  have "\<forall>s \<in> set (filter (\<lambda>s. s \<in> botSeats st) (seats st)). s < length (bids st)"
    using assms(2) by (simp add: seats_def)
  from bids_fold_bot_bid_step [OF this, where m = m and st = st] show ?thesis
    using m st' assms(2) by (auto simp: seats_def)
qed

lemma online_bot_choose_bid_other_fields:
  "online_bot_choose_bid st = Some st' \<Longrightarrow> st' = st\<lparr>bids := bids st'\<rparr>"
  by (auto simp: online_bot_choose_bid_def split: option.splits)

lemma online_bot_choose_bid_Some_iff:
  "(\<exists>st'. online_bot_choose_bid st = Some st') \<longleftrightarrow> max_bid_of st \<noteq> None"
  by (auto simp: online_bot_choose_bid_def split: option.splits)

subsection \<open>The card choice\<close>

lemma lowest_by_rank_in: "cs \<noteq> [] \<Longrightarrow> lowest_by_rank cs \<in> set cs"
  by (metis lowest_by_rank_def list.set_sel(1) set_sort length_0_conv length_sort)

lemma lowest_by_rank_min:
  "c \<in> set cs \<Longrightarrow> rank_value (rank (lowest_by_rank cs)) \<le> rank_value (rank c)"
proof -
  assume c: "c \<in> set cs"
  let ?s = "sort_key (\<lambda>c. rank_value (rank c)) cs"
  have sorted: "sorted (map (\<lambda>c. rank_value (rank c)) ?s)"
    by simp
  have "c \<in> set ?s" using c by simp
  then obtain x xs where s: "?s = x # xs" by (cases ?s) auto
  with sorted \<open>c \<in> set ?s\<close> show ?thesis
    by (auto simp: lowest_by_rank_def)
qed

lemma trump_or_fallback_props:
  assumes "hand \<noteq> []" and "trump_or_fallback hand = (co, h')"
  shows "\<exists>c. co = Some c \<and> c \<in> set hand \<and> mset h' = mset hand \<and>
           ((\<exists>t \<in> set hand. suit t = Spade) \<longrightarrow> suit c = Spade)"
proof (cases "filter (\<lambda>c. suit c = Spade) hand = []")
  case True
  then have "sort_key fallback_key hand \<noteq> []"
    using assms(1) by (metis length_0_conv length_sort)
  then have "hd (sort_key fallback_key hand) \<in> set hand"
    by (metis list.set_sel(1) set_sort)
  then show ?thesis
    using True assms(2) by (auto simp: trump_or_fallback_def Let_def filter_empty_conv)
next
  case False
  then show ?thesis
    using assms(2) lowest_by_rank_in [OF False]
    by (auto simp: trump_or_fallback_def Let_def)
qed

lemma online_bot_choose_card_props:
  assumes "online_bot_choose_card st seat = (Some c, h')"
  shows "c \<in> set (hands st ! seat) \<and> mset h' = mset (hands st ! seat) \<and>
         (\<forall>l. leadSuit st = Some l \<and> (\<exists>x \<in> set (hands st ! seat). suit x = l) \<longrightarrow>
              suit c = l \<and> c = lowest_by_rank (filter (\<lambda>x. suit x = l) (hands st ! seat)))"
proof -
  let ?h = "hands st ! seat"
  have ne: "?h \<noteq> []"
    using assms by (auto simp: online_bot_choose_card_def Let_def)
  show ?thesis
  proof (cases "\<exists>l. leadSuit st = Some l \<and> filter (\<lambda>x. suit x = l) ?h \<noteq> []")
    case True
    then obtain l where l: "leadSuit st = Some l" "filter (\<lambda>x. suit x = l) ?h \<noteq> []" by blast
    then have c: "c = lowest_by_rank (filter (\<lambda>x. suit x = l) ?h)" "h' = ?h"
      using assms ne by (auto simp: online_bot_choose_card_def Let_def)
    have "c \<in> set (filter (\<lambda>x. suit x = l) ?h)"
      using c(1) lowest_by_rank_in [OF l(2)] by simp
    then show ?thesis
      using c l by auto
  next
    case False
    then have t: "trump_or_fallback ?h = (Some c, h')"
      using assms ne by (auto simp: online_bot_choose_card_def Let_def split: option.splits)
    have "\<forall>l. leadSuit st = Some l \<longrightarrow> \<not> (\<exists>x \<in> set ?h. suit x = l)"
      using False by (auto simp: filter_empty_conv)
    then show ?thesis
      using trump_or_fallback_props [OF ne t] by blast
  qed
qed

subsection \<open>Properties of the computer player\<close>

text \<open>
  C10: the card the bot picks is in its hand, the hand afterwards holds the same
  cards (the fallback only reorders it), and when the bot holds a card of the lead suit
  the picked card follows suit: the bot never attempts an illegal play.
\<close>

theorem bot_choose_card_legal:
  assumes "online_bot_choose_card st seat = (Some c, h')"
  shows "c \<in> set (hands st ! seat) \<and> mset h' = mset (hands st ! seat) \<and>
         (\<forall>l. leadSuit st = Some l \<and> (\<exists>x \<in> set (hands st ! seat). suit x = l) \<longrightarrow> suit c = l)"
  using online_bot_choose_card_props [OF assms] by meson

text \<open>
  Following suit, the bot plays its lowest card of the lead suit.
\<close>

theorem bot_choose_card_lowest_follow:
  assumes "online_bot_choose_card st seat = (Some c, h')" and "leadSuit st = Some l"
    and "x \<in> set (hands st ! seat)" and "suit x = l"
  shows "suit c = l \<and> rank_value (rank c) \<le> rank_value (rank x)"
proof -
  have ex: "\<exists>x \<in> set (hands st ! seat). suit x = l"
    using assms(3,4) by blast
  have c: "suit c = l" "c = lowest_by_rank (filter (\<lambda>x. suit x = l) (hands st ! seat))"
    using online_bot_choose_card_props [OF assms(1)] assms(2) ex by blast+
  have "x \<in> set (filter (\<lambda>x. suit x = l) (hands st ! seat))"
    using assms(3,4) by simp
  then show ?thesis
    using c lowest_by_rank_min by metis
qed

text \<open>
  C12: after the bot bid step every bot seat has a bid; it sets a bid only for a
  bot seat that has none, to a value between 0 and \<open>max_bid\<close>, and leaves every
  other seat's bid as it was.
\<close>

theorem bot_choose_bid_bounds:
  assumes "online_bot_choose_bid st = Some st'" and "length (bids st) = n st" and "i < n st"
  shows "((bids st ! i \<noteq> None \<or> i \<notin> botSeats st) \<longrightarrow> bids st' ! i = bids st ! i) \<and>
         (i \<in> botSeats st \<longrightarrow> bids st' ! i \<noteq> None) \<and>
         (i \<in> botSeats st \<and> bids st ! i = None \<longrightarrow>
            (\<exists>b m. bids st' ! i = Some b \<and> max_bid_of st = Some m \<and> b \<le> m))"
proof -
  obtain m where m: "max_bid_of st = Some m"
    and eq: "bids st' ! i = (if i \<in> botSeats st \<and> bids st ! i = None
                             then Some (bot_bid_for m (hands st ! i)) else bids st ! i)"
    using online_bot_choose_bid_nth [OF assms(1,2)] assms(3) by blast
  have "i \<in> botSeats st \<Longrightarrow> bids st ! i = None \<Longrightarrow> \<exists>b. bids st' ! i = Some b \<and> b \<le> m"
    using eq bot_bid_for_le [of m] by simp
  then show ?thesis
    using eq m by auto
qed

text \<open>
  The bid rounds half to even, as Python's \<open>round\<close>: three low spades and
  two high cards give \<open>round(2.5) = 2\<close>, four spades and six high cards (for a schedule
  of 7) \<open>round(4.5) = 4\<close>, and five spades \<open>round(3.0) = 3\<close>.
\<close>

theorem bot_bid_for_rounding:
  "bot_bid_for 7 [\<lparr>suit = Spade, rank = R2\<rparr>, \<lparr>suit = Spade, rank = R3\<rparr>, \<lparr>suit = Spade, rank = R4\<rparr>,
                  \<lparr>suit = Heart, rank = RK\<rparr>, \<lparr>suit = Diamond, rank = RA\<rparr>] = 2 \<and>
   bot_bid_for 7 [\<lparr>suit = Spade, rank = RA\<rparr>, \<lparr>suit = Spade, rank = RK\<rparr>, \<lparr>suit = Spade, rank = RQ\<rparr>,
                  \<lparr>suit = Spade, rank = RJ\<rparr>, \<lparr>suit = Heart, rank = RA\<rparr>, \<lparr>suit = Club, rank = RK\<rparr>] = 4 \<and>
   bot_bid_for 7 [\<lparr>suit = Spade, rank = R2\<rparr>, \<lparr>suit = Spade, rank = R3\<rparr>, \<lparr>suit = Spade, rank = R4\<rparr>,
                  \<lparr>suit = Spade, rank = R5\<rparr>, \<lparr>suit = Spade, rank = R6\<rparr>] = 3"
  by (simp add: bot_bid_for_def py_round_half_even_def)

text \<open>
  Witnesses: a two-seat room where seat 1 is a bot holding 5 and 9 of hearts and the 2 of
  spades, hearts led, three cards per seat.
\<close>

theorem bot_choose_card_legal_witness:
  "online_bot_choose_card ((fresh_state 2 [Some ''A'', Some ''B''] {1} 0)\<lparr>cardsPer := Some 3,
      hands := [[], [\<lparr>suit = Heart, rank = R5\<rparr>, \<lparr>suit = Heart, rank = R9\<rparr>, \<lparr>suit = Spade, rank = R2\<rparr>]],
      leadSuit := Some Heart\<rparr>) 1 =
     (Some \<lparr>suit = Heart, rank = R5\<rparr>, hands ((fresh_state 2 [Some ''A'', Some ''B''] {1} 0)\<lparr>cardsPer := Some 3,
      hands := [[], [\<lparr>suit = Heart, rank = R5\<rparr>, \<lparr>suit = Heart, rank = R9\<rparr>, \<lparr>suit = Spade, rank = R2\<rparr>]],
      leadSuit := Some Heart\<rparr>) ! 1) \<and>
   \<lparr>suit = Heart, rank = R5\<rparr> \<in> set (hands ((fresh_state 2 [Some ''A'', Some ''B''] {1} 0)\<lparr>cardsPer := Some 3,
      hands := [[], [\<lparr>suit = Heart, rank = R5\<rparr>, \<lparr>suit = Heart, rank = R9\<rparr>, \<lparr>suit = Spade, rank = R2\<rparr>]],
      leadSuit := Some Heart\<rparr>) ! 1)"
proof -
  have c: "online_bot_choose_card ((fresh_state 2 [Some ''A'', Some ''B''] {1} 0)\<lparr>cardsPer := Some 3,
      hands := [[], [\<lparr>suit = Heart, rank = R5\<rparr>, \<lparr>suit = Heart, rank = R9\<rparr>, \<lparr>suit = Spade, rank = R2\<rparr>]],
      leadSuit := Some Heart\<rparr>) 1 =
     (Some \<lparr>suit = Heart, rank = R5\<rparr>, hands ((fresh_state 2 [Some ''A'', Some ''B''] {1} 0)\<lparr>cardsPer := Some 3,
      hands := [[], [\<lparr>suit = Heart, rank = R5\<rparr>, \<lparr>suit = Heart, rank = R9\<rparr>, \<lparr>suit = Spade, rank = R2\<rparr>]],
      leadSuit := Some Heart\<rparr>) ! 1)"
    by (simp add: online_bot_choose_card_def fresh_state_def lowest_by_rank_def)
  show ?thesis
    using bot_choose_card_legal [OF c] c by simp
qed

theorem bot_choose_card_lowest_follow_witness:
  "online_bot_choose_card ((fresh_state 2 [Some ''A'', Some ''B''] {1} 0)\<lparr>cardsPer := Some 3,
      hands := [[], [\<lparr>suit = Heart, rank = R5\<rparr>, \<lparr>suit = Heart, rank = R9\<rparr>, \<lparr>suit = Spade, rank = R2\<rparr>]],
      leadSuit := Some Heart\<rparr>) 1 =
     (Some \<lparr>suit = Heart, rank = R5\<rparr>, hands ((fresh_state 2 [Some ''A'', Some ''B''] {1} 0)\<lparr>cardsPer := Some 3,
      hands := [[], [\<lparr>suit = Heart, rank = R5\<rparr>, \<lparr>suit = Heart, rank = R9\<rparr>, \<lparr>suit = Spade, rank = R2\<rparr>]],
      leadSuit := Some Heart\<rparr>) ! 1) \<and>
   leadSuit ((fresh_state 2 [Some ''A'', Some ''B''] {1} 0)\<lparr>cardsPer := Some 3,
      hands := [[], [\<lparr>suit = Heart, rank = R5\<rparr>, \<lparr>suit = Heart, rank = R9\<rparr>, \<lparr>suit = Spade, rank = R2\<rparr>]],
      leadSuit := Some Heart\<rparr>) = Some Heart \<and>
   \<lparr>suit = Heart, rank = R9\<rparr> \<in> set (hands ((fresh_state 2 [Some ''A'', Some ''B''] {1} 0)\<lparr>cardsPer := Some 3,
      hands := [[], [\<lparr>suit = Heart, rank = R5\<rparr>, \<lparr>suit = Heart, rank = R9\<rparr>, \<lparr>suit = Spade, rank = R2\<rparr>]],
      leadSuit := Some Heart\<rparr>) ! 1) \<and>
   rank_value (rank \<lparr>suit = Heart, rank = R5\<rparr>) \<le> rank_value (rank \<lparr>suit = Heart, rank = R9\<rparr>)"
proof -
  have c: "online_bot_choose_card ((fresh_state 2 [Some ''A'', Some ''B''] {1} 0)\<lparr>cardsPer := Some 3,
      hands := [[], [\<lparr>suit = Heart, rank = R5\<rparr>, \<lparr>suit = Heart, rank = R9\<rparr>, \<lparr>suit = Spade, rank = R2\<rparr>]],
      leadSuit := Some Heart\<rparr>) 1 =
     (Some \<lparr>suit = Heart, rank = R5\<rparr>, hands ((fresh_state 2 [Some ''A'', Some ''B''] {1} 0)\<lparr>cardsPer := Some 3,
      hands := [[], [\<lparr>suit = Heart, rank = R5\<rparr>, \<lparr>suit = Heart, rank = R9\<rparr>, \<lparr>suit = Spade, rank = R2\<rparr>]],
      leadSuit := Some Heart\<rparr>) ! 1)"
    by (simp add: online_bot_choose_card_def fresh_state_def lowest_by_rank_def)
  have l: "leadSuit ((fresh_state 2 [Some ''A'', Some ''B''] {1} 0)\<lparr>cardsPer := Some 3,
      hands := [[], [\<lparr>suit = Heart, rank = R5\<rparr>, \<lparr>suit = Heart, rank = R9\<rparr>, \<lparr>suit = Spade, rank = R2\<rparr>]],
      leadSuit := Some Heart\<rparr>) = Some Heart" by (simp add: fresh_state_def)
  have x: "\<lparr>suit = Heart, rank = R9\<rparr> \<in> set (hands ((fresh_state 2 [Some ''A'', Some ''B''] {1} 0)\<lparr>cardsPer := Some 3,
      hands := [[], [\<lparr>suit = Heart, rank = R5\<rparr>, \<lparr>suit = Heart, rank = R9\<rparr>, \<lparr>suit = Spade, rank = R2\<rparr>]],
      leadSuit := Some Heart\<rparr>) ! 1)" by (simp add: fresh_state_def)
  show ?thesis
    using bot_choose_card_lowest_follow [OF c l x] c l x by simp
qed

theorem bot_choose_bid_bounds_witness:
  "online_bot_choose_bid ((fresh_state 2 [Some ''A'', Some ''B''] {1} 0)\<lparr>cardsPer := Some 3,
      hands := [[], [\<lparr>suit = Heart, rank = R5\<rparr>, \<lparr>suit = Heart, rank = R9\<rparr>, \<lparr>suit = Spade, rank = R2\<rparr>]],
      leadSuit := Some Heart\<rparr>) = Some (((fresh_state 2 [Some ''A'', Some ''B''] {1} 0)\<lparr>cardsPer := Some 3,
      hands := [[], [\<lparr>suit = Heart, rank = R5\<rparr>, \<lparr>suit = Heart, rank = R9\<rparr>, \<lparr>suit = Spade, rank = R2\<rparr>]],
      leadSuit := Some Heart\<rparr>)\<lparr>bids := [None, Some 1]\<rparr>) \<and>
   length (bids ((fresh_state 2 [Some ''A'', Some ''B''] {1} 0)\<lparr>cardsPer := Some 3,
      hands := [[], [\<lparr>suit = Heart, rank = R5\<rparr>, \<lparr>suit = Heart, rank = R9\<rparr>, \<lparr>suit = Spade, rank = R2\<rparr>]],
      leadSuit := Some Heart\<rparr>)) = n ((fresh_state 2 [Some ''A'', Some ''B''] {1} 0)\<lparr>cardsPer := Some 3,
      hands := [[], [\<lparr>suit = Heart, rank = R5\<rparr>, \<lparr>suit = Heart, rank = R9\<rparr>, \<lparr>suit = Spade, rank = R2\<rparr>]],
      leadSuit := Some Heart\<rparr>) \<and> (1::nat) < n ((fresh_state 2 [Some ''A'', Some ''B''] {1} 0)\<lparr>cardsPer := Some 3,
      hands := [[], [\<lparr>suit = Heart, rank = R5\<rparr>, \<lparr>suit = Heart, rank = R9\<rparr>, \<lparr>suit = Spade, rank = R2\<rparr>]],
      leadSuit := Some Heart\<rparr>) \<and>
   bids (((fresh_state 2 [Some ''A'', Some ''B''] {1} 0)\<lparr>cardsPer := Some 3,
      hands := [[], [\<lparr>suit = Heart, rank = R5\<rparr>, \<lparr>suit = Heart, rank = R9\<rparr>, \<lparr>suit = Spade, rank = R2\<rparr>]],
      leadSuit := Some Heart\<rparr>)\<lparr>bids := [None, Some 1]\<rparr>) ! 1 = Some 1 \<and> (1::nat) \<le> 3"
proof -
  have b: "online_bot_choose_bid ((fresh_state 2 [Some ''A'', Some ''B''] {1} 0)\<lparr>cardsPer := Some 3,
      hands := [[], [\<lparr>suit = Heart, rank = R5\<rparr>, \<lparr>suit = Heart, rank = R9\<rparr>, \<lparr>suit = Spade, rank = R2\<rparr>]],
      leadSuit := Some Heart\<rparr>) = Some (((fresh_state 2 [Some ''A'', Some ''B''] {1} 0)\<lparr>cardsPer := Some 3,
      hands := [[], [\<lparr>suit = Heart, rank = R5\<rparr>, \<lparr>suit = Heart, rank = R9\<rparr>, \<lparr>suit = Spade, rank = R2\<rparr>]],
      leadSuit := Some Heart\<rparr>)\<lparr>bids := [None, Some 1]\<rparr>)"
    by (simp add: online_bot_choose_bid_def max_bid_of_def fresh_state_def seats_def
        bot_bid_step_def bot_bid_for_def py_round_half_even_def numeral_2_eq_2)
  have l: "length (bids ((fresh_state 2 [Some ''A'', Some ''B''] {1} 0)\<lparr>cardsPer := Some 3,
      hands := [[], [\<lparr>suit = Heart, rank = R5\<rparr>, \<lparr>suit = Heart, rank = R9\<rparr>, \<lparr>suit = Spade, rank = R2\<rparr>]],
      leadSuit := Some Heart\<rparr>)) = n ((fresh_state 2 [Some ''A'', Some ''B''] {1} 0)\<lparr>cardsPer := Some 3,
      hands := [[], [\<lparr>suit = Heart, rank = R5\<rparr>, \<lparr>suit = Heart, rank = R9\<rparr>, \<lparr>suit = Spade, rank = R2\<rparr>]],
      leadSuit := Some Heart\<rparr>)" by (simp add: fresh_state_def)
  have i: "(1::nat) < n ((fresh_state 2 [Some ''A'', Some ''B''] {1} 0)\<lparr>cardsPer := Some 3,
      hands := [[], [\<lparr>suit = Heart, rank = R5\<rparr>, \<lparr>suit = Heart, rank = R9\<rparr>, \<lparr>suit = Spade, rank = R2\<rparr>]],
      leadSuit := Some Heart\<rparr>)" by (simp add: fresh_state_def)
  show ?thesis
    using bot_choose_bid_bounds [OF b l i] b l i by simp
qed

end
