(* ===== verification/Trick.thy ===== *)
theory Trick
  imports Cards
begin

text \<open>
  Trick resolution and scoring (\<open>src/app.py\<close>): the loop of
  \<open>_online_internal_play_card\<close> that picks the winner of a full table (seeded with the
  leader's card, every seat compared in seat order against the best so far, replaced
  when strictly greater), and \<open>_online_points_for_round\<close>.  The loop is a \<open>fold\<close>
  over \<open>range(n)\<close>.  The lemmas show that the winner holds a card no other card on
  the table beats, that a trump on the table always wins, that the winner is the unique
  maximum of \<open>trick_key\<close> once the lead suit is the leader's suit and the cards are
  distinct (the abstract specification "highest trump, else highest card of the lead
  suit"), and the two branches of the scoring formula.
\<close>

definition resolve_step :: "card list \<Rightarrow> suit option \<Rightarrow> nat \<Rightarrow> nat \<times> card \<Rightarrow> nat \<times> card" where
  "resolve_step table lead i wb =
     (let c = table ! i in if online_compare_cards c (snd wb) lead > 0 then (i, c) else wb)"

definition resolve_trick :: "card list \<Rightarrow> suit option \<Rightarrow> seat \<Rightarrow> seat" where
  "resolve_trick table lead leader =
     fst (fold (resolve_step table lead) [0..<length table] (leader, table ! leader))"

definition online_points_for_round :: "int \<Rightarrow> int \<Rightarrow> int" where
  "online_points_for_round bid taken = (if bid = taken then 10 + bid else - \<bar>taken - bid\<bar>)"

text \<open>
  The loop invariant: the current best is the card of the current winner, and no card
  of the seats visited so far has a greater key.
\<close>

definition resolve_inv :: "card list \<Rightarrow> suit option \<Rightarrow> nat list \<Rightarrow> nat \<times> card \<Rightarrow> bool" where
  "resolve_inv table lead seen wb \<longleftrightarrow>
     fst wb < length table \<and> snd wb = table ! fst wb \<and>
     (\<forall>i \<in> set seen. trick_key lead (table ! i) \<le> trick_key lead (snd wb))"

subsection \<open>The resolution loop\<close>

lemma compare_pos_iff: "online_compare_cards a b lead > 0 \<longleftrightarrow> trick_key lead b < trick_key lead a"
  by (simp add: online_compare_cards_key py_cmp_def)

lemma compare_nonpos_iff: "online_compare_cards a b lead \<le> 0 \<longleftrightarrow> trick_key lead a \<le> trick_key lead b"
  by (simp add: online_compare_cards_key py_cmp_def)

lemma resolve_fold_inv:
  assumes "resolve_inv table lead seen wb" and "set ixs \<subseteq> {..<length table}"
  shows "resolve_inv table lead (seen @ ixs) (fold (resolve_step table lead) ixs wb)"
  using assms
proof (induction ixs arbitrary: seen wb)
  case Nil
  then show ?case by simp
next
  case (Cons i ixs)
  have "resolve_inv table lead (seen @ [i]) (resolve_step table lead i wb)"
    using Cons.prems
    by (auto simp: resolve_inv_def resolve_step_def Let_def compare_pos_iff)
  with Cons.prems Cons.IH [of "seen @ [i]"] show ?case by simp
qed

lemma resolve_trick_props:
  assumes "leader < length table"
  shows "resolve_trick table lead leader < length table \<and>
         (\<forall>i < length table. trick_key lead (table ! i) \<le>
            trick_key lead (table ! resolve_trick table lead leader))"
proof -
  let ?r = "fold (resolve_step table lead) [0..<length table] (leader, table ! leader)"
  have "resolve_inv table lead [] (leader, table ! leader)"
    using assms by (simp add: resolve_inv_def)
  then have "resolve_inv table lead ([] @ [0..<length table]) ?r"
    by (rule resolve_fold_inv) auto
  then show ?thesis
    by (auto simp: resolve_inv_def resolve_trick_def)
qed

lemma resolve_trick_less:
  "leader < length table \<Longrightarrow> resolve_trick table lead leader < length table"
  using resolve_trick_props by blast

lemma resolve_trick_key_max:
  "leader < length table \<Longrightarrow> i < length table \<Longrightarrow>
     trick_key lead (table ! i) \<le> trick_key lead (table ! resolve_trick table lead leader)"
  using resolve_trick_props by blast

subsection \<open>Keys of distinct cards\<close>

lemma trick_key_eq_high_class:
  assumes "trick_key lead a = trick_key lead b" and "0 < trick_class lead a"
  shows "a = b"
proof -
  have "trick_class lead a = trick_class lead b \<and> rank_value (rank a) = rank_value (rank b)"
    using assms(1) trick_key_less_iff [of lead a b] trick_key_less_iff [of lead b a]
    by (metis nat_neq_iff)
  then have "suit a = suit b" and "rank a = rank b"
    using assms(2) by (auto simp: trick_class_def rank_value_inj split: if_splits)
  then show ?thesis by simp
qed

lemma trick_class_lead: "lead = Some (suit c) \<Longrightarrow> 0 < trick_class lead c"
  by (simp add: trick_class_def)

lemma trick_key_trump_ge: "suit c = Spade \<Longrightarrow> 32 \<le> trick_key lead c"
  using rank_value_bounds [of "rank c"] by (simp add: trick_key_def trick_class_def)

lemma trick_key_non_trump_le: "suit c \<noteq> Spade \<Longrightarrow> trick_key lead c \<le> 29"
  using rank_value_bounds [of "rank c"] by (simp add: trick_key_def trick_class_def)

lemma trick_key_class_pos: "0 < trick_class lead c \<Longrightarrow> 17 \<le> trick_key lead c"
  using rank_value_bounds [of "rank c"] by (simp add: trick_key_def)

lemma trick_class_pos_of_key: "17 \<le> trick_key lead c \<Longrightarrow> 0 < trick_class lead c"
  using rank_value_bounds [of "rank c"] by (auto simp: trick_key_def)

subsection \<open>Properties of the trick resolution\<close>

text \<open>
  C1: the seat that wins a full trick holds a card that no other card on the
  table beats under \<open>_online_compare_cards\<close>, and it is a seat of the table.
\<close>

theorem resolve_trick_winner_unbeaten:
  assumes "leader < length table"
  shows "resolve_trick table lead leader < length table \<and>
         (\<forall>i < length table.
            online_compare_cards (table ! i) (table ! resolve_trick table lead leader) lead \<le> 0)"
  using resolve_trick_props [OF assms] by (simp add: compare_nonpos_iff)

text \<open>
  C2: a trump on the table always wins the trick, whatever its rank and whatever
  the lead suit: the winning card is a spade.
\<close>

theorem resolve_trick_trump_wins:
  assumes "leader < length table" and "\<exists>c \<in> set table. suit c = Spade"
  shows "suit (table ! resolve_trick table lead leader) = Spade"
proof -
  from assms(2) obtain i where i: "i < length table" "suit (table ! i) = Spade"
    by (auto simp: in_set_conv_nth)
  have "32 \<le> trick_key lead (table ! resolve_trick table lead leader)"
    using trick_key_trump_ge [OF i(2), where lead = lead]
      resolve_trick_key_max [OF assms(1) i(1), where lead = lead] by linarith
  then show ?thesis
    using trick_key_non_trump_le [of "table ! resolve_trick table lead leader" lead] by linarith
qed

text \<open>
  C3: refinement of the loop by its abstract specification.  When the lead suit
  is the suit of the leader's card (as it is after the leader opens the trick) and the
  cards on the table are distinct, the winner is the one seat whose card has the
  greatest \<open>trick_key\<close>: the highest trump if there is one, else the highest card of
  the lead suit.
\<close>

theorem resolve_trick_unique_max:
  assumes "leader < length table" and "lead = Some (suit (table ! leader))"
    and "distinct table"
  shows "\<forall>i < length table. i \<noteq> resolve_trick table lead leader \<longrightarrow>
           trick_key lead (table ! i) < trick_key lead (table ! resolve_trick table lead leader)"
proof (intro allI impI)
  fix i assume i: "i < length table" "i \<noteq> resolve_trick table lead leader"
  let ?w = "resolve_trick table lead leader"
  have w: "?w < length table"
    using resolve_trick_less [OF assms(1)] .
  have "17 \<le> trick_key lead (table ! leader)"
    using trick_key_class_pos [OF trick_class_lead [OF assms(2)]] .
  then have "0 < trick_class lead (table ! ?w)"
    using resolve_trick_key_max [OF assms(1) assms(1)] trick_class_pos_of_key by (meson order.trans)
  moreover have "table ! i \<noteq> table ! ?w"
    using i w assms(3) by (simp add: nth_eq_iff_index_eq)
  ultimately have "trick_key lead (table ! i) \<noteq> trick_key lead (table ! ?w)"
    using trick_key_eq_high_class by metis
  then show "trick_key lead (table ! i) < trick_key lead (table ! ?w)"
    using resolve_trick_key_max [OF assms(1) i(1), where lead = lead] by simp
qed

text \<open>
  The example of the specification: lead suit hearts, seats 0 to 3 play
  7 of hearts, 2 of spades, queen of hearts, 5 of hearts; the only trump, seat 1, wins.
\<close>

theorem resolve_trick_spec_example:
  "resolve_trick [\<lparr>suit = Heart, rank = R7\<rparr>, \<lparr>suit = Spade, rank = R2\<rparr>,
                  \<lparr>suit = Heart, rank = RQ\<rparr>, \<lparr>suit = Heart, rank = R5\<rparr>] (Some Heart) 0 = 1"
  by (simp add: resolve_trick_def resolve_step_def online_compare_cards_def py_cmp_def
      upt_conv_Cons)

text \<open>
  C5: scoring of a round: a seat that took exactly its bid scores \<open>10 + bid\<close>, which
  is positive; any other seat loses the distance between tricks taken and bid, so its
  score is negative.
\<close>

theorem points_for_round_exact_iff:
  assumes "0 \<le> bid"
  shows "(0 < online_points_for_round bid taken \<longleftrightarrow> bid = taken) \<and>
         (bid = taken \<longrightarrow> online_points_for_round bid taken = 10 + bid) \<and>
         (bid \<noteq> taken \<longrightarrow> online_points_for_round bid taken = - \<bar>taken - bid\<bar>)"
  using assms by (auto simp: online_points_for_round_def)

text \<open>The examples of the specification: bid 3, taken 3 scores 13; bid 3, taken 5 scores -2.\<close>

theorem points_for_round_exact_iff_witness:
  "online_points_for_round 3 3 = 13 \<and> online_points_for_round 3 5 = -2 \<and>
   (0 < online_points_for_round 3 5 \<longleftrightarrow> (3::int) = 5)"
proof -
  have "(0 < online_points_for_round 3 5 \<longleftrightarrow> (3::int) = 5)"
    using points_for_round_exact_iff [of 3 5] by simp
  then show ?thesis by (simp add: online_points_for_round_def)
qed

text \<open>Witnesses: the three theorems above at the table of the specification's example.\<close>

theorem resolve_trick_winner_unbeaten_witness:
  "(0::nat) < length [\<lparr>suit = Heart, rank = R7\<rparr>, \<lparr>suit = Spade, rank = R2\<rparr>,
     \<lparr>suit = Heart, rank = RQ\<rparr>, \<lparr>suit = Heart, rank = R5\<rparr>] \<and>
   online_compare_cards ([\<lparr>suit = Heart, rank = R7\<rparr>, \<lparr>suit = Spade, rank = R2\<rparr>,
     \<lparr>suit = Heart, rank = RQ\<rparr>, \<lparr>suit = Heart, rank = R5\<rparr>] ! 2) ([\<lparr>suit = Heart, rank = R7\<rparr>, \<lparr>suit = Spade, rank = R2\<rparr>,
     \<lparr>suit = Heart, rank = RQ\<rparr>, \<lparr>suit = Heart, rank = R5\<rparr>] ! resolve_trick [\<lparr>suit = Heart, rank = R7\<rparr>, \<lparr>suit = Spade, rank = R2\<rparr>,
     \<lparr>suit = Heart, rank = RQ\<rparr>, \<lparr>suit = Heart, rank = R5\<rparr>] (Some Heart) 0) (Some Heart) \<le> 0"
  using resolve_trick_winner_unbeaten [of 0 "[\<lparr>suit = Heart, rank = R7\<rparr>, \<lparr>suit = Spade, rank = R2\<rparr>,
     \<lparr>suit = Heart, rank = RQ\<rparr>, \<lparr>suit = Heart, rank = R5\<rparr>]" "Some Heart"] by (auto dest: spec [where x = 2])

theorem resolve_trick_trump_wins_witness:
  "(0::nat) < length [\<lparr>suit = Heart, rank = R7\<rparr>, \<lparr>suit = Spade, rank = R2\<rparr>,
     \<lparr>suit = Heart, rank = RQ\<rparr>, \<lparr>suit = Heart, rank = R5\<rparr>] \<and> (\<exists>c \<in> set [\<lparr>suit = Heart, rank = R7\<rparr>, \<lparr>suit = Spade, rank = R2\<rparr>,
     \<lparr>suit = Heart, rank = RQ\<rparr>, \<lparr>suit = Heart, rank = R5\<rparr>]. suit c = Spade) \<and>
   suit ([\<lparr>suit = Heart, rank = R7\<rparr>, \<lparr>suit = Spade, rank = R2\<rparr>,
     \<lparr>suit = Heart, rank = RQ\<rparr>, \<lparr>suit = Heart, rank = R5\<rparr>] ! resolve_trick [\<lparr>suit = Heart, rank = R7\<rparr>, \<lparr>suit = Spade, rank = R2\<rparr>,
     \<lparr>suit = Heart, rank = RQ\<rparr>, \<lparr>suit = Heart, rank = R5\<rparr>] (Some Heart) 0) = Spade"
  using resolve_trick_trump_wins [of 0 "[\<lparr>suit = Heart, rank = R7\<rparr>, \<lparr>suit = Spade, rank = R2\<rparr>,
     \<lparr>suit = Heart, rank = RQ\<rparr>, \<lparr>suit = Heart, rank = R5\<rparr>]" "Some Heart"] by simp

theorem resolve_trick_unique_max_witness:
  "(0::nat) < length [\<lparr>suit = Heart, rank = R7\<rparr>, \<lparr>suit = Spade, rank = R2\<rparr>,
     \<lparr>suit = Heart, rank = RQ\<rparr>, \<lparr>suit = Heart, rank = R5\<rparr>] \<and> Some Heart = Some (suit ([\<lparr>suit = Heart, rank = R7\<rparr>, \<lparr>suit = Spade, rank = R2\<rparr>,
     \<lparr>suit = Heart, rank = RQ\<rparr>, \<lparr>suit = Heart, rank = R5\<rparr>] ! 0)) \<and> distinct [\<lparr>suit = Heart, rank = R7\<rparr>, \<lparr>suit = Spade, rank = R2\<rparr>,
     \<lparr>suit = Heart, rank = RQ\<rparr>, \<lparr>suit = Heart, rank = R5\<rparr>] \<and>
   trick_key (Some Heart) ([\<lparr>suit = Heart, rank = R7\<rparr>, \<lparr>suit = Spade, rank = R2\<rparr>,
     \<lparr>suit = Heart, rank = RQ\<rparr>, \<lparr>suit = Heart, rank = R5\<rparr>] ! 2) <
     trick_key (Some Heart) ([\<lparr>suit = Heart, rank = R7\<rparr>, \<lparr>suit = Spade, rank = R2\<rparr>,
     \<lparr>suit = Heart, rank = RQ\<rparr>, \<lparr>suit = Heart, rank = R5\<rparr>] ! resolve_trick [\<lparr>suit = Heart, rank = R7\<rparr>, \<lparr>suit = Spade, rank = R2\<rparr>,
     \<lparr>suit = Heart, rank = RQ\<rparr>, \<lparr>suit = Heart, rank = R5\<rparr>] (Some Heart) 0)"
proof -
  have "resolve_trick [\<lparr>suit = Heart, rank = R7\<rparr>, \<lparr>suit = Spade, rank = R2\<rparr>,
     \<lparr>suit = Heart, rank = RQ\<rparr>, \<lparr>suit = Heart, rank = R5\<rparr>] (Some Heart) 0 \<noteq> 2"
    by (simp add: resolve_trick_def resolve_step_def online_compare_cards_def py_cmp_def
        upt_conv_Cons)
  then show ?thesis
    using resolve_trick_unique_max [of 0 "[\<lparr>suit = Heart, rank = R7\<rparr>, \<lparr>suit = Spade, rank = R2\<rparr>,
     \<lparr>suit = Heart, rank = RQ\<rparr>, \<lparr>suit = Heart, rank = R5\<rparr>]" "Some Heart"] by (auto dest: spec [where x = 2])
qed

end
