(* ===== verification/Game.thy ===== *)
theory Game
  imports Bot Trick
begin

text \<open>
  The game state machine of one room (\<open>src/app.py\<close>): every function that mutates
  \<open>room["state"]\<close>, as a function from the time of the call (\<open>time.time()\<close>, one
  reading per call), its arguments and the state to the new state and the effects.
  The socket handlers \<open>online_set_bid\<close>, \<open>online_play_card\<close> and
  \<open>online_next\<close> appear here from the point where the room has been found; the
  membership lookup \<open>room["members"].get(request.sid)\<close> is their argument
  \<open>seat_opt\<close>, and \<open>Room\<close> supplies it.  A background task appears from the point
  where it has slept and found its room again (\<open>System\<close> does the lookup).

  Shared steps of the source are shared definitions here: \<open>maybe_schedule_bot\<close> is
  the repeated tail \<open>if phase == "playing" and turn in botSeats:
  _online_schedule_bot_turn(code)\<close>, \<open>emit_and_schedule\<close> the broadcast followed by
  it, \<open>start_play_if_all_bid\<close> the repeated \<open>if all(b is not None for b in bids)\<close>
  block, \<open>next_trick\<close> the reset that both \<open>online_next\<close> and the automatic
  next-trick task perform.  An exception that escapes ends the computation with the
  effect \<open>Crash\<close> and the state as mutated so far; the background tasks catch
  everything, so there the effect list simply ends.
\<close>

subsection \<open>Scheduling bot turns\<close>

definition online_ensure_bot_watchdog :: "game_state \<Rightarrow> game_state \<times> effect list" where
  "online_ensure_bot_watchdog st =
     (if botWatchdogStarted st then (st, [])
      else (st\<lparr>botWatchdogStarted := True\<rparr>, [Spawn 1000 Watchdog]))"

definition online_schedule_bot_turn :: "time \<Rightarrow> game_state \<Rightarrow> game_state \<times> effect list" where
  "online_schedule_bot_turn now st =
     (let (st1, wd) = online_ensure_bot_watchdog (st\<lparr>botScheduledAt := now, botScheduledTurn := Some (turn st)\<rparr>)
      in (st1, wd @ [Spawn 600 BotTurn]))"

definition maybe_schedule_bot :: "time \<Rightarrow> game_state \<Rightarrow> game_state \<times> effect list" where
  "maybe_schedule_bot now st = (if bot_to_move st then online_schedule_bot_turn now st else (st, []))"

definition emit_and_schedule :: "time \<Rightarrow> game_state \<times> effect list \<Rightarrow> game_state \<times> effect list" where
  "emit_and_schedule now r =
     (let (st, eff) = r in
      if Crash \<in> set eff then (st, eff)
      else let (st', eff') = maybe_schedule_bot now st in (st', eff @ EmitState # eff'))"

definition start_play_if_all_bid :: "time \<Rightarrow> game_state \<Rightarrow> game_state" where
  "start_play_if_all_bid now st =
     (if all_set (bids st) then st\<lparr>phase := Playing, turn := leader st, lastActionAt := now\<rparr> else st)"

subsection \<open>The deal phase\<close>

definition deal_duration :: "nat \<Rightarrow> nat \<Rightarrow> time" where
  "deal_duration cards_per n_players = max 800 (min 8000 (int (cards_per * n_players * 120) + 600))"

definition online_start_deal_phase :: "time \<Rightarrow> card list \<Rightarrow> nat \<Rightarrow> game_state \<Rightarrow> game_state \<times> effect list" where
  "online_start_deal_phase now deck round_index st =
     (case online_deal (n st) round_index deck of
        None \<Rightarrow> (st, [Crash])
      | Some (hs, cp) \<Rightarrow>
          let k = n st; did = dealId st + 1; ld = roundIndex st mod k; dur = deal_duration cp k;
              st' = st\<lparr>hands := hs, cardsPer := Some cp, dealId := did,
                       dealSeq := Some (map (\<lambda>i. i mod k) [0..<cp * k]),
                       leader := ld, turn := ld, leadSuit := None, table := replicate k None,
                       winner := None, bids := replicate k None, tricksRound := replicate k 0,
                       phase := Dealing, lastActionAt := now, dealEndsAt := Some (now + dur)\<rparr>
          in (st', [EmitState, Spawn dur (DealFinish did)]))"

text \<open>The task \<open>_finish\<close> of \<open>_online_start_deal_phase\<close>, fenced by phase and deal id.\<close>

definition online_finish_deal :: "nat \<Rightarrow> time \<Rightarrow> game_state \<Rightarrow> game_state \<times> effect list" where
  "online_finish_deal deal_id now st =
     (if phase st \<noteq> Dealing then (st, [])
      else if dealId st \<noteq> deal_id then (st, [])
      else let st1 = st\<lparr>phase := Bidding, lastActionAt := now\<rparr> in
        case online_bot_choose_bid st1 of
          None \<Rightarrow> (st1, [])
        | Some st2 \<Rightarrow> emit_and_schedule now (start_play_if_all_bid now st2, []))"

subsection \<open>Playing a card\<close>

text \<open>\<open>for _ in range(n): if table[nxt] is None: turn = nxt; break; nxt = (nxt + 1) % n\<close>\<close>

fun advance_turn :: "card option list \<Rightarrow> nat \<Rightarrow> seat \<Rightarrow> nat \<Rightarrow> seat \<Rightarrow> seat" where
  "advance_turn tbl k nxt 0 t = t"
| "advance_turn tbl k nxt (Suc m) t =
     (if tbl ! nxt = None then nxt else advance_turn tbl k ((nxt + 1) mod k) m t)"

definition round_points :: "game_state \<Rightarrow> int list \<times> nat list \<times> int list" where
  "round_points st =
     (let bs = map (\<lambda>b. case b of None \<Rightarrow> 0 | Some x \<Rightarrow> int x) (bids st);
          taken = tricksRound st;
          pts = map (\<lambda>i. online_points_for_round (bs ! i) (int (taken ! i))) [0..<n st]
      in (bs, taken, pts))"

definition finish_round :: "game_state \<Rightarrow> game_state \<times> effect list" where
  "finish_round st =
     (let (bs, taken, pts) = round_points st;
          st1 = st\<lparr>pointsTotal := fold (\<lambda>i ps. ps[i := ps ! i + pts ! i]) [0..<n st] (pointsTotal st)\<rparr>
      in case max_bid_of st1 of
           None \<Rightarrow> (st1, [Crash])
         | Some cp \<Rightarrow>
             (st1\<lparr>history := history st1 @ [\<lparr>hist_round = roundIndex st1 + 1, hist_cardsPer = cp,
                                             hist_bids = bs, hist_taken = taken, hist_points = pts\<rparr>],
                  phase := RoundFinished\<rparr>,
              [Spawn 2000 (AutoNextRound (roundIndex st1))]))"

definition resolve_full_trick :: "time \<Rightarrow> game_state \<Rightarrow> game_state \<times> effect list" where
  "resolve_full_trick now st =
     (let w = resolve_trick (map the (table st)) (leadSuit st) (leader st);
          st1 = st\<lparr>winner := Some w,
                   tricksRound := (tricksRound st)[w := tricksRound st ! w + 1],
                   tricksTotal := (tricksTotal st)[w := tricksTotal st ! w + 1],
                   sweepUntil := Some (now + 4000)\<rparr>
      in if list_all (\<lambda>h. h = []) (hands st1) then finish_round st1
         else (st1\<lparr>phase := BetweenTricks\<rparr>, [Spawn 200 (AutoNextTrick (roundIndex st1))]))"

definition violates_follow_suit :: "game_state \<Rightarrow> card list \<Rightarrow> card \<Rightarrow> bool" where
  "violates_follow_suit st hand played =
     (case leadSuit st of
        None \<Rightarrow> False
      | Some lead \<Rightarrow> (\<exists>c \<in> set hand. suit c = lead) \<and> suit played \<noteq> lead)"

definition online_internal_play_card :: "time \<Rightarrow> seat \<Rightarrow> string \<Rightarrow> game_state \<Rightarrow> game_state \<times> effect list" where
  "online_internal_play_card now seat key st =
     (if phase st \<noteq> Playing then (st, [])
      else if turn st \<noteq> seat then (st, [])
      else let hand = hands st ! seat in
        case first_index (\<lambda>c. online_card_key c = key) hand of
          None \<Rightarrow> (st, [])
        | Some idx \<Rightarrow>
            let played = hand ! idx in
            if violates_follow_suit st hand played then (st, [])
            else
              let st1 = st\<lparr>hands := (hands st)[seat := remove_at idx hand],
                           leadSuit := (case leadSuit st of None \<Rightarrow> Some (suit played) | Some l \<Rightarrow> Some l),
                           table := (table st)[seat := Some played], lastActionAt := now\<rparr>;
                  st2 = st1\<lparr>turn := advance_turn (table st1) (n st1) ((seat + 1) mod n st1) (n st1) (turn st1)\<rparr>
              in emit_and_schedule now (if all_set (table st2) then resolve_full_trick now st2 else (st2, [])))"

text \<open>The handler \<open>online_play_card\<close> once the room is found.\<close>

definition online_play_card :: "seat option \<Rightarrow> string \<Rightarrow> time \<Rightarrow> game_state \<Rightarrow> game_state \<times> effect list" where
  "online_play_card seat_opt key now st =
     (if phase st \<noteq> Playing then (st, [])
      else case seat_opt of
             None \<Rightarrow> (st, [EmitError ErrNotInRoom])
           | Some seat \<Rightarrow>
               if turn st \<noteq> seat then (st, [EmitError ErrNotYourTurn])
               else online_internal_play_card now seat key st)"

text \<open>The bot's move (the task of \<open>_online_schedule_bot_turn\<close>).\<close>

definition online_bot_turn_task :: "time \<Rightarrow> game_state \<Rightarrow> game_state \<times> effect list" where
  "online_bot_turn_task now st =
     (if phase st \<noteq> Playing then (st, [])
      else if turn st \<notin> botSeats st then (st, [])
      else let seat = turn st; (co, hand') = online_bot_choose_card st seat;
               st1 = st\<lparr>hands := (hands st)[seat := hand']\<rparr>
           in case co of
                None \<Rightarrow> (st1, [])
              | Some c \<Rightarrow> online_internal_play_card now seat (online_card_key c) st1)"

subsection \<open>Bidding\<close>

text \<open>
  The handler \<open>online_set_bid\<close> once the room is found; \<open>bid_in\<close> is the result
  of \<open>int(data.get("bid"))\<close>, \<open>None\<close> when that raises (the handler then bids 0).
\<close>

definition online_set_bid :: "seat option \<Rightarrow> int option \<Rightarrow> time \<Rightarrow> game_state \<Rightarrow> game_state \<times> effect list" where
  "online_set_bid seat_opt bid_in now st =
     (if phase st \<noteq> Bidding then (st, [])
      else case seat_opt of
        None \<Rightarrow> (st, [EmitError ErrNotInRoom])
      | Some seat \<Rightarrow>
          if length (bids st) \<le> seat then (st, [Crash])
          else if bids st ! seat \<noteq> None then (st, [EmitError ErrBidAlreadySet])
          else (case max_bid_of st of
            None \<Rightarrow> (st, [Crash])
          | Some max_bid \<Rightarrow>
              let bid = (case bid_in of None \<Rightarrow> 0 | Some b \<Rightarrow> b) in
              if bid < 0 \<or> bid > int max_bid then (st, [EmitError (ErrBidRange max_bid)])
              else emit_and_schedule now
                     (start_play_if_all_bid now (st\<lparr>bids := (bids st)[seat := Some (nat bid)]\<rparr>), [])))"

subsection \<open>Between tricks and rounds\<close>

definition next_trick :: "game_state \<Rightarrow> game_state" where
  "next_trick st =
     (let w = (case winner st of Some w \<Rightarrow> w | None \<Rightarrow> leader st) in
      st\<lparr>leader := w, turn := w, leadSuit := None, table := replicate (n st) None, winner := None,
         sweepUntil := None, phase := Playing\<rparr>)"

definition sweep_active :: "time \<Rightarrow> game_state \<Rightarrow> bool" where
  "sweep_active now st = (case sweepUntil st of None \<Rightarrow> False | Some t \<Rightarrow> t \<noteq> 0 \<and> now < t)"

definition auto_advance_trick :: "time \<Rightarrow> game_state \<Rightarrow> game_state \<times> effect list" where
  "auto_advance_trick now st =
     (if botSeats st = {} then (st, []) else emit_and_schedule now (next_trick st, []))"

text \<open>
  The task of \<open>_online_schedule_auto_next_trick\<close>; its second sleep, until the sweep
  window ends, is the task \<open>AutoNextTrickResume\<close>.
\<close>

definition online_auto_next_trick :: "nat \<Rightarrow> time \<Rightarrow> game_state \<Rightarrow> game_state \<times> effect list" where
  "online_auto_next_trick ri now st =
     (if phase st \<noteq> BetweenTricks then (st, [])
      else if roundIndex st \<noteq> ri then (st, [])
      else if sweep_active now st then (st, [Spawn (the (sweepUntil st) - now) (AutoNextTrickResume ri)])
      else auto_advance_trick now st)"

definition online_auto_next_trick_resume :: "nat \<Rightarrow> time \<Rightarrow> game_state \<Rightarrow> game_state \<times> effect list" where
  "online_auto_next_trick_resume ri now st =
     (if phase st \<noteq> BetweenTricks \<or> roundIndex st \<noteq> ri then (st, [])
      else auto_advance_trick now st)"

text \<open>The task of \<open>_online_schedule_auto_next_round\<close>, with its once-only marker.\<close>

definition online_auto_next_round :: "nat \<Rightarrow> time \<Rightarrow> card list \<Rightarrow> game_state \<Rightarrow> game_state \<times> effect list" where
  "online_auto_next_round ri now deck st =
     (if phase st \<noteq> RoundFinished then (st, [])
      else if roundIndex st \<noteq> ri then (st, [])
      else if autoNextDoneFor st = Some ri then (st, [])
      else let st1 = st\<lparr>autoNextDoneFor := Some ri\<rparr> in
        if 13 \<le> roundIndex st1 then emit_and_schedule now (st1\<lparr>phase := GameFinished\<rparr>, [])
        else let st2 = st1\<lparr>roundIndex := roundIndex st1 + 1\<rparr> in
          online_start_deal_phase now deck (roundIndex st2) st2)"

text \<open>The manual nudge \<open>online_next\<close> once the room is found.\<close>

definition manual_next_round :: "card list \<Rightarrow> game_state \<Rightarrow> game_state option" where
  "manual_next_round deck st =
     (let st1 = st\<lparr>roundIndex := roundIndex st + 1\<rparr> in
      case online_deal (n st1) (roundIndex st1) deck of
        None \<Rightarrow> None
      | Some (hs, _) \<Rightarrow>
          let ld = roundIndex st1 mod n st1 in
          Some (st1\<lparr>hands := hs, leader := ld, turn := ld, leadSuit := None,
                    table := replicate (n st1) None, winner := None, bids := replicate (n st1) None,
                    tricksRound := replicate (n st1) 0, phase := Bidding\<rparr>))"

definition online_next :: "time \<Rightarrow> card list \<Rightarrow> game_state \<Rightarrow> game_state \<times> effect list" where
  "online_next now deck st =
     (if phase st = BetweenTricks \<and> sweep_active now st then (st, [])
      else
        let moved = (if phase st = BetweenTricks then Some (next_trick st)
                     else if phase st = RoundFinished then
                       (if 13 \<le> roundIndex st then Some (st\<lparr>phase := GameFinished\<rparr>)
                        else manual_next_round deck st)
                     else Some st)
        in case moved of
             None \<Rightarrow> (st\<lparr>roundIndex := roundIndex st + 1\<rparr>, [Crash])
           | Some st1 \<Rightarrow>
               (case online_bot_choose_bid st1 of
                  None \<Rightarrow> (st1, [Crash])
                | Some st2 \<Rightarrow> emit_and_schedule now (start_play_if_all_bid now st2, [])))"

subsection \<open>Bot takeover and the watchdog\<close>

definition takeover_name :: "seat \<Rightarrow> string option \<Rightarrow> string" where
  "takeover_name seat prev =
     (let p = (case prev of Some s \<Rightarrow> if s = [] then ''Spiller '' @ show_nat (seat + 1) else s
                          | None \<Rightarrow> ''Spiller '' @ show_nat (seat + 1))
      in ''Computer (overtog '' @ p @ '')'')"

definition online_mark_seat_bot_takeover :: "time \<Rightarrow> seat \<Rightarrow> game_state \<Rightarrow> game_state \<times> effect list" where
  "online_mark_seat_bot_takeover now seat st =
     (if phase st = Lobby then (st, [])
      else if seat \<notin> botSeats st \<and> length (names st) \<le> seat then (st, [Crash])
      else
        let st1 = (if seat \<notin> botSeats st
                   then st\<lparr>names := (names st)[seat := Some (takeover_name seat (names st ! seat))],
                           botSeats := insert seat (botSeats st)\<rparr>
                   else st)
        in if phase st1 = Bidding then
             (case online_bot_choose_bid st1 of
                None \<Rightarrow> (st1, [Crash])
              | Some st2 \<Rightarrow> emit_and_schedule now (start_play_if_all_bid now st2, []))
           else emit_and_schedule now (st1, []))"

text \<open>One iteration of the watchdog loop; \<open>Spawn 1000 Watchdog\<close> is the next iteration.\<close>

definition online_watchdog_tick :: "time \<Rightarrow> game_state \<Rightarrow> game_state \<times> effect list" where
  "online_watchdog_tick now st =
     (if phase st = GameFinished then (st, [])
      else if phase st \<noteq> Playing then (st, [Spawn 1000 Watchdog])
      else if turn st \<notin> botSeats st then (st, [Spawn 1000 Watchdog])
      else
        let last_action = (if lastActionAt st = 0 then now else lastActionAt st) in
        if now - last_action < 2500 then (st, [Spawn 1000 Watchdog])
        else if now - botScheduledAt st < 2000 \<and> botScheduledTurn st = Some (turn st)
        then (st, [Spawn 1000 Watchdog])
        else let (st1, eff) = online_schedule_bot_turn now st in (st1, eff @ [Spawn 1000 Watchdog]))"

subsection \<open>Starting the game\<close>

text \<open>
  The handler \<open>online_start_game\<close> once the room is found, with the room's member
  table \<open>members\<close> (connection to seat).  The name loop
  \<open>for seat in range(n_players)\<close> threads the list of names and the running
  \<open>bot_index\<close>; \<open>if not names[seat]\<close> holds for \<open>None\<close> and the empty string.
\<close>

definition name_step :: "seat set \<Rightarrow> seat \<Rightarrow> string option list \<times> nat \<Rightarrow> string option list \<times> nat" where
  "name_step bot_seats seat r =
     (let (nm, bi) = r in
      if seat \<in> bot_seats then (nm[seat := Some (''Computer '' @ show_nat bi)], bi + 1)
      else if nm ! seat = None \<or> nm ! seat = Some [] then (nm[seat := Some (''Spiller '' @ show_nat (seat + 1))], bi)
      else (nm, bi))"

definition fit_names :: "nat \<Rightarrow> string option list \<Rightarrow> string option list" where
  "fit_names k nm = (if length nm < k then nm @ replicate (k - length nm) None else take k nm)"

definition online_start_game :: "(sid, seat) dict \<Rightarrow> time \<Rightarrow> card list \<Rightarrow> game_state \<Rightarrow> game_state \<times> effect list" where
  "online_start_game members now deck st =
     (if phase st \<noteq> Lobby then (st, [])
      else if length members < 1 then (st, [EmitError ErrNeedHuman])
      else if n st < 2 then (st, [EmitError ErrNeedPlayers])
      else
        let k = n st; bot_seats = {0..<k} - set (dict_values members);
            nm = fst (fold (name_step bot_seats) [0..<k] (fit_names k (names st), 1));
            st1 = st\<lparr>names := nm, botSeats := bot_seats, roundIndex := 0\<rparr>
        in online_start_deal_phase now deck 0 st1)"

subsection \<open>Proof vocabulary\<close>

text \<open>
  \<open>sched_only st st'\<close>: \<open>st'\<close> differs from \<open>st\<close> at most in the scheduler's
  bookkeeping fields.  \<open>play_state\<close>: the state after the mutations of an accepted
  play of the card at position \<open>idx\<close>, before the trick is resolved.
\<close>

definition sched_only :: "game_state \<Rightarrow> game_state \<Rightarrow> bool" where
  "sched_only st st' \<longleftrightarrow>
     (\<exists>a b c. st' = st\<lparr>botScheduledAt := a, botScheduledTurn := b, botWatchdogStarted := c\<rparr>)"

definition play_state :: "time \<Rightarrow> seat \<Rightarrow> nat \<Rightarrow> game_state \<Rightarrow> game_state" where
  "play_state now seat idx st =
     (let hand = hands st ! seat; played = hand ! idx;
          st1 = st\<lparr>hands := (hands st)[seat := remove_at idx hand],
                   leadSuit := (case leadSuit st of None \<Rightarrow> Some (suit played) | Some l \<Rightarrow> Some l),
                   table := (table st)[seat := Some played], lastActionAt := now\<rparr>
      in st1\<lparr>turn := advance_turn (table st1) (n st1) ((seat + 1) mod n st1) (n st1) (turn st1)\<rparr>)"

subsection \<open>Frame lemmas of the scheduling tail\<close>

text \<open>
  Scheduling a bot turn writes only the three bookkeeping fields of the scheduler; the
  broadcast writes nothing.
\<close>

lemma sched_only_refl [simp]: "sched_only st st"
  unfolding sched_only_def
  by (rule exI [of _ "botScheduledAt st"], rule exI [of _ "botScheduledTurn st"],
      rule exI [of _ "botWatchdogStarted st"]) simp

lemma sched_only_intro:
  "sched_only st (st\<lparr>botScheduledAt := a, botScheduledTurn := b, botWatchdogStarted := c\<rparr>)"
  unfolding sched_only_def by blast

lemma online_schedule_bot_turn_sched_only: "sched_only st (fst (online_schedule_bot_turn now st))"
proof (cases "botWatchdogStarted st")
  case True
  then have "fst (online_schedule_bot_turn now st) =
      st\<lparr>botScheduledAt := now, botScheduledTurn := Some (turn st), botWatchdogStarted := botWatchdogStarted st\<rparr>"
    by (simp add: online_schedule_bot_turn_def online_ensure_bot_watchdog_def)
  then show ?thesis by (simp only: sched_only_intro)
next
  case False
  then show ?thesis
    by (simp add: online_schedule_bot_turn_def online_ensure_bot_watchdog_def sched_only_intro)
qed

lemma maybe_schedule_bot_sched_only: "sched_only st (fst (maybe_schedule_bot now st))"
  by (simp add: maybe_schedule_bot_def online_schedule_bot_turn_sched_only)

lemma emit_and_schedule_sched_only: "sched_only st (fst (emit_and_schedule now (st, eff)))"
  by (simp add: emit_and_schedule_def case_prod_beta maybe_schedule_bot_sched_only)

lemma sched_only_fields:
  assumes "sched_only st st'"
  shows "n st' = n st \<and> names st' = names st \<and> botSeats st' = botSeats st \<and>
         roundIndex st' = roundIndex st \<and> leader st' = leader st \<and> turn st' = turn st \<and>
         leadSuit st' = leadSuit st \<and> table st' = table st \<and> winner st' = winner st \<and>
         phase st' = phase st \<and> hands st' = hands st \<and> bids st' = bids st \<and>
         dealId st' = dealId st \<and> dealSeq st' = dealSeq st \<and> cardsPer st' = cardsPer st \<and>
         dealEndsAt st' = dealEndsAt st \<and> tricksRound st' = tricksRound st \<and>
         tricksTotal st' = tricksTotal st \<and> pointsTotal st' = pointsTotal st \<and>
         history st' = history st \<and> autoNextDoneFor st' = autoNextDoneFor st \<and>
         lastActionAt st' = lastActionAt st \<and> sweepUntil st' = sweepUntil st"
  using assms unfolding sched_only_def by auto

lemmas emit_and_schedule_fields = sched_only_fields [OF emit_and_schedule_sched_only]

lemma emit_and_schedule_effects:
  "Crash \<notin> set eff \<Longrightarrow> \<exists>eff'. snd (emit_and_schedule now (st, eff)) = eff @ EmitState # eff' \<and>
     (eff' \<noteq> [] \<longleftrightarrow> bot_to_move st)"
  by (auto simp: emit_and_schedule_def case_prod_beta maybe_schedule_bot_def
      online_schedule_bot_turn_def online_ensure_bot_watchdog_def)

lemma emit_and_schedule_Crash:
  "Crash \<in> set eff \<Longrightarrow> emit_and_schedule now (st, eff) = (st, eff)"
  by (simp add: emit_and_schedule_def)

lemma resolve_full_trick_frame:
  "hands (fst (resolve_full_trick now st)) = hands st \<and> table (fst (resolve_full_trick now st)) = table st \<and>
   leadSuit (fst (resolve_full_trick now st)) = leadSuit st \<and> n (fst (resolve_full_trick now st)) = n st \<and>
   bids (fst (resolve_full_trick now st)) = bids st \<and> leader (fst (resolve_full_trick now st)) = leader st \<and>
   turn (fst (resolve_full_trick now st)) = turn st \<and> botSeats (fst (resolve_full_trick now st)) = botSeats st \<and>
   roundIndex (fst (resolve_full_trick now st)) = roundIndex st \<and> cardsPer (fst (resolve_full_trick now st)) = cardsPer st"
  by (simp add: resolve_full_trick_def finish_round_def Let_def case_prod_beta split: option.splits)

subsection \<open>Playing a card: acceptance and rejection\<close>

lemma first_index_card_key:
  assumes "c \<in> set hand"
  shows "\<exists>idx. first_index (\<lambda>x. online_card_key x = online_card_key c) hand = Some idx \<and>
               idx < length hand \<and> hand ! idx = c"
proof -
  obtain idx where idx: "first_index (\<lambda>x. online_card_key x = online_card_key c) hand = Some idx"
    using assms first_index_None [of "\<lambda>x. online_card_key x = online_card_key c" hand] by fastforce
  then have "idx < length hand" "online_card_key (hand ! idx) = online_card_key c"
    using first_index_Some by fastforce+
  then show ?thesis
    using idx online_card_key_inj_raw by blast
qed

lemma online_internal_play_card_accept:
  assumes "phase st = Playing" and "turn st = seat" and "c \<in> set (hands st ! seat)"
    and "\<not> violates_follow_suit st (hands st ! seat) c"
  shows "\<exists>idx. idx < length (hands st ! seat) \<and> hands st ! seat ! idx = c \<and>
           online_internal_play_card now seat (online_card_key c) st =
             emit_and_schedule now
               (if all_set (table (play_state now seat idx st)) then resolve_full_trick now (play_state now seat idx st)
                else (play_state now seat idx st, []))"
proof -
  obtain idx where idx: "first_index (\<lambda>x. online_card_key x = online_card_key c) (hands st ! seat) = Some idx"
    "idx < length (hands st ! seat)" "hands st ! seat ! idx = c"
    using first_index_card_key [OF assms(3)] by blast
  then show ?thesis
    using assms by (auto simp: online_internal_play_card_def play_state_def Let_def)
qed

lemma online_internal_play_card_reject_suit:
  assumes "c \<in> set (hands st ! seat)" and "violates_follow_suit st (hands st ! seat) c"
  shows "online_internal_play_card now seat (online_card_key c) st = (st, [])"
proof -
  obtain idx where idx: "first_index (\<lambda>x. online_card_key x = online_card_key c) (hands st ! seat) = Some idx"
    "hands st ! seat ! idx = c"
    using first_index_card_key [OF assms(1)] by blast
  then show ?thesis
    using assms(2) by (simp add: online_internal_play_card_def Let_def)
qed

subsection \<open>Properties of card play\<close>

text \<open>
  C14: follow-suit legality.  A seat that holds a card of the established lead
  suit cannot play a card of another suit (trump or discard): the play is ignored and
  the state is unchanged.
\<close>

theorem play_card_follow_suit_enforced:
  assumes "leadSuit st = Some l" and "x \<in> set (hands st ! seat)" and "suit x = l"
    and "c \<in> set (hands st ! seat)" and "suit c \<noteq> l"
  shows "online_internal_play_card now seat (online_card_key c) st = (st, [])"
proof -
  have "violates_follow_suit st (hands st ! seat) c"
    using assms by (auto simp: violates_follow_suit_def)
  then show ?thesis
    using online_internal_play_card_reject_suit [OF assms(4)] by blast
qed

text \<open>
  C15: an accepted play (the seat's turn in phase \<open>playing\<close>, the card in
  its hand, follow suit respected) moves exactly that card from the seat's hand to its
  place on the table, sets the lead suit if it was unset, and leaves the other hands alone.
\<close>

theorem play_card_moves_card:
  assumes "phase st = Playing" and "turn st = seat" and "seat < length (hands st)"
    and "seat < length (table st)" and "c \<in> set (hands st ! seat)"
    and "\<not> violates_follow_suit st (hands st ! seat) c"
  shows "table (fst (online_internal_play_card now seat (online_card_key c) st)) ! seat = Some c \<and>
         mset (hands (fst (online_internal_play_card now seat (online_card_key c) st)) ! seat) =
           mset (hands st ! seat) - {#c#} \<and>
         (\<forall>i. i \<noteq> seat \<longrightarrow> hands (fst (online_internal_play_card now seat (online_card_key c) st)) ! i = hands st ! i) \<and>
         leadSuit (fst (online_internal_play_card now seat (online_card_key c) st)) =
           Some (case leadSuit st of None \<Rightarrow> suit c | Some l \<Rightarrow> l)"
proof -
  obtain idx where idx: "idx < length (hands st ! seat)" "hands st ! seat ! idx = c"
    and eq: "online_internal_play_card now seat (online_card_key c) st =
             emit_and_schedule now
               (if all_set (table (play_state now seat idx st)) then resolve_full_trick now (play_state now seat idx st)
                else (play_state now seat idx st, []))"
    using online_internal_play_card_accept [OF assms(1,2,5,6)] by blast
  let ?p = "play_state now seat idx st"
  let ?r = "if all_set (table ?p) then resolve_full_trick now ?p else (?p, [])"
  obtain r1 e1 where re: "?r = (r1, e1)" by (cases ?r)
  have r: "hands r1 = hands ?p \<and> table r1 = table ?p \<and> leadSuit r1 = leadSuit ?p"
    using resolve_full_trick_frame [of now ?p] re by (auto split: if_splits)
  have out: "fst (online_internal_play_card now seat (online_card_key c) st) = fst (emit_and_schedule now (r1, e1))"
    using eq re by simp
  have p: "table ?p ! seat = Some c \<and> hands ?p ! seat = remove_at idx (hands st ! seat) \<and>
           (\<forall>i. i \<noteq> seat \<longrightarrow> hands ?p ! i = hands st ! i) \<and>
           leadSuit ?p = Some (case leadSuit st of None \<Rightarrow> suit c | Some l \<Rightarrow> l)"
    using assms(3,4) idx by (auto simp: play_state_def Let_def split: option.splits)
  show ?thesis
    unfolding out using emit_and_schedule_fields [where st = r1 and now = now and eff = e1] r p idx mset_remove_at [OF idx(1)]
    by simp
qed

text \<open>
  C16: error paths of the \<open>online_play_card\<close> handler: out of phase it is
  ignored silently; a connection without a seat gets "not in the room", a seat whose
  turn it is not gets "not your turn"; in each case the state is unchanged.
\<close>

theorem online_play_card_errors:
  "(phase st \<noteq> Playing \<longrightarrow> online_play_card seat_opt key now st = (st, [])) \<and>
   (phase st = Playing \<longrightarrow> online_play_card None key now st = (st, [EmitError ErrNotInRoom])) \<and>
   (phase st = Playing \<and> turn st \<noteq> seat \<longrightarrow>
      online_play_card (Some seat) key now st = (st, [EmitError ErrNotYourTurn]))"
  by (simp add: online_play_card_def)

subsection \<open>Properties of bidding\<close>

text \<open>
  C17: a seat may set its bid once per round: a second attempt is rejected with
  "bid already saved" and a bid outside \<open>[0, max_bid]\<close> with the range message; the
  state is unchanged in both cases.  A member seat past the bids list raises
  \<open>IndexError\<close> at \<open>st["bids"][seat]\<close>, with the state unchanged.
\<close>

theorem online_set_bid_rejects:
  assumes "phase st = Bidding"
  shows "(length (bids st) \<le> seat \<longrightarrow> online_set_bid (Some seat) bid_in now st = (st, [Crash])) \<and>
         (seat < length (bids st) \<and> bids st ! seat \<noteq> None \<longrightarrow>
            online_set_bid (Some seat) bid_in now st = (st, [EmitError ErrBidAlreadySet])) \<and>
         (seat < length (bids st) \<and> bids st ! seat = None \<and> max_bid_of st = Some m \<and> bid_in = Some b \<and> (b < 0 \<or> int m < b) \<longrightarrow>
            online_set_bid (Some seat) bid_in now st = (st, [EmitError (ErrBidRange m)]))"
  using assms by (auto simp: online_set_bid_def)

text \<open>
  C18: a legal bid is stored for the seat; the phase becomes \<open>playing\<close>, with
  the leader to move, exactly when it was the last missing bid; the state is broadcast.
\<close>

theorem online_set_bid_accepts:
  assumes "phase st = Bidding" and "seat < length (bids st)" and "bids st ! seat = None"
    and "max_bid_of st = Some m" and "0 \<le> b" and "b \<le> int m"
  shows "bids (fst (online_set_bid (Some seat) (Some b) now st)) = (bids st)[seat := Some (nat b)] \<and>
         (phase (fst (online_set_bid (Some seat) (Some b) now st)) = Playing \<longleftrightarrow>
            all_set ((bids st)[seat := Some (nat b)])) \<and>
         (all_set ((bids st)[seat := Some (nat b)]) \<longrightarrow>
            turn (fst (online_set_bid (Some seat) (Some b) now st)) = leader st) \<and>
         EmitState \<in> set (snd (online_set_bid (Some seat) (Some b) now st))"
proof -
  let ?s = "start_play_if_all_bid now (st\<lparr>bids := (bids st)[seat := Some (nat b)]\<rparr>)"
  have eq: "online_set_bid (Some seat) (Some b) now st = emit_and_schedule now (?s, [])"
    using assms by (simp add: online_set_bid_def)
  obtain eff' where "snd (emit_and_schedule now (?s, [])) = [] @ EmitState # eff'"
    using emit_and_schedule_effects [of "[]" now ?s] by auto
  then show ?thesis
    unfolding eq using emit_and_schedule_fields [where st = ?s and now = now and eff = "[]"] assms(1)
    by (auto simp: start_play_if_all_bid_def)
qed

subsection \<open>Rounds: automatic and manual advance\<close>

lemma online_start_deal_phase_cases:
  "(fst (online_start_deal_phase now deck ri st) = st \<or> phase (fst (online_start_deal_phase now deck ri st)) = Dealing) \<and>
   roundIndex (fst (online_start_deal_phase now deck ri st)) = roundIndex st"
  by (simp add: online_start_deal_phase_def Let_def split: option.splits prod.splits)

lemma online_start_deal_phase_Some:
  assumes "online_deal (n st) ri deck = Some (hs, cp)"
  shows "online_start_deal_phase now deck ri st =
           (st\<lparr>hands := hs, cardsPer := Some cp, dealId := dealId st + 1,
               dealSeq := Some (map (\<lambda>i. i mod n st) [0..<cp * n st]),
               leader := roundIndex st mod n st, turn := roundIndex st mod n st, leadSuit := None,
               table := replicate (n st) None, winner := None, bids := replicate (n st) None,
               tricksRound := replicate (n st) 0, phase := Dealing, lastActionAt := now,
               dealEndsAt := Some (now + deal_duration cp (n st))\<rparr>,
            [EmitState, Spawn (deal_duration cp (n st)) (DealFinish (dealId st + 1))])"
  using assms by (simp add: online_start_deal_phase_def Let_def)

lemma fold_bot_bid_step_all_set: "all_set bs \<Longrightarrow> fold (bot_bid_step st m) ss bs = bs"
proof (induction ss)
  case Nil
  then show ?case by simp
next
  case (Cons s ss)
  have "bot_bid_step st m s bs = bs"
  proof (cases "s < length bs")
    case True
    then have "bs ! s \<noteq> None" using Cons.prems all_set_nth by blast
    then show ?thesis by (simp add: bot_bid_step_def)
  next
    case False
    then show ?thesis by (simp add: bot_bid_step_def list_update_beyond)
  qed
  with Cons show ?case by simp
qed

lemma online_bot_choose_bid_all_set:
  "all_set (bids st) \<Longrightarrow> max_bid_of st \<noteq> None \<Longrightarrow> online_bot_choose_bid st = Some st"
  by (auto simp: online_bot_choose_bid_def fold_bot_bid_step_all_set)

lemma max_bid_of_cardsPer: "cardsPer st = Some c \<Longrightarrow> 0 < c \<Longrightarrow> max_bid_of st = Some c"
  by (simp add: max_bid_of_def)

text \<open>
  C19: idempotence of the automatic round advance.  Firing the
  round-advance task a second time for the same round, after it has fired once, changes
  nothing and has no effect: the round index is never incremented twice and the deal is
  not repeated.
\<close>

theorem online_auto_next_round_idempotent:
  "online_auto_next_round ri t2 d2 (fst (online_auto_next_round ri t1 d1 st)) =
     (fst (online_auto_next_round ri t1 d1 st), [])"
proof (cases "phase st = RoundFinished \<and> roundIndex st = ri \<and> autoNextDoneFor st \<noteq> Some ri")
  case False
  then have "online_auto_next_round ri t1 d1 st = (st, [])"
    by (auto simp: online_auto_next_round_def)
  with False show ?thesis
    by (auto simp: online_auto_next_round_def)
next
  case True
  let ?st1 = "st\<lparr>autoNextDoneFor := Some ri\<rparr>"
  show ?thesis
  proof (cases "13 \<le> ri")
    case True
    let ?r = "emit_and_schedule t1 (?st1\<lparr>phase := GameFinished\<rparr>, [])"
    have "online_auto_next_round ri t1 d1 st = ?r"
      using \<open>phase st = RoundFinished \<and> roundIndex st = ri \<and> autoNextDoneFor st \<noteq> Some ri\<close> True
      by (simp add: online_auto_next_round_def)
    moreover have "phase (fst ?r) = GameFinished"
      using emit_and_schedule_fields [where st = "?st1\<lparr>phase := GameFinished\<rparr>" and now = t1 and eff = "[]"]
      by simp
    ultimately show ?thesis
      by (simp add: online_auto_next_round_def)
  next
    case False
    let ?st2 = "?st1\<lparr>roundIndex := ri + 1\<rparr>"
    have "online_auto_next_round ri t1 d1 st = online_start_deal_phase t1 d1 (ri + 1) ?st2"
      using \<open>phase st = RoundFinished \<and> roundIndex st = ri \<and> autoNextDoneFor st \<noteq> Some ri\<close> False
      by (simp add: online_auto_next_round_def)
    moreover have "roundIndex (fst (online_start_deal_phase t1 d1 (ri + 1) ?st2)) = ri + 1"
      using online_start_deal_phase_cases [of t1 d1 "ri + 1" ?st2] by simp
    ultimately show ?thesis
      by (simp add: online_auto_next_round_def)
  qed
qed

text \<open>
  C20: the automatic round advance of a finished round: after the last
  round (index 13) the game is finished; otherwise the round index is incremented and the
  next round is dealt (phase \<open>dealing\<close>, \<open>cardsPer\<close> from the schedule, the
  deal-finish task armed with the new deal id).
\<close>

theorem online_auto_next_round_advance:
  assumes "phase st = RoundFinished" and "roundIndex st = ri" and "autoNextDoneFor st \<noteq> Some ri"
  shows "(13 \<le> ri \<longrightarrow> phase (fst (online_auto_next_round ri now deck st)) = GameFinished \<and>
                      roundIndex (fst (online_auto_next_round ri now deck st)) = ri) \<and>
         (ri < 13 \<longrightarrow> phase (fst (online_auto_next_round ri now deck st)) = Dealing \<and>
                     roundIndex (fst (online_auto_next_round ri now deck st)) = ri + 1 \<and>
                     cardsPer (fst (online_auto_next_round ri now deck st)) =
                       Some (cards_per_for (online_round_cards ! (ri + 1)) (n st)) \<and>
                     (\<exists>d. Spawn d (DealFinish (dealId st + 1)) \<in> set (snd (online_auto_next_round ri now deck st))))"
proof (intro conjI impI)
  assume ri: "13 \<le> ri"
  let ?s = "st\<lparr>autoNextDoneFor := Some ri, phase := GameFinished\<rparr>"
  have "online_auto_next_round ri now deck st = emit_and_schedule now (?s, [])"
    using assms ri by (simp add: online_auto_next_round_def)
  then show "phase (fst (online_auto_next_round ri now deck st)) = GameFinished"
    and "roundIndex (fst (online_auto_next_round ri now deck st)) = ri"
    using emit_and_schedule_fields [where st = ?s and now = now and eff = "[]"] assms(2) by simp_all
next
  assume ri: "ri < 13"
  let ?s = "st\<lparr>autoNextDoneFor := Some ri, roundIndex := ri + 1\<rparr>"
  let ?cp = "cards_per_for (online_round_cards ! (ri + 1)) (n st)"
  obtain hs where d: "online_deal (n ?s) (ri + 1) deck = Some (hs, ?cp)"
    using ri by (simp add: online_deal_def online_round_cards_def Let_def)
  have eq: "online_auto_next_round ri now deck st = online_start_deal_phase now deck (ri + 1) ?s"
    using assms ri by (simp add: online_auto_next_round_def)
  show "phase (fst (online_auto_next_round ri now deck st)) = Dealing"
    and "roundIndex (fst (online_auto_next_round ri now deck st)) = ri + 1"
    and "cardsPer (fst (online_auto_next_round ri now deck st)) = Some ?cp"
    and "\<exists>d. Spawn d (DealFinish (dealId st + 1)) \<in> set (snd (online_auto_next_round ri now deck st))"
    unfolding eq online_start_deal_phase_Some [OF d] by auto
qed

lemma online_next_unchanged_phase:
  assumes "phase st \<noteq> BetweenTricks" and "phase st \<noteq> RoundFinished"
    and "all_set (bids st)" and "cardsPer st = Some c" and "0 < c"
  shows "online_next now deck st = emit_and_schedule now (start_play_if_all_bid now st, [])"
proof -
  have "online_bot_choose_bid st = Some st"
    using online_bot_choose_bid_all_set [OF assms(3)] max_bid_of_cardsPer [OF assms(4,5)] by simp
  then show ?thesis
    using assms(1,2) by (simp add: online_next_def)
qed

text \<open>
  C21: the manual \<open>online_next\<close> does not respect the end of the game.  Sent
  when the game is finished, or when the last round (index 13) has just finished, it
  puts the room back into phase \<open>playing\<close> (all bids of the last round are still set),
  with the leader to move and no cards left: \<open>game_finished\<close> is not terminal and is
  never reached through a manual advance.
\<close>

theorem online_next_reopens_play:
  assumes "phase st = GameFinished \<or> (phase st = RoundFinished \<and> 13 \<le> roundIndex st)"
    and "all_set (bids st)" and "cardsPer st = Some c" and "0 < c"
  shows "phase (fst (online_next now deck st)) = Playing \<and> turn (fst (online_next now deck st)) = leader st"
proof (cases "phase st = GameFinished")
  case True
  have "online_next now deck st = emit_and_schedule now (start_play_if_all_bid now st, [])"
    using online_next_unchanged_phase [OF _ _ assms(2-4)] True by simp
  then show ?thesis
    using emit_and_schedule_fields [where st = "start_play_if_all_bid now st" and now = now and eff = "[]"]
      assms(2) by (simp add: start_play_if_all_bid_def)
next
  case False
  then have rf: "phase st = RoundFinished" "13 \<le> roundIndex st" using assms(1) by auto
  let ?g = "st\<lparr>phase := GameFinished\<rparr>"
  have "online_bot_choose_bid ?g = Some ?g"
    using online_bot_choose_bid_all_set [of ?g] max_bid_of_cardsPer [of ?g c] assms(2-4) by simp
  then have "online_next now deck st = emit_and_schedule now (start_play_if_all_bid now ?g, [])"
    using rf by (simp add: online_next_def)
  then show ?thesis
    using emit_and_schedule_fields [where st = "start_play_if_all_bid now ?g" and now = now and eff = "[]"]
      assms(2) by (simp add: start_play_if_all_bid_def)
qed

text \<open>
  \<open>online_next\<close> sent while a trick is being played (phase
  \<open>playing\<close>, all bids set) keeps the cards on the table and the hands but hands the
  turn back to the leader of the trick, who may already have played.
\<close>

theorem online_next_mid_trick_resets_turn:
  assumes "phase st = Playing" and "all_set (bids st)" and "cardsPer st = Some c" and "0 < c"
  shows "phase (fst (online_next now deck st)) = Playing \<and> turn (fst (online_next now deck st)) = leader st \<and>
         table (fst (online_next now deck st)) = table st \<and> hands (fst (online_next now deck st)) = hands st"
proof -
  have "online_next now deck st = emit_and_schedule now (start_play_if_all_bid now st, [])"
    using online_next_unchanged_phase [OF _ _ assms(2-4)] assms(1) by simp
  then show ?thesis
    using emit_and_schedule_fields [where st = "start_play_if_all_bid now st" and now = now and eff = "[]"]
      assms(1,2) by (simp add: start_play_if_all_bid_def)
qed

text \<open>
  C23: the manual advance to the next round deals the new hands but
  does not update \<open>cardsPer\<close> (nor the deal id): the recorded number of cards per seat
  stays the previous round's, while the hands hold the new round's count.  Bids are then
  checked against the stale value and the round's history records it.
\<close>

theorem online_next_stale_cards_per:
  assumes "phase st = RoundFinished" and "roundIndex st < 13"
    and "online_deal (n st) (roundIndex st + 1) deck = Some (hs, cp)"
    and "cardsPer st = Some c" and "0 < c"
  shows "hands (fst (online_next now deck st)) = hs \<and> cardsPer (fst (online_next now deck st)) = Some c \<and>
         dealId (fst (online_next now deck st)) = dealId st \<and>
         roundIndex (fst (online_next now deck st)) = roundIndex st + 1"
proof -
  let ?m = "st\<lparr>roundIndex := roundIndex st + 1, hands := hs,
              leader := (roundIndex st + 1) mod n st, turn := (roundIndex st + 1) mod n st,
              leadSuit := None, table := replicate (n st) None, winner := None,
              bids := replicate (n st) None, tricksRound := replicate (n st) 0, phase := Bidding\<rparr>"
  have m: "manual_next_round deck st = Some ?m"
    using assms(3) by (simp add: manual_next_round_def Let_def)
  obtain st2 where b: "online_bot_choose_bid ?m = Some st2"
    using assms(4,5) by (simp add: online_bot_choose_bid_def max_bid_of_def)
  have st2: "st2 = ?m\<lparr>bids := bids st2\<rparr>"
    using online_bot_choose_bid_other_fields [OF b] .
  have eq: "online_next now deck st = emit_and_schedule now (start_play_if_all_bid now st2, [])"
    using assms(1,2) m b by (simp add: online_next_def)
  have "hands st2 = hs" by (subst st2) simp
  moreover have "cardsPer st2 = Some c" using assms(4) by (subst st2) simp
  moreover have "dealId st2 = dealId st" by (subst st2) simp
  moreover have "roundIndex st2 = roundIndex st + 1" by (subst st2) simp
  ultimately have "hands st2 = hs \<and> cardsPer st2 = Some c \<and> dealId st2 = dealId st \<and> roundIndex st2 = roundIndex st + 1"
    by blast
  then show ?thesis
    unfolding eq
    using emit_and_schedule_fields [where st = "start_play_if_all_bid now st2" and now = now and eff = "[]"]
    by (simp add: start_play_if_all_bid_def)
qed

subsection \<open>Witnesses\<close>

text \<open>
  Witnesses of the theorems above, in a two-seat room (seat 1 a bot): seat 0 holds the
  5 of hearts and the 2 of spades, seat 1 the 3 of spades.
\<close>

theorem play_card_follow_suit_enforced_witness:
  "leadSuit (((fresh_state 2 [Some ''A'', Some ''B''] {1} 0)\<lparr>phase := Playing, cardsPer := Some 2,
      hands := [[\<lparr>suit = Heart, rank = R5\<rparr>, \<lparr>suit = Spade, rank = R2\<rparr>], [\<lparr>suit = Spade, rank = R3\<rparr>]], bids := [Some 1, Some 0]\<rparr>)\<lparr>leadSuit := Some Heart\<rparr>) = Some Heart \<and>
   online_internal_play_card 5 0 (online_card_key \<lparr>suit = Spade, rank = R2\<rparr>) (((fresh_state 2 [Some ''A'', Some ''B''] {1} 0)\<lparr>phase := Playing, cardsPer := Some 2,
      hands := [[\<lparr>suit = Heart, rank = R5\<rparr>, \<lparr>suit = Spade, rank = R2\<rparr>], [\<lparr>suit = Spade, rank = R3\<rparr>]], bids := [Some 1, Some 0]\<rparr>)\<lparr>leadSuit := Some Heart\<rparr>) =
     (((fresh_state 2 [Some ''A'', Some ''B''] {1} 0)\<lparr>phase := Playing, cardsPer := Some 2,
      hands := [[\<lparr>suit = Heart, rank = R5\<rparr>, \<lparr>suit = Spade, rank = R2\<rparr>], [\<lparr>suit = Spade, rank = R3\<rparr>]], bids := [Some 1, Some 0]\<rparr>)\<lparr>leadSuit := Some Heart\<rparr>, [])"
proof -
  let ?s = "((fresh_state 2 [Some ''A'', Some ''B''] {1} 0)\<lparr>phase := Playing, cardsPer := Some 2,
      hands := [[\<lparr>suit = Heart, rank = R5\<rparr>, \<lparr>suit = Spade, rank = R2\<rparr>], [\<lparr>suit = Spade, rank = R3\<rparr>]], bids := [Some 1, Some 0]\<rparr>)\<lparr>leadSuit := Some Heart\<rparr>"
  have h: "leadSuit ?s = Some Heart" "\<lparr>suit = Heart, rank = R5\<rparr> \<in> set (hands ?s ! 0)" "suit \<lparr>suit = Heart, rank = R5\<rparr> = Heart"
    "\<lparr>suit = Spade, rank = R2\<rparr> \<in> set (hands ?s ! 0)" "suit \<lparr>suit = Spade, rank = R2\<rparr> \<noteq> Heart"
    by (simp_all add: fresh_state_def)
  show ?thesis
    using play_card_follow_suit_enforced [OF h, of 5] h(1) by simp
qed

theorem play_card_moves_card_witness:
  "phase ((fresh_state 2 [Some ''A'', Some ''B''] {1} 0)\<lparr>phase := Playing, cardsPer := Some 2,
      hands := [[\<lparr>suit = Heart, rank = R5\<rparr>, \<lparr>suit = Spade, rank = R2\<rparr>], [\<lparr>suit = Spade, rank = R3\<rparr>]], bids := [Some 1, Some 0]\<rparr>) = Playing \<and> turn ((fresh_state 2 [Some ''A'', Some ''B''] {1} 0)\<lparr>phase := Playing, cardsPer := Some 2,
      hands := [[\<lparr>suit = Heart, rank = R5\<rparr>, \<lparr>suit = Spade, rank = R2\<rparr>], [\<lparr>suit = Spade, rank = R3\<rparr>]], bids := [Some 1, Some 0]\<rparr>) = 0 \<and>
   table (fst (online_internal_play_card 5 0 (online_card_key \<lparr>suit = Spade, rank = R2\<rparr>) ((fresh_state 2 [Some ''A'', Some ''B''] {1} 0)\<lparr>phase := Playing, cardsPer := Some 2,
      hands := [[\<lparr>suit = Heart, rank = R5\<rparr>, \<lparr>suit = Spade, rank = R2\<rparr>], [\<lparr>suit = Spade, rank = R3\<rparr>]], bids := [Some 1, Some 0]\<rparr>))) ! 0 = Some \<lparr>suit = Spade, rank = R2\<rparr> \<and>
   mset (hands (fst (online_internal_play_card 5 0 (online_card_key \<lparr>suit = Spade, rank = R2\<rparr>) ((fresh_state 2 [Some ''A'', Some ''B''] {1} 0)\<lparr>phase := Playing, cardsPer := Some 2,
      hands := [[\<lparr>suit = Heart, rank = R5\<rparr>, \<lparr>suit = Spade, rank = R2\<rparr>], [\<lparr>suit = Spade, rank = R3\<rparr>]], bids := [Some 1, Some 0]\<rparr>))) ! 0) = {#\<lparr>suit = Heart, rank = R5\<rparr>#}"
proof -
  have h: "phase ((fresh_state 2 [Some ''A'', Some ''B''] {1} 0)\<lparr>phase := Playing, cardsPer := Some 2,
      hands := [[\<lparr>suit = Heart, rank = R5\<rparr>, \<lparr>suit = Spade, rank = R2\<rparr>], [\<lparr>suit = Spade, rank = R3\<rparr>]], bids := [Some 1, Some 0]\<rparr>) = Playing" "turn ((fresh_state 2 [Some ''A'', Some ''B''] {1} 0)\<lparr>phase := Playing, cardsPer := Some 2,
      hands := [[\<lparr>suit = Heart, rank = R5\<rparr>, \<lparr>suit = Spade, rank = R2\<rparr>], [\<lparr>suit = Spade, rank = R3\<rparr>]], bids := [Some 1, Some 0]\<rparr>) = 0" "0 < length (hands ((fresh_state 2 [Some ''A'', Some ''B''] {1} 0)\<lparr>phase := Playing, cardsPer := Some 2,
      hands := [[\<lparr>suit = Heart, rank = R5\<rparr>, \<lparr>suit = Spade, rank = R2\<rparr>], [\<lparr>suit = Spade, rank = R3\<rparr>]], bids := [Some 1, Some 0]\<rparr>))" "0 < length (table ((fresh_state 2 [Some ''A'', Some ''B''] {1} 0)\<lparr>phase := Playing, cardsPer := Some 2,
      hands := [[\<lparr>suit = Heart, rank = R5\<rparr>, \<lparr>suit = Spade, rank = R2\<rparr>], [\<lparr>suit = Spade, rank = R3\<rparr>]], bids := [Some 1, Some 0]\<rparr>))"
    "\<lparr>suit = Spade, rank = R2\<rparr> \<in> set (hands ((fresh_state 2 [Some ''A'', Some ''B''] {1} 0)\<lparr>phase := Playing, cardsPer := Some 2,
      hands := [[\<lparr>suit = Heart, rank = R5\<rparr>, \<lparr>suit = Spade, rank = R2\<rparr>], [\<lparr>suit = Spade, rank = R3\<rparr>]], bids := [Some 1, Some 0]\<rparr>) ! 0)" "\<not> violates_follow_suit ((fresh_state 2 [Some ''A'', Some ''B''] {1} 0)\<lparr>phase := Playing, cardsPer := Some 2,
      hands := [[\<lparr>suit = Heart, rank = R5\<rparr>, \<lparr>suit = Spade, rank = R2\<rparr>], [\<lparr>suit = Spade, rank = R3\<rparr>]], bids := [Some 1, Some 0]\<rparr>) (hands ((fresh_state 2 [Some ''A'', Some ''B''] {1} 0)\<lparr>phase := Playing, cardsPer := Some 2,
      hands := [[\<lparr>suit = Heart, rank = R5\<rparr>, \<lparr>suit = Spade, rank = R2\<rparr>], [\<lparr>suit = Spade, rank = R3\<rparr>]], bids := [Some 1, Some 0]\<rparr>) ! 0) \<lparr>suit = Spade, rank = R2\<rparr>"
    by (simp_all add: fresh_state_def violates_follow_suit_def)
  show ?thesis
    using play_card_moves_card [OF h, of 5] h(1,2) by (simp add: fresh_state_def)
qed

theorem online_set_bid_rejects_witness:
  "phase ((fresh_state 2 [Some ''A'', Some ''B''] {1} 0)\<lparr>phase := Bidding, cardsPer := Some 3,
      bids := [Some 1, None]\<rparr>) = Bidding \<and>
   online_set_bid (Some 0) (Some 2) 5 ((fresh_state 2 [Some ''A'', Some ''B''] {1} 0)\<lparr>phase := Bidding, cardsPer := Some 3,
      bids := [Some 1, None]\<rparr>) = (((fresh_state 2 [Some ''A'', Some ''B''] {1} 0)\<lparr>phase := Bidding, cardsPer := Some 3,
      bids := [Some 1, None]\<rparr>), [EmitError ErrBidAlreadySet]) \<and>
   online_set_bid (Some 1) (Some 4) 5 ((fresh_state 2 [Some ''A'', Some ''B''] {1} 0)\<lparr>phase := Bidding, cardsPer := Some 3,
      bids := [Some 1, None]\<rparr>) = (((fresh_state 2 [Some ''A'', Some ''B''] {1} 0)\<lparr>phase := Bidding, cardsPer := Some 3,
      bids := [Some 1, None]\<rparr>), [EmitError (ErrBidRange 3)]) \<and>
   online_set_bid (Some 2) (Some 1) 5 ((fresh_state 2 [Some ''A'', Some ''B''] {1} 0)\<lparr>phase := Bidding, cardsPer := Some 3,
      bids := [Some 1, None]\<rparr>) = (((fresh_state 2 [Some ''A'', Some ''B''] {1} 0)\<lparr>phase := Bidding, cardsPer := Some 3,
      bids := [Some 1, None]\<rparr>), [Crash])"
proof -
  have h: "phase ((fresh_state 2 [Some ''A'', Some ''B''] {1} 0)\<lparr>phase := Bidding, cardsPer := Some 3,
      bids := [Some 1, None]\<rparr>) = Bidding" by (simp add: fresh_state_def)
  have f: "bids ((fresh_state 2 [Some ''A'', Some ''B''] {1} 0)\<lparr>phase := Bidding, cardsPer := Some 3,
      bids := [Some 1, None]\<rparr>) ! 0 \<noteq> None" "bids ((fresh_state 2 [Some ''A'', Some ''B''] {1} 0)\<lparr>phase := Bidding, cardsPer := Some 3,
      bids := [Some 1, None]\<rparr>) ! 1 = None" "max_bid_of ((fresh_state 2 [Some ''A'', Some ''B''] {1} 0)\<lparr>phase := Bidding, cardsPer := Some 3,
      bids := [Some 1, None]\<rparr>) = Some 3"
    by (simp_all add: fresh_state_def max_bid_of_def)
  show ?thesis
    using online_set_bid_rejects [OF h, of 0 "Some 2" 5] online_set_bid_rejects [OF h, of 1 "Some 4" 5 3 4]
      online_set_bid_rejects [OF h, of 2 "Some 1" 5] h f
    by simp
qed

theorem online_set_bid_accepts_witness:
  "phase ((fresh_state 2 [Some ''A'', Some ''B''] {1} 0)\<lparr>phase := Bidding, cardsPer := Some 3,
      bids := [Some 1, None]\<rparr>) = Bidding \<and> bids ((fresh_state 2 [Some ''A'', Some ''B''] {1} 0)\<lparr>phase := Bidding, cardsPer := Some 3,
      bids := [Some 1, None]\<rparr>) ! 1 = None \<and> max_bid_of ((fresh_state 2 [Some ''A'', Some ''B''] {1} 0)\<lparr>phase := Bidding, cardsPer := Some 3,
      bids := [Some 1, None]\<rparr>) = Some 3 \<and>
   phase (fst (online_set_bid (Some 1) (Some 2) 5 ((fresh_state 2 [Some ''A'', Some ''B''] {1} 0)\<lparr>phase := Bidding, cardsPer := Some 3,
      bids := [Some 1, None]\<rparr>))) = Playing \<and>
   bids (fst (online_set_bid (Some 1) (Some 2) 5 ((fresh_state 2 [Some ''A'', Some ''B''] {1} 0)\<lparr>phase := Bidding, cardsPer := Some 3,
      bids := [Some 1, None]\<rparr>))) = [Some 1, Some 2]"
proof -
  have h: "phase ((fresh_state 2 [Some ''A'', Some ''B''] {1} 0)\<lparr>phase := Bidding, cardsPer := Some 3,
      bids := [Some 1, None]\<rparr>) = Bidding" "1 < length (bids ((fresh_state 2 [Some ''A'', Some ''B''] {1} 0)\<lparr>phase := Bidding, cardsPer := Some 3,
      bids := [Some 1, None]\<rparr>))" "bids ((fresh_state 2 [Some ''A'', Some ''B''] {1} 0)\<lparr>phase := Bidding, cardsPer := Some 3,
      bids := [Some 1, None]\<rparr>) ! 1 = None" "max_bid_of ((fresh_state 2 [Some ''A'', Some ''B''] {1} 0)\<lparr>phase := Bidding, cardsPer := Some 3,
      bids := [Some 1, None]\<rparr>) = Some 3" "(0::int) \<le> 2" "(2::int) \<le> int 3"
    by (simp_all add: fresh_state_def max_bid_of_def)
  show ?thesis
    using online_set_bid_accepts [OF h, of 5] h by (simp add: fresh_state_def all_set_def)
qed

theorem online_auto_next_round_advance_witness:
  "phase (((fresh_state 2 [Some ''A'', Some ''B''] {1} 0)\<lparr>phase := Playing, cardsPer := Some 2,
      hands := [[\<lparr>suit = Heart, rank = R5\<rparr>, \<lparr>suit = Spade, rank = R2\<rparr>], [\<lparr>suit = Spade, rank = R3\<rparr>]], bids := [Some 1, Some 0]\<rparr>)\<lparr>phase := RoundFinished\<rparr>) = RoundFinished \<and>
   phase (fst (online_auto_next_round 0 5 online_make_deck (((fresh_state 2 [Some ''A'', Some ''B''] {1} 0)\<lparr>phase := Playing, cardsPer := Some 2,
      hands := [[\<lparr>suit = Heart, rank = R5\<rparr>, \<lparr>suit = Spade, rank = R2\<rparr>], [\<lparr>suit = Spade, rank = R3\<rparr>]], bids := [Some 1, Some 0]\<rparr>)\<lparr>phase := RoundFinished\<rparr>))) = Dealing \<and>
   roundIndex (fst (online_auto_next_round 0 5 online_make_deck (((fresh_state 2 [Some ''A'', Some ''B''] {1} 0)\<lparr>phase := Playing, cardsPer := Some 2,
      hands := [[\<lparr>suit = Heart, rank = R5\<rparr>, \<lparr>suit = Spade, rank = R2\<rparr>], [\<lparr>suit = Spade, rank = R3\<rparr>]], bids := [Some 1, Some 0]\<rparr>)\<lparr>phase := RoundFinished\<rparr>))) = 1"
proof -
  let ?s = "((fresh_state 2 [Some ''A'', Some ''B''] {1} 0)\<lparr>phase := Playing, cardsPer := Some 2,
      hands := [[\<lparr>suit = Heart, rank = R5\<rparr>, \<lparr>suit = Spade, rank = R2\<rparr>], [\<lparr>suit = Spade, rank = R3\<rparr>]], bids := [Some 1, Some 0]\<rparr>)\<lparr>phase := RoundFinished\<rparr>"
  have h: "phase ?s = RoundFinished" "roundIndex ?s = 0" "autoNextDoneFor ?s \<noteq> Some 0"
    by (simp_all add: fresh_state_def)
  show ?thesis
    using online_auto_next_round_advance [OF h, of 5 online_make_deck] h(1) by simp
qed

theorem online_next_reopens_play_witness:
  "phase (((fresh_state 2 [Some ''A'', Some ''B''] {1} 0)\<lparr>phase := Playing, cardsPer := Some 2,
      hands := [[\<lparr>suit = Heart, rank = R5\<rparr>, \<lparr>suit = Spade, rank = R2\<rparr>], [\<lparr>suit = Spade, rank = R3\<rparr>]], bids := [Some 1, Some 0]\<rparr>)\<lparr>phase := GameFinished\<rparr>) = GameFinished \<and>
   phase (fst (online_next 5 online_make_deck (((fresh_state 2 [Some ''A'', Some ''B''] {1} 0)\<lparr>phase := Playing, cardsPer := Some 2,
      hands := [[\<lparr>suit = Heart, rank = R5\<rparr>, \<lparr>suit = Spade, rank = R2\<rparr>], [\<lparr>suit = Spade, rank = R3\<rparr>]], bids := [Some 1, Some 0]\<rparr>)\<lparr>phase := GameFinished\<rparr>))) = Playing"
proof -
  let ?s = "((fresh_state 2 [Some ''A'', Some ''B''] {1} 0)\<lparr>phase := Playing, cardsPer := Some 2,
      hands := [[\<lparr>suit = Heart, rank = R5\<rparr>, \<lparr>suit = Spade, rank = R2\<rparr>], [\<lparr>suit = Spade, rank = R3\<rparr>]], bids := [Some 1, Some 0]\<rparr>)\<lparr>phase := GameFinished\<rparr>"
  have h: "phase ?s = GameFinished \<or> (phase ?s = RoundFinished \<and> 13 \<le> roundIndex ?s)"
    "all_set (bids ?s)" "cardsPer ?s = Some 2" "(0::nat) < 2"
    by (simp_all add: fresh_state_def all_set_def)
  show ?thesis
    using online_next_reopens_play [OF h, of 5 online_make_deck] by (simp add: fresh_state_def)
qed

theorem online_next_mid_trick_resets_turn_witness:
  "phase (((fresh_state 2 [Some ''A'', Some ''B''] {1} 0)\<lparr>phase := Playing, cardsPer := Some 2,
      hands := [[\<lparr>suit = Heart, rank = R5\<rparr>, \<lparr>suit = Spade, rank = R2\<rparr>], [\<lparr>suit = Spade, rank = R3\<rparr>]], bids := [Some 1, Some 0]\<rparr>)\<lparr>table := [Some \<lparr>suit = Heart, rank = R5\<rparr>, None], turn := 1\<rparr>) = Playing \<and>
   turn (fst (online_next 5 online_make_deck (((fresh_state 2 [Some ''A'', Some ''B''] {1} 0)\<lparr>phase := Playing, cardsPer := Some 2,
      hands := [[\<lparr>suit = Heart, rank = R5\<rparr>, \<lparr>suit = Spade, rank = R2\<rparr>], [\<lparr>suit = Spade, rank = R3\<rparr>]], bids := [Some 1, Some 0]\<rparr>)\<lparr>table := [Some \<lparr>suit = Heart, rank = R5\<rparr>, None], turn := 1\<rparr>))) = 0 \<and>
   table (fst (online_next 5 online_make_deck (((fresh_state 2 [Some ''A'', Some ''B''] {1} 0)\<lparr>phase := Playing, cardsPer := Some 2,
      hands := [[\<lparr>suit = Heart, rank = R5\<rparr>, \<lparr>suit = Spade, rank = R2\<rparr>], [\<lparr>suit = Spade, rank = R3\<rparr>]], bids := [Some 1, Some 0]\<rparr>)\<lparr>table := [Some \<lparr>suit = Heart, rank = R5\<rparr>, None], turn := 1\<rparr>))) = [Some \<lparr>suit = Heart, rank = R5\<rparr>, None]"
proof -
  let ?s = "((fresh_state 2 [Some ''A'', Some ''B''] {1} 0)\<lparr>phase := Playing, cardsPer := Some 2,
      hands := [[\<lparr>suit = Heart, rank = R5\<rparr>, \<lparr>suit = Spade, rank = R2\<rparr>], [\<lparr>suit = Spade, rank = R3\<rparr>]], bids := [Some 1, Some 0]\<rparr>)\<lparr>table := [Some \<lparr>suit = Heart, rank = R5\<rparr>, None], turn := 1\<rparr>"
  have h: "phase ?s = Playing" "all_set (bids ?s)" "cardsPer ?s = Some 2" "(0::nat) < 2"
    by (simp_all add: fresh_state_def all_set_def)
  show ?thesis
    using online_next_mid_trick_resets_turn [OF h, of 5 online_make_deck] by (simp add: fresh_state_def)
qed

theorem online_next_stale_cards_per_witness:
  "online_deal 2 6 online_make_deck = Some ([[\<lparr>suit = Spade, rank = R2\<rparr>], [\<lparr>suit = Spade, rank = R3\<rparr>]], 1) \<and>
   hands (fst (online_next 5 online_make_deck (((fresh_state 2 [Some ''A'', Some ''B''] {1} 0)\<lparr>phase := Playing, cardsPer := Some 2,
      hands := [[\<lparr>suit = Heart, rank = R5\<rparr>, \<lparr>suit = Spade, rank = R2\<rparr>], [\<lparr>suit = Spade, rank = R3\<rparr>]], bids := [Some 1, Some 0]\<rparr>)\<lparr>phase := RoundFinished, roundIndex := 5\<rparr>))) = [[\<lparr>suit = Spade, rank = R2\<rparr>], [\<lparr>suit = Spade, rank = R3\<rparr>]] \<and>
   cardsPer (fst (online_next 5 online_make_deck (((fresh_state 2 [Some ''A'', Some ''B''] {1} 0)\<lparr>phase := Playing, cardsPer := Some 2,
      hands := [[\<lparr>suit = Heart, rank = R5\<rparr>, \<lparr>suit = Spade, rank = R2\<rparr>], [\<lparr>suit = Spade, rank = R3\<rparr>]], bids := [Some 1, Some 0]\<rparr>)\<lparr>phase := RoundFinished, roundIndex := 5\<rparr>))) = Some 2"
proof -
  let ?s = "((fresh_state 2 [Some ''A'', Some ''B''] {1} 0)\<lparr>phase := Playing, cardsPer := Some 2,
      hands := [[\<lparr>suit = Heart, rank = R5\<rparr>, \<lparr>suit = Spade, rank = R2\<rparr>], [\<lparr>suit = Spade, rank = R3\<rparr>]], bids := [Some 1, Some 0]\<rparr>)\<lparr>phase := RoundFinished, roundIndex := 5\<rparr>"
  have d: "online_deal 2 6 online_make_deck = Some ([[\<lparr>suit = Spade, rank = R2\<rparr>], [\<lparr>suit = Spade, rank = R3\<rparr>]], 1)"
    by (simp add: online_deal_def online_round_cards_def cards_per_for_def deal_round_robin_def
        online_make_deck_def online_suits_def online_ranks_def numeral_2_eq_2)
  have h: "phase ?s = RoundFinished" "roundIndex ?s < 13"
    "online_deal (n ?s) (roundIndex ?s + 1) online_make_deck = Some ([[\<lparr>suit = Spade, rank = R2\<rparr>], [\<lparr>suit = Spade, rank = R3\<rparr>]], 1)"
    "cardsPer ?s = Some 2" "(0::nat) < 2"
    using d by (simp_all add: fresh_state_def)
  show ?thesis
    using online_next_stale_cards_per [OF h, of 5] d by simp
qed

theorem online_play_card_errors_witness:
  "online_play_card None ''5X'' 5 ((fresh_state 2 [Some ''A'', Some ''B''] {1} 0)\<lparr>phase := Playing, cardsPer := Some 2,
      hands := [[\<lparr>suit = Heart, rank = R5\<rparr>, \<lparr>suit = Spade, rank = R2\<rparr>], [\<lparr>suit = Spade, rank = R3\<rparr>]], bids := [Some 1, Some 0]\<rparr>) = (((fresh_state 2 [Some ''A'', Some ''B''] {1} 0)\<lparr>phase := Playing, cardsPer := Some 2,
      hands := [[\<lparr>suit = Heart, rank = R5\<rparr>, \<lparr>suit = Spade, rank = R2\<rparr>], [\<lparr>suit = Spade, rank = R3\<rparr>]], bids := [Some 1, Some 0]\<rparr>), [EmitError ErrNotInRoom]) \<and>
   online_play_card (Some 1) ''5X'' 5 ((fresh_state 2 [Some ''A'', Some ''B''] {1} 0)\<lparr>phase := Playing, cardsPer := Some 2,
      hands := [[\<lparr>suit = Heart, rank = R5\<rparr>, \<lparr>suit = Spade, rank = R2\<rparr>], [\<lparr>suit = Spade, rank = R3\<rparr>]], bids := [Some 1, Some 0]\<rparr>) = (((fresh_state 2 [Some ''A'', Some ''B''] {1} 0)\<lparr>phase := Playing, cardsPer := Some 2,
      hands := [[\<lparr>suit = Heart, rank = R5\<rparr>, \<lparr>suit = Spade, rank = R2\<rparr>], [\<lparr>suit = Spade, rank = R3\<rparr>]], bids := [Some 1, Some 0]\<rparr>), [EmitError ErrNotYourTurn]) \<and>
   online_play_card (Some 0) ''5X'' 5 (((fresh_state 2 [Some ''A'', Some ''B''] {1} 0)\<lparr>phase := Playing, cardsPer := Some 2,
      hands := [[\<lparr>suit = Heart, rank = R5\<rparr>, \<lparr>suit = Spade, rank = R2\<rparr>], [\<lparr>suit = Spade, rank = R3\<rparr>]], bids := [Some 1, Some 0]\<rparr>)\<lparr>phase := Bidding\<rparr>) = (((fresh_state 2 [Some ''A'', Some ''B''] {1} 0)\<lparr>phase := Playing, cardsPer := Some 2,
      hands := [[\<lparr>suit = Heart, rank = R5\<rparr>, \<lparr>suit = Spade, rank = R2\<rparr>], [\<lparr>suit = Spade, rank = R3\<rparr>]], bids := [Some 1, Some 0]\<rparr>)\<lparr>phase := Bidding\<rparr>, [])"
proof -
  have h: "phase ((fresh_state 2 [Some ''A'', Some ''B''] {1} 0)\<lparr>phase := Playing, cardsPer := Some 2,
      hands := [[\<lparr>suit = Heart, rank = R5\<rparr>, \<lparr>suit = Spade, rank = R2\<rparr>], [\<lparr>suit = Spade, rank = R3\<rparr>]], bids := [Some 1, Some 0]\<rparr>) = Playing" "turn ((fresh_state 2 [Some ''A'', Some ''B''] {1} 0)\<lparr>phase := Playing, cardsPer := Some 2,
      hands := [[\<lparr>suit = Heart, rank = R5\<rparr>, \<lparr>suit = Spade, rank = R2\<rparr>], [\<lparr>suit = Spade, rank = R3\<rparr>]], bids := [Some 1, Some 0]\<rparr>) \<noteq> 1" "phase (((fresh_state 2 [Some ''A'', Some ''B''] {1} 0)\<lparr>phase := Playing, cardsPer := Some 2,
      hands := [[\<lparr>suit = Heart, rank = R5\<rparr>, \<lparr>suit = Spade, rank = R2\<rparr>], [\<lparr>suit = Spade, rank = R3\<rparr>]], bids := [Some 1, Some 0]\<rparr>)\<lparr>phase := Bidding\<rparr>) \<noteq> Playing"
    by (simp_all add: fresh_state_def)
  show ?thesis
    using online_play_card_errors [of "((fresh_state 2 [Some ''A'', Some ''B''] {1} 0)\<lparr>phase := Playing, cardsPer := Some 2,
      hands := [[\<lparr>suit = Heart, rank = R5\<rparr>, \<lparr>suit = Spade, rank = R2\<rparr>], [\<lparr>suit = Spade, rank = R3\<rparr>]], bids := [Some 1, Some 0]\<rparr>)" "Some 0" "''5X''" 5 1]
      online_play_card_errors [of "((fresh_state 2 [Some ''A'', Some ''B''] {1} 0)\<lparr>phase := Playing, cardsPer := Some 2,
      hands := [[\<lparr>suit = Heart, rank = R5\<rparr>, \<lparr>suit = Spade, rank = R2\<rparr>], [\<lparr>suit = Spade, rank = R3\<rparr>]], bids := [Some 1, Some 0]\<rparr>)\<lparr>phase := Bidding\<rparr>" "Some 0" "''5X''" 5 1] h
    by simp
qed

end
