(* ===== verification/GameInv.thy ===== *)
theory GameInv
  imports Game
begin

text \<open>
  Invariants of the game state machine of \<open>Game\<close>.  \<open>wf_state\<close> is the shape
  of \<open>room["state"]\<close> that every handler and task of \<open>src/app.py\<close> relies on when
  it indexes a list by a seat: all per-seat lists have length \<open>n\<close>, the leader,
  the seat to move and the winner are seats, bot seats are seats, the round index is
  within the 14-round schedule, outside the lobby \<open>cardsPer\<close> is a positive number
  (so \<open>max_bid\<close> never falls back to the schedule), and between tricks a winner is
  recorded.  In the lobby seat 0, the host, is human and has no bid, which keeps
  \<open>start_play_if_all_bid\<close> from leaving the lobby.  Each operation of \<open>Game\<close>
  preserves it.
\<close>

definition wf_state :: "game_state \<Rightarrow> bool" where
  "wf_state st \<longleftrightarrow>
     2 \<le> n st \<and> n st \<le> 8 \<and>
     length (names st) = n st \<and> length (table st) = n st \<and> length (hands st) = n st \<and>
     length (bids st) = n st \<and> length (tricksRound st) = n st \<and> length (tricksTotal st) = n st \<and>
     length (pointsTotal st) = n st \<and> leader st < n st \<and> turn st < n st \<and>
     (\<forall>s \<in> botSeats st. s < n st) \<and> roundIndex st \<le> 13 \<and>
     (phase st = Lobby \<longrightarrow> 0 \<notin> botSeats st \<and> bids st ! 0 = None) \<and>
     (phase st \<noteq> Lobby \<longrightarrow> cardsPer st \<noteq> None \<and> cardsPer st \<noteq> Some 0) \<and>
     pred_option (\<lambda>w. w < n st) (winner st) \<and> (phase st = BetweenTricks \<longrightarrow> winner st \<noteq> None)"

text \<open>The result of an accepted play of the card at position \<open>idx\<close>.\<close>

definition play_outcome :: "time \<Rightarrow> seat \<Rightarrow> nat \<Rightarrow> game_state \<Rightarrow> game_state \<times> effect list" where
  "play_outcome now seat idx st =
     emit_and_schedule now
       (if all_set (table (play_state now seat idx st)) then resolve_full_trick now (play_state now seat idx st)
        else (play_state now seat idx st, []))"

text \<open>
  Card conservation.  \<open>seat_cards st i\<close> counts the cards of seat \<open>i\<close> still in
  play in this round: its hand and, while a trick is being played, its card on the
  table.  Outside the lobby every seat's count plus the tricks completed in the round
  is \<open>cardsPer\<close>; while dealing and bidding the table is empty and no trick has been
  taken; while a trick is played the seat to move has not played to it; while a trick is
  played or shown, fewer than \<open>cardsPer\<close> tricks are complete.
\<close>

definition seat_cards :: "game_state \<Rightarrow> seat \<Rightarrow> nat" where
  "seat_cards st i = length (hands st ! i) + (if phase st = Playing \<and> table st ! i \<noteq> None then 1 else 0)"

definition cards_inv :: "game_state \<Rightarrow> bool" where
  "cards_inv st \<longleftrightarrow>
     ((phase st = Dealing \<or> phase st = Bidding) \<longrightarrow>
        table st = replicate (n st) None \<and> sum_list (tricksRound st) = 0) \<and>
     (phase st = Playing \<longrightarrow> table st ! turn st = None) \<and>
     ((phase st = Playing \<or> phase st = BetweenTricks) \<longrightarrow> sum_list (tricksRound st) < the (cardsPer st)) \<and>
     (phase st \<noteq> Lobby \<longrightarrow>
        (\<forall>i < n st. seat_cards st i + sum_list (tricksRound st) = the (cardsPer st)))"

text \<open>
  The events that change a room's game state, one per handler or task of
  \<open>src/app.py\<close>, with the values each receives: the socket handlers
  (\<open>online_start_game\<close>, \<open>online_set_bid\<close>, \<open>online_play_card\<close>,
  \<open>online_next\<close>), the background tasks (deal finish, bot turn, automatic next trick
  and its resumption, automatic next round, watchdog tick, bot takeover), and the two
  edits the room handlers make in the lobby: a seat's name (join, leave, disconnect) and
  the reset of \<open>online_update_lobby\<close>.  \<open>event_ok\<close> holds for the arguments the
  program can supply: a deck is a shuffle of \<open>_online_make_deck()\<close>, a taken-over
  seat is a seat, a lobby reset has 2 to 8 seats and bots only in seats 1 to n-1
  (the clamping of \<open>online_update_lobby\<close>).
\<close>

datatype game_event =
    EvStartGame "(sid, seat) dict" time "card list"
  | EvFinishDeal nat time
  | EvSetBid "seat option" "int option" time
  | EvPlayCard "seat option" string time
  | EvBotTurn time
  | EvAutoNextTrick nat time
  | EvAutoNextTrickResume nat time
  | EvAutoNextRound nat time "card list"
  | EvNext time "card list"
  | EvTakeover time seat
  | EvWatchdog time
  | EvRename seat "string option"
  | EvResetLobby nat "string option list" "seat set" time

fun game_apply :: "game_event \<Rightarrow> game_state \<Rightarrow> game_state \<times> effect list" where
  "game_apply (EvStartGame members now deck) st = online_start_game members now deck st"
| "game_apply (EvFinishDeal did now) st = online_finish_deal did now st"
| "game_apply (EvSetBid seat_opt bid_in now) st = online_set_bid seat_opt bid_in now st"
| "game_apply (EvPlayCard seat_opt key now) st = online_play_card seat_opt key now st"
| "game_apply (EvBotTurn now) st = online_bot_turn_task now st"
| "game_apply (EvAutoNextTrick ri now) st = online_auto_next_trick ri now st"
| "game_apply (EvAutoNextTrickResume ri now) st = online_auto_next_trick_resume ri now st"
| "game_apply (EvAutoNextRound ri now deck) st = online_auto_next_round ri now deck st"
| "game_apply (EvNext now deck) st = online_next now deck st"
| "game_apply (EvTakeover now seat) st = online_mark_seat_bot_takeover now seat st"
| "game_apply (EvWatchdog now) st = online_watchdog_tick now st"
| "game_apply (EvRename seat nm) st = (st\<lparr>names := (names st)[seat := nm]\<rparr>, [])"
| "game_apply (EvResetLobby k nm bs now) st = (fresh_state k nm bs now, [EmitState])"

fun event_ok :: "game_state \<Rightarrow> game_event \<Rightarrow> bool" where
  "event_ok st (EvStartGame members now deck) \<longleftrightarrow> mset deck = mset online_make_deck"
| "event_ok st (EvAutoNextRound ri now deck) \<longleftrightarrow> mset deck = mset online_make_deck"
| "event_ok st (EvNext now deck) \<longleftrightarrow> mset deck = mset online_make_deck"
| "event_ok st (EvTakeover now seat) \<longleftrightarrow> seat < n st"
| "event_ok st (EvResetLobby k nm bs now) \<longleftrightarrow>
     phase st = Lobby \<and> 2 \<le> k \<and> k \<le> 8 \<and> length nm = k \<and> (\<forall>s \<in> bs. 0 < s \<and> s < k)"
| "event_ok st _ \<longleftrightarrow> True"

fun is_manual_next :: "game_event \<Rightarrow> bool" where
  "is_manual_next (EvNext now deck) = True"
| "is_manual_next _ = False"

text \<open>
  The game states reachable from a new lobby (\<open>online_create_room\<close>) by events that
  satisfy \<open>allowed\<close>: with \<open>\<lambda>_. True\<close> every behaviour of the program, with
  \<open>\<lambda>ev. \<not> is_manual_next ev\<close> the behaviours without the manual \<open>online_next\<close>.
\<close>

inductive game_reach :: "(game_event \<Rightarrow> bool) \<Rightarrow> game_state \<Rightarrow> bool" for allowed where
  init: "2 \<le> k \<Longrightarrow> k \<le> 8 \<Longrightarrow> length nm = k \<Longrightarrow> \<forall>s \<in> bs. 0 < s \<and> s < k \<Longrightarrow>
         game_reach allowed (fresh_state k nm bs now)"
| step: "game_reach allowed st \<Longrightarrow> allowed ev \<Longrightarrow> event_ok st ev \<Longrightarrow>
         game_reach allowed (fst (game_apply ev st))"

text \<open>
  A concrete run used by the witnesses: a two-seat room with a human host in seat 0
  and a bot in seat 1, the unshuffled deck, the deal of round 0, the bot's bid, the
  host's bid and the host's lead of the two of spades; then the bot is to move.  And a
  mid-trick state of two seats, leader 0 having led the seven of hearts, seat 1 to move.
\<close>

abbreviation demo_lobby :: game_state where
  "demo_lobby \<equiv> fresh_state 2 [Some ''A'', Some ''B''] {1} 0"

abbreviation demo_dealt :: game_state where
  "demo_dealt \<equiv> fst (game_apply (EvStartGame [(0, 0)] 1 online_make_deck) demo_lobby)"

abbreviation demo_bidding :: game_state where
  "demo_bidding \<equiv> fst (game_apply (EvFinishDeal 1 2) demo_dealt)"

abbreviation demo_playing :: game_state where
  "demo_playing \<equiv> fst (game_apply (EvSetBid (Some 0) (Some 3) 3) demo_bidding)"

abbreviation demo_bot_to_move :: game_state where
  "demo_bot_to_move \<equiv>
     fst (game_apply (EvPlayCard (Some 0) (online_card_key \<lparr>suit = Spade, rank = R2\<rparr>) 4) demo_playing)"

abbreviation mid_trick :: game_state where
  "mid_trick \<equiv> demo_lobby\<lparr>phase := Playing, cardsPer := Some 2,
     hands := [[\<lparr>suit = Heart, rank = R5\<rparr>], [\<lparr>suit = Heart, rank = R9\<rparr>, \<lparr>suit = Club, rank = R3\<rparr>]],
     table := [Some \<lparr>suit = Heart, rank = R7\<rparr>, None], leader := 0, turn := 1,
     leadSuit := Some Heart, bids := [Some 1, Some 0]\<rparr>"

subsection \<open>Helpers\<close>

lemma length_fold_update [simp]: "length (fold (\<lambda>i ps. ps[i := g i ps]) ixs xs) = length xs"
  by (induction ixs arbitrary: xs) simp_all

lemma advance_turn_less: "nxt < k \<Longrightarrow> t < k \<Longrightarrow> advance_turn tbl k nxt m t < k"
  by (induction m arbitrary: nxt) auto

lemma online_deal_length: "0 < k \<Longrightarrow> online_deal k ri deck = Some (hs, cp) \<Longrightarrow> length hs = k \<and> 0 < cp"
  by (auto simp: online_deal_Some deal_round_robin_eq cards_per_for_def)

lemma play_state_phase [simp]: "phase (play_state now seat idx st) = phase st"
  by (simp add: play_state_def Let_def)

lemma online_internal_play_card_cases:
  "online_internal_play_card now seat key st = (st, []) \<or>
   (phase st = Playing \<and> turn st = seat \<and>
    (\<exists>idx. idx < length (hands st ! seat) \<and> online_internal_play_card now seat key st = play_outcome now seat idx st))"
proof (cases "phase st = Playing \<and> turn st = seat")
  case True
  show ?thesis
  proof (cases "first_index (\<lambda>c. online_card_key c = key) (hands st ! seat)")
    case None
    then show ?thesis by (simp add: online_internal_play_card_def)
  next
    case (Some idx)
    then have "idx < length (hands st ! seat)" using first_index_Some by fastforce
    then show ?thesis
      using True Some
      by (auto simp: online_internal_play_card_def play_outcome_def play_state_def Let_def)
  qed
next
  case False
  then show ?thesis by (auto simp: online_internal_play_card_def)
qed

subsection \<open>Well-formedness is preserved\<close>

lemma wf_sched_only: "sched_only st st' \<Longrightarrow> wf_state st' = wf_state st"
  using sched_only_fields [of st st'] by (simp add: wf_state_def)

lemma wf_emit [simp]: "wf_state (fst (emit_and_schedule now r)) = wf_state (fst r)"
  by (cases r) (simp only: fst_conv wf_sched_only [OF emit_and_schedule_sched_only])

lemma wf_start_play: "wf_state st \<Longrightarrow> wf_state (start_play_if_all_bid now st)"
  using all_set_nth [of "bids st" 0]
  by (auto simp: start_play_if_all_bid_def wf_state_def)

lemma wf_play_state:
  assumes "wf_state st" and "phase st = Playing" and "turn st = seat"
  shows "wf_state (play_state now seat idx st)"
proof -
  have "(seat + 1) mod n st < n st" "seat < n st"
    using assms by (auto simp: wf_state_def)
  then show ?thesis
    using assms advance_turn_less by (auto simp: play_state_def Let_def wf_state_def)
qed

lemma wf_finish_round:
  assumes "wf_state st" and "phase st \<noteq> Lobby"
  shows "wf_state (fst (finish_round st))"
  using assms
  by (auto simp: finish_round_def wf_state_def round_points_def max_bid_of_def Let_def
           split: option.splits)

lemma wf_resolve:
  assumes "wf_state st" and "phase st = Playing"
  shows "wf_state (fst (resolve_full_trick now st))"
proof -
  let ?w = "resolve_trick (map the (table st)) (leadSuit st) (leader st)"
  let ?s1 = "st\<lparr>winner := Some ?w, tricksRound := (tricksRound st)[?w := tricksRound st ! ?w + 1],
                 tricksTotal := (tricksTotal st)[?w := tricksTotal st ! ?w + 1], sweepUntil := Some (now + 4000)\<rparr>"
  have w: "?w < n st"
    using resolve_trick_less [of "leader st" "map the (table st)" "leadSuit st"] assms(1)
    by (simp add: wf_state_def)
  have s1: "wf_state ?s1"
    using assms w by (simp add: wf_state_def)
  have "wf_state (fst (finish_round ?s1))"
    using wf_finish_round [OF s1] assms(2) by simp
  moreover have "wf_state (?s1\<lparr>phase := BetweenTricks\<rparr>)"
    using s1 assms(2) by (simp add: wf_state_def)
  ultimately show ?thesis
    unfolding resolve_full_trick_def Let_def by simp
qed

lemma wf_play_outcome:
  assumes "wf_state st" and "phase st = Playing" and "turn st = seat"
  shows "wf_state (fst (play_outcome now seat idx st))"
  using wf_play_state [OF assms] wf_resolve [of "play_state now seat idx st" now] assms(2)
  by (simp add: play_outcome_def)

lemma wf_internal_play: "wf_state st \<Longrightarrow> wf_state (fst (online_internal_play_card now seat key st))"
  using online_internal_play_card_cases [of now seat key st] wf_play_outcome by force

lemma wf_play_card: "wf_state st \<Longrightarrow> wf_state (fst (online_play_card seat_opt key now st))"
  by (auto simp: online_play_card_def wf_internal_play split: option.splits)

lemma wf_bot_turn: "wf_state st \<Longrightarrow> wf_state (fst (online_bot_turn_task now st))"
proof -
  assume wf: "wf_state st"
  obtain co hand' where ch: "online_bot_choose_card st (turn st) = (co, hand')" by (cases "online_bot_choose_card st (turn st)")
  let ?s1 = "st\<lparr>hands := (hands st)[turn st := hand']\<rparr>"
  have "wf_state ?s1" using wf by (simp add: wf_state_def)
  then show ?thesis
    using ch wf_internal_play [of ?s1] wf
    by (auto simp: online_bot_turn_task_def Let_def split: option.splits)
qed

lemma wf_bot_choose_bid:
  assumes "online_bot_choose_bid st = Some st'" and "wf_state st"
  shows "wf_state st'"
proof -
  have st': "st' = st\<lparr>bids := bids st'\<rparr>"
    by (rule online_bot_choose_bid_other_fields [OF assms(1)])
  obtain m where len: "length (bids st') = n st"
    and nth: "\<forall>i < n st. bids st' ! i =
      (if i \<in> botSeats st \<and> bids st ! i = None then Some (bot_bid_for m (hands st ! i)) else bids st ! i)"
    using online_bot_choose_bid_nth [OF assms(1)] assms(2) by (auto simp: wf_state_def)
  have "phase st = Lobby \<longrightarrow> bids st' ! 0 = None"
    using nth assms(2) by (auto simp: wf_state_def)
  then have "wf_state (st\<lparr>bids := bids st'\<rparr>)"
    using len assms(2) by (simp add: wf_state_def)
  then show ?thesis
    by (subst st')
qed

lemma wf_bids_update: "wf_state st \<Longrightarrow> phase st \<noteq> Lobby \<Longrightarrow> wf_state (st\<lparr>bids := (bids st)[i := b]\<rparr>)"
  by (simp add: wf_state_def)

lemma wf_set_bid: "wf_state st \<Longrightarrow> wf_state (fst (online_set_bid seat_opt bid_in now st))"
  by (simp add: online_set_bid_def Let_def wf_start_play wf_bids_update split: option.splits)

lemma wf_finish_deal: "wf_state st \<Longrightarrow> wf_state (fst (online_finish_deal deal_id now st))"
proof -
  assume wf: "wf_state st"
  let ?s1 = "st\<lparr>phase := Bidding, lastActionAt := now\<rparr>"
  have s1: "phase st = Dealing \<Longrightarrow> wf_state ?s1" using wf by (simp add: wf_state_def)
  show ?thesis
    using wf s1 wf_bot_choose_bid [of ?s1] wf_start_play
    by (auto simp: online_finish_deal_def Let_def split: option.splits)
qed

lemma wf_next_trick: "wf_state st \<Longrightarrow> phase st \<noteq> Lobby \<Longrightarrow> wf_state (next_trick st)"
  by (auto simp: next_trick_def wf_state_def split: option.splits)

lemma wf_auto_advance_trick: "wf_state st \<Longrightarrow> phase st \<noteq> Lobby \<Longrightarrow> wf_state (fst (auto_advance_trick now st))"
  by (simp add: auto_advance_trick_def wf_next_trick)

lemma wf_auto_next_trick: "wf_state st \<Longrightarrow> wf_state (fst (online_auto_next_trick ri now st))"
  by (simp add: online_auto_next_trick_def wf_auto_advance_trick)

lemma wf_auto_next_trick_resume: "wf_state st \<Longrightarrow> wf_state (fst (online_auto_next_trick_resume ri now st))"
  by (simp add: online_auto_next_trick_resume_def wf_auto_advance_trick)

lemma wf_start_deal_phase:
  assumes "2 \<le> n st" and "n st \<le> 8" and "length (names st) = n st" and "length (tricksTotal st) = n st"
    and "length (pointsTotal st) = n st" and "\<forall>s \<in> botSeats st. s < n st" and "roundIndex st \<le> 13"
    and "ri < 14"
  shows "wf_state (fst (online_start_deal_phase now deck ri st))"
proof -
  obtain hs cp where d: "online_deal (n st) ri deck = Some (hs, cp)"
    using assms(8) by (simp add: online_deal_def online_round_cards_def Let_def)
  have "length hs = n st \<and> 0 < cp"
    using online_deal_length [OF _ d] assms(1) by simp
  then show ?thesis
    using assms by (simp add: online_start_deal_phase_Some [OF d] wf_state_def)
qed

lemma wf_auto_next_round: "wf_state st \<Longrightarrow> wf_state (fst (online_auto_next_round ri now deck st))"
proof -
  assume wf: "wf_state st"
  have gf: "phase st = RoundFinished \<Longrightarrow> wf_state (st\<lparr>autoNextDoneFor := Some ri, phase := GameFinished\<rparr>)"
    using wf by (simp add: wf_state_def)
  have sd: "roundIndex st = ri \<Longrightarrow> ri < 13 \<Longrightarrow> wf_state (fst (online_start_deal_phase now deck (ri + 1)
              (st\<lparr>autoNextDoneFor := Some ri, roundIndex := ri + 1\<rparr>)))"
    using wf by (intro wf_start_deal_phase) (simp_all add: wf_state_def)
  show ?thesis
    using wf gf sd by (simp add: online_auto_next_round_def Let_def)
qed

lemma wf_manual_next_round:
  assumes "wf_state st" and "phase st = RoundFinished" and "roundIndex st < 13"
  shows "\<exists>st1. manual_next_round deck st = Some st1 \<and> wf_state st1"
proof -
  obtain hs cp where d: "online_deal (n st) (roundIndex st + 1) deck = Some (hs, cp)"
    using assms(3) by (simp add: online_deal_def online_round_cards_def Let_def)
  have "length hs = n st"
    using online_deal_length [OF _ d] assms(1) by (simp add: wf_state_def)
  then show ?thesis
    using d assms by (simp add: manual_next_round_def Let_def wf_state_def)
qed

lemma wf_online_next:
  assumes wf: "wf_state st"
  shows "wf_state (fst (online_next now deck st))"
proof -
  define moved where "moved = (if phase st = BetweenTricks then Some (next_trick st)
                     else if phase st = RoundFinished then
                       (if 13 \<le> roundIndex st then Some (st\<lparr>phase := GameFinished\<rparr>)
                        else manual_next_round deck st)
                     else Some st)"
  have gf: "phase st = RoundFinished \<Longrightarrow> wf_state (st\<lparr>phase := GameFinished\<rparr>)"
    using wf by (simp add: wf_state_def)
  have "\<exists>st1. moved = Some st1 \<and> wf_state st1"
    using wf gf wf_next_trick [OF wf] wf_manual_next_round [OF wf] by (auto simp: moved_def)
  then obtain st1 where m: "moved = Some st1" and wf1: "wf_state st1" by blast
  have eq: "online_next now deck st =
     (if phase st = BetweenTricks \<and> sweep_active now st then (st, [])
      else case online_bot_choose_bid st1 of
             None \<Rightarrow> (st1, [Crash])
           | Some st2 \<Rightarrow> emit_and_schedule now (start_play_if_all_bid now st2, []))"
    using m unfolding online_next_def moved_def by simp
  show ?thesis
    unfolding eq using wf wf1 wf_bot_choose_bid [of st1] wf_start_play by (auto split: option.splits)
qed

lemma wf_takeover:
  assumes wf: "wf_state st" and "seat < n st"
  shows "wf_state (fst (online_mark_seat_bot_takeover now seat st))"
proof (cases "phase st = Lobby")
  case True
  then show ?thesis using wf by (simp add: online_mark_seat_bot_takeover_def)
next
  case False
  define s1 where "s1 = (if seat \<notin> botSeats st
             then st\<lparr>names := (names st)[seat := Some (takeover_name seat (names st ! seat))],
                     botSeats := insert seat (botSeats st)\<rparr>
             else st)"
  have w1: "wf_state s1"
    using assms False by (simp add: s1_def wf_state_def)
  have eq: "online_mark_seat_bot_takeover now seat st =
      (if phase s1 = Bidding then
         (case online_bot_choose_bid s1 of
            None \<Rightarrow> (s1, [Crash])
          | Some st2 \<Rightarrow> emit_and_schedule now (start_play_if_all_bid now st2, []))
       else emit_and_schedule now (s1, []))"
    using False assms unfolding online_mark_seat_bot_takeover_def Let_def s1_def [symmetric]
    by (simp add: wf_state_def)
  show ?thesis
    unfolding eq using w1 wf_bot_choose_bid [of s1] wf_start_play by (simp split: option.splits)
qed

lemma wf_watchdog_tick: "wf_state (fst (online_watchdog_tick now st)) = wf_state st"
  by (simp add: online_watchdog_tick_def Let_def case_prod_beta
      wf_sched_only [OF online_schedule_bot_turn_sched_only])

lemma length_fold_name_step: "length (fst (fold (name_step bs) xs r)) = length (fst r)"
  by (induction xs arbitrary: r) (simp_all add: name_step_def case_prod_beta)

lemma wf_start_game:
  assumes wf: "wf_state st"
  shows "wf_state (fst (online_start_game members now deck st))"
proof (cases "phase st \<noteq> Lobby \<or> length members < 1 \<or> n st < 2")
  case True
  then show ?thesis using wf by (auto simp: online_start_game_def)
next
  case False
  let ?bs = "{0..<n st} - set (dict_values members)"
  let ?nm = "fst (fold (name_step ?bs) [0..<n st] (fit_names (n st) (names st), 1))"
  let ?s1 = "st\<lparr>names := ?nm, botSeats := ?bs, roundIndex := 0\<rparr>"
  have "online_start_game members now deck st = online_start_deal_phase now deck 0 ?s1"
    using False by (simp add: online_start_game_def Let_def)
  moreover have "wf_state (fst (online_start_deal_phase now deck 0 ?s1))"
    using wf by (intro wf_start_deal_phase) (auto simp: wf_state_def length_fold_name_step fit_names_def)
  ultimately show ?thesis by simp
qed

lemma wf_fresh_state:
  "2 \<le> k \<Longrightarrow> k \<le> 8 \<Longrightarrow> length nm = k \<Longrightarrow> \<forall>s \<in> bs. 0 < s \<and> s < k \<Longrightarrow> wf_state (fresh_state k nm bs now)"
  by (auto simp: fresh_state_def wf_state_def)

subsection \<open>Card conservation is preserved\<close>

lemma advance_turn_found:
  "nxt < k \<Longrightarrow> \<exists>j < m. tbl ! ((nxt + j) mod k) = None \<Longrightarrow> tbl ! advance_turn tbl k nxt m t = None"
proof (induction m arbitrary: nxt)
  case 0
  then show ?case by simp
next
  case (Suc m)
  show ?case
  proof (cases "tbl ! nxt = None")
    case True
    then show ?thesis by simp
  next
    case False
    obtain j where j: "j < Suc m" "tbl ! ((nxt + j) mod k) = None"
      using Suc.prems by blast
    then obtain j' where j': "j = Suc j'"
      using False Suc.prems(1) by (cases j) auto
    have "tbl ! (((nxt + 1) mod k + j') mod k) = None"
      using j j' by (simp add: mod_add_left_eq)
    then have "tbl ! advance_turn tbl k ((nxt + 1) mod k) m t = None"
      using Suc.IH [of "(nxt + 1) mod k"] Suc.prems(1) j(1) j' by auto
    then show ?thesis
      using False by simp
  qed
qed

lemma advance_turn_None:
  assumes "nxt < k" and "length tbl = k" and "\<not> all_set tbl"
  shows "tbl ! advance_turn tbl k nxt k t = None"
proof -
  obtain i where i: "i < k" "tbl ! i = None"
    using assms by (auto simp: all_set_conv_nth)
  have "(nxt + (i + k - nxt) mod k) mod k = i"
    using assms(1) i(1) by (simp add: mod_add_right_eq)
  moreover have "(i + k - nxt) mod k < k"
    using i(1) by simp
  ultimately show ?thesis
    using advance_turn_found [OF assms(1), of k tbl t] i(2) by metis
qed

lemma cards_sched_only: "sched_only st st' \<Longrightarrow> cards_inv st' = cards_inv st"
  using sched_only_fields [of st st'] by (simp add: cards_inv_def seat_cards_def)

lemma cards_emit [simp]: "cards_inv (fst (emit_and_schedule now r)) = cards_inv (fst r)"
  by (cases r) (simp only: fst_conv cards_sched_only [OF emit_and_schedule_sched_only])

lemma cards_bot_choose_bid: "online_bot_choose_bid st = Some st' \<Longrightarrow> cards_inv st' = cards_inv st"
  by (subst online_bot_choose_bid_other_fields) (simp_all add: cards_inv_def seat_cards_def)

lemma cards_start_play:
  assumes ci: "cards_inv st" and ph: "phase st = Dealing \<or> phase st = Bidding" and wf: "wf_state st"
  shows "cards_inv (start_play_if_all_bid now st)"
proof -
  have tb: "table st = replicate (n st) None" "sum_list (tricksRound st) = 0"
    and eq0: "\<forall>i < n st. seat_cards st i + sum_list (tricksRound st) = the (cardsPer st)"
    using ci ph by (auto simp: cards_inv_def)
  have eq: "\<forall>i < n st. length (hands st ! i) = the (cardsPer st)"
    using eq0 ph by (auto simp: seat_cards_def tb(2))
  obtain c where "cardsPer st = Some c" "0 < c" "leader st < n st"
    using wf ph by (auto simp: wf_state_def)
  then show ?thesis
    using ci tb eq
    by (cases "all_set (bids st)") (simp_all add: start_play_if_all_bid_def cards_inv_def seat_cards_def tb(2))
qed

lemma cards_bids_upd [simp]: "cards_inv (st\<lparr>bids := b\<rparr>) = cards_inv st"
  by (simp add: cards_inv_def seat_cards_def)

lemma cards_set_bid:
  "wf_state st \<Longrightarrow> cards_inv st \<Longrightarrow> cards_inv (fst (online_set_bid seat_opt bid_in now st))"
  by (simp add: online_set_bid_def Let_def cards_start_play wf_bids_update split: option.splits)

lemma cards_finish_deal:
  assumes wf: "wf_state st" and ci: "cards_inv st"
  shows "cards_inv (fst (online_finish_deal deal_id now st))"
proof -
  let ?s1 = "st\<lparr>phase := Bidding, lastActionAt := now\<rparr>"
  have s1: "phase st = Dealing \<Longrightarrow> cards_inv ?s1 \<and> wf_state ?s1"
    using wf ci by (simp add: cards_inv_def seat_cards_def wf_state_def)
  have "cards_inv (start_play_if_all_bid now st2)"
    if d: "phase st = Dealing" and b: "online_bot_choose_bid ?s1 = Some st2" for st2
  proof -
    have "phase st2 = Bidding"
      by (subst online_bot_choose_bid_other_fields [OF b]) simp
    then show ?thesis
      using s1 [OF d] cards_bot_choose_bid [OF b] wf_bot_choose_bid [OF b]
      by (intro cards_start_play) simp_all
  qed
  then show ?thesis
    using ci s1 by (auto simp: online_finish_deal_def Let_def split: option.splits)
qed

lemma cards_play_state:
  assumes wf: "wf_state st" and ci: "cards_inv st" and ph: "phase st = Playing" and t: "turn st = seat"
    and idx: "idx < length (hands st ! seat)"
  shows "(\<forall>i < n st. seat_cards (play_state now seat idx st) i + sum_list (tricksRound st) = the (cardsPer st)) \<and>
         (\<not> all_set (table (play_state now seat idx st)) \<longrightarrow> cards_inv (play_state now seat idx st))"
proof -
  let ?p = "play_state now seat idx st"
  have seat: "seat < n st" "(seat + 1) mod n st < n st" "table st ! seat = None"
    using wf ci ph t by (auto simp: wf_state_def cards_inv_def)
  have hp: "hands ?p = (hands st)[seat := remove_at idx (hands st ! seat)]"
    "table ?p = (table st)[seat := Some (hands st ! seat ! idx)]"
    "turn ?p = advance_turn (table ?p) (n st) ((seat + 1) mod n st) (n st) (turn st)"
    "n ?p = n st" "tricksRound ?p = tricksRound st" "cardsPer ?p = cardsPer st"
    by (simp_all add: play_state_def Let_def)
  have "seat_cards ?p i = seat_cards st i" if "i < n st" for i
    using that seat idx wf ph by (auto simp: seat_cards_def hp nth_list_update wf_state_def)
  then have eq: "\<forall>i < n st. seat_cards ?p i + sum_list (tricksRound st) = the (cardsPer st)"
    using ci ph by (simp add: cards_inv_def)
  have "\<not> all_set (table ?p) \<Longrightarrow> table ?p ! turn ?p = None"
    using advance_turn_None [OF seat(2), of "table ?p"] wf by (simp add: hp(3,4)) (simp add: hp wf_state_def)
  then show ?thesis
    using eq ph ci by (simp add: cards_inv_def hp)
qed

lemma max_bid_of_pointsTotal [simp]: "max_bid_of (st\<lparr>pointsTotal := x\<rparr>) = max_bid_of st"
  by (simp add: max_bid_of_def split: option.splits)

lemma finish_round_Some:
  "max_bid_of st = Some m \<Longrightarrow>
   \<exists>pt h. fst (finish_round st) = st\<lparr>pointsTotal := pt, history := h, phase := RoundFinished\<rparr>"
  by (auto simp: finish_round_def Let_def case_prod_beta)

lemma cards_resolve:
  assumes wf: "wf_state st" and ph: "phase st = Playing" and full: "all_set (table st)"
    and eq: "\<forall>i < n st. seat_cards st i + sum_list (tricksRound st) = the (cardsPer st)"
  shows "cards_inv (fst (resolve_full_trick now st))"
proof -
  let ?w = "resolve_trick (map the (table st)) (leadSuit st) (leader st)"
  let ?s1 = "st\<lparr>winner := Some ?w, tricksRound := (tricksRound st)[?w := tricksRound st ! ?w + 1],
                 tricksTotal := (tricksTotal st)[?w := tricksTotal st ! ?w + 1], sweepUntil := Some (now + 4000)\<rparr>"
  have w: "?w < n st"
    using resolve_trick_less [of "leader st" "map the (table st)" "leadSuit st"] wf
    by (simp add: wf_state_def)
  have sum: "sum_list (tricksRound ?s1) = Suc (sum_list (tricksRound st))"
    using w wf sum_list_update_Suc [of ?w "tricksRound st"] by (simp add: wf_state_def)
  have seats: "\<forall>i < n st. length (hands st ! i) + sum_list (tricksRound ?s1) = the (cardsPer st)"
    using eq full wf ph sum by (simp add: seat_cards_def all_set_conv_nth wf_state_def)
  have ok: "phase s = RoundFinished \<Longrightarrow>
            n s = n st \<Longrightarrow> hands s = hands st \<Longrightarrow> tricksRound s = tricksRound ?s1 \<Longrightarrow>
            cardsPer s = cardsPer st \<Longrightarrow> cards_inv s" for s
    using seats by (simp add: cards_inv_def seat_cards_def)
  have bt: "sum_list (tricksRound ?s1) < the (cardsPer st)" if ne: "\<not> list_all (\<lambda>h. h = []) (hands st)"
  proof -
    obtain i where i: "i < n st" "hands st ! i \<noteq> []"
      using ne wf by (auto simp: list_all_length wf_state_def)
    then have "length (hands st ! i) + sum_list (tricksRound ?s1) = the (cardsPer st)"
      using seats by blast
    moreover have "0 < length (hands st ! i)"
      using i(2) by simp
    ultimately show ?thesis by linarith
  qed
  have "max_bid_of ?s1 = cardsPer st"
    using wf ph by (auto simp: max_bid_of_def wf_state_def)
  then obtain pt h where "fst (finish_round ?s1) = ?s1\<lparr>pointsTotal := pt, history := h, phase := RoundFinished\<rparr>"
    using finish_round_Some [of ?s1] wf ph by (auto simp: wf_state_def)
  then have "cards_inv (fst (finish_round ?s1))"
    by (simp add: ok)
  moreover have "\<not> list_all (\<lambda>h. h = []) (hands st) \<Longrightarrow> cards_inv (?s1\<lparr>phase := BetweenTricks\<rparr>)"
    using seats bt by (simp add: cards_inv_def seat_cards_def)
  ultimately show ?thesis
    unfolding resolve_full_trick_def Let_def by simp
qed

lemma cards_play_outcome:
  assumes "wf_state st" and "cards_inv st" and "phase st = Playing" and "turn st = seat"
    and "idx < length (hands st ! seat)"
  shows "cards_inv (fst (play_outcome now seat idx st))"
proof -
  let ?p = "play_state now seat idx st"
  have tr: "tricksRound ?p = tricksRound st" "cardsPer ?p = cardsPer st" "n ?p = n st"
    by (simp_all add: play_state_def Let_def)
  show ?thesis
    using cards_play_state [OF assms] cards_resolve [of ?p now] wf_play_state [OF assms(1,3,4)] assms(3)
    by (simp add: play_outcome_def tr)
qed

lemma cards_internal_play:
  "wf_state st \<Longrightarrow> cards_inv st \<Longrightarrow> cards_inv (fst (online_internal_play_card now seat key st))"
  using online_internal_play_card_cases [of now seat key st] cards_play_outcome by force

lemma cards_play_card:
  "wf_state st \<Longrightarrow> cards_inv st \<Longrightarrow> cards_inv (fst (online_play_card seat_opt key now st))"
  by (auto simp: online_play_card_def cards_internal_play split: option.splits)

lemma length_bot_choose_card:
  "length (snd (online_bot_choose_card st seat)) = length (hands st ! seat)"
proof (cases "online_bot_choose_card st seat")
  case (Pair co h')
  show ?thesis
  proof (cases co)
    case None
    then show ?thesis
      using Pair by (auto simp: online_bot_choose_card_def Let_def trump_or_fallback_def split: if_splits option.splits)
  next
    case (Some c)
    then show ?thesis
      using Pair online_bot_choose_card_props [of st seat c h'] mset_eq_length by fastforce
  qed
qed

lemma cards_bot_turn:
  assumes wf: "wf_state st" and ci: "cards_inv st"
  shows "cards_inv (fst (online_bot_turn_task now st))"
proof -
  obtain co hand' where ch: "online_bot_choose_card st (turn st) = (co, hand')"
    by (cases "online_bot_choose_card st (turn st)")
  let ?s1 = "st\<lparr>hands := (hands st)[turn st := hand']\<rparr>"
  have len: "length hand' = length (hands st ! turn st)"
    using length_bot_choose_card [of st "turn st"] ch by simp
  have "seat_cards ?s1 i = seat_cards st i" for i
    using len wf by (cases "i = turn st") (simp_all add: seat_cards_def nth_list_update wf_state_def)
  then have "cards_inv ?s1"
    using ci by (simp add: cards_inv_def)
  moreover have "wf_state ?s1"
    using wf by (simp add: wf_state_def)
  ultimately show ?thesis
    using ch ci cards_internal_play [of ?s1]
    by (auto simp: online_bot_turn_task_def Let_def split: option.splits)
qed

lemma cards_next_trick:
  assumes wf: "wf_state st" and ci: "cards_inv st" and ph: "phase st = BetweenTricks"
  shows "cards_inv (next_trick st)"
proof -
  obtain w where w: "winner st = Some w" "w < n st"
    using wf ph by (auto simp: wf_state_def)
  show ?thesis
    using ci ph w by (simp add: next_trick_def cards_inv_def seat_cards_def)
qed

lemma cards_auto_next_trick:
  "wf_state st \<Longrightarrow> cards_inv st \<Longrightarrow> cards_inv (fst (online_auto_next_trick ri now st))"
  by (simp add: online_auto_next_trick_def auto_advance_trick_def cards_next_trick)

lemma cards_auto_next_trick_resume:
  "wf_state st \<Longrightarrow> cards_inv st \<Longrightarrow> cards_inv (fst (online_auto_next_trick_resume ri now st))"
  by (simp add: online_auto_next_trick_resume_def auto_advance_trick_def cards_next_trick)

lemma cards_start_deal_phase:
  assumes "0 < n st" and "n st \<le> 52" and "52 \<le> length deck" and "ri < 14"
  shows "cards_inv (fst (online_start_deal_phase now deck ri st))"
proof -
  obtain hs cp where d: "online_deal (n st) ri deck = Some (hs, cp)"
    using assms(4) by (simp add: online_deal_def online_round_cards_def Let_def)
  have "length hs = n st \<and> (\<forall>j < n st. length (hs ! j) = cp)"
    using online_deal_shape [OF assms(1-3) d] by simp
  then show ?thesis
    by (simp add: online_start_deal_phase_Some [OF d] cards_inv_def seat_cards_def)
qed

lemma cards_auto_next_round:
  assumes wf: "wf_state st" and ci: "cards_inv st" and deck: "52 \<le> length deck"
  shows "cards_inv (fst (online_auto_next_round ri now deck st))"
proof -
  have gf: "phase st = RoundFinished \<Longrightarrow> cards_inv (st\<lparr>autoNextDoneFor := Some ri, phase := GameFinished\<rparr>)"
    using ci by (simp add: cards_inv_def seat_cards_def)
  have sd: "ri < 13 \<Longrightarrow> cards_inv (fst (online_start_deal_phase now deck (ri + 1)
              (st\<lparr>autoNextDoneFor := Some ri, roundIndex := ri + 1\<rparr>)))"
    using wf deck by (intro cards_start_deal_phase) (simp_all add: wf_state_def)
  show ?thesis
    using ci gf sd by (auto simp: online_auto_next_round_def Let_def)
qed

lemma cards_takeover:
  assumes wf: "wf_state st" and ci: "cards_inv st" and "seat < n st"
  shows "cards_inv (fst (online_mark_seat_bot_takeover now seat st))"
proof (cases "phase st = Lobby")
  case True
  then show ?thesis using ci by (simp add: online_mark_seat_bot_takeover_def)
next
  case False
  define s1 where "s1 = (if seat \<notin> botSeats st
             then st\<lparr>names := (names st)[seat := Some (takeover_name seat (names st ! seat))],
                     botSeats := insert seat (botSeats st)\<rparr>
             else st)"
  have w1: "wf_state s1" and c1: "cards_inv s1" and p1: "phase s1 = phase st"
    using assms False by (simp_all add: s1_def wf_state_def cards_inv_def seat_cards_def)
  have eq: "online_mark_seat_bot_takeover now seat st =
      (if phase s1 = Bidding then
         (case online_bot_choose_bid s1 of
            None \<Rightarrow> (s1, [Crash])
          | Some st2 \<Rightarrow> emit_and_schedule now (start_play_if_all_bid now st2, []))
       else emit_and_schedule now (s1, []))"
    using False assms unfolding online_mark_seat_bot_takeover_def Let_def s1_def [symmetric]
    by (simp add: wf_state_def)
  have "cards_inv (start_play_if_all_bid now st2)"
    if b: "online_bot_choose_bid s1 = Some st2" and ph: "phase s1 = Bidding" for st2
  proof -
    have "phase st2 = Bidding"
      using ph by (subst online_bot_choose_bid_other_fields [OF b]) simp
    then show ?thesis
      using c1 cards_bot_choose_bid [OF b] wf_bot_choose_bid [OF b w1]
      by (intro cards_start_play) simp_all
  qed
  then show ?thesis
    unfolding eq using c1 by (simp split: option.splits)
qed

lemma cards_watchdog_tick: "cards_inv (fst (online_watchdog_tick now st)) = cards_inv st"
  by (simp add: online_watchdog_tick_def Let_def case_prod_beta
      cards_sched_only [OF online_schedule_bot_turn_sched_only])

lemma cards_start_game:
  assumes wf: "wf_state st" and ci: "cards_inv st" and deck: "52 \<le> length deck"
  shows "cards_inv (fst (online_start_game members now deck st))"
proof (cases "phase st \<noteq> Lobby \<or> length members < 1 \<or> n st < 2")
  case True
  then show ?thesis using ci by (auto simp: online_start_game_def)
next
  case False
  let ?bs = "{0..<n st} - set (dict_values members)"
  let ?nm = "fst (fold (name_step ?bs) [0..<n st] (fit_names (n st) (names st), 1))"
  let ?s1 = "st\<lparr>names := ?nm, botSeats := ?bs, roundIndex := 0\<rparr>"
  have "online_start_game members now deck st = online_start_deal_phase now deck 0 ?s1"
    using False by (simp add: online_start_game_def Let_def)
  moreover have "cards_inv (fst (online_start_deal_phase now deck 0 ?s1))"
    using wf deck by (intro cards_start_deal_phase) (simp_all add: wf_state_def)
  ultimately show ?thesis by simp
qed

lemma cards_fresh_state: "cards_inv (fresh_state k nm bs now)"
  by (simp add: fresh_state_def cards_inv_def)

subsection \<open>Every event preserves the invariants\<close>

lemma wf_game_apply: "wf_state st \<Longrightarrow> event_ok st ev \<Longrightarrow> wf_state (fst (game_apply ev st))"
  by (cases ev)
     (simp_all add: wf_start_game wf_finish_deal wf_set_bid wf_play_card wf_bot_turn wf_auto_next_trick
        wf_auto_next_trick_resume wf_auto_next_round wf_online_next wf_takeover wf_watchdog_tick
        wf_fresh_state, simp add: wf_state_def)

lemma cards_game_apply:
  assumes "wf_state st" and "cards_inv st" and "event_ok st ev" and "\<not> is_manual_next ev"
  shows "cards_inv (fst (game_apply ev st))"
proof -
  have deck: "mset deck = mset online_make_deck \<Longrightarrow> 52 \<le> length deck" for deck
    using shuffled_deck by simp
  show ?thesis
    using assms deck
    by (cases ev)
       (simp_all add: cards_start_game cards_finish_deal cards_set_bid cards_play_card cards_bot_turn
          cards_auto_next_trick cards_auto_next_trick_resume cards_auto_next_round cards_takeover
          cards_watchdog_tick cards_fresh_state, simp add: cards_inv_def seat_cards_def)
qed

lemma game_reach_cards:
  "game_reach (\<lambda>ev. \<not> is_manual_next ev) st \<Longrightarrow> wf_state st \<and> cards_inv st"
  by (induction rule: game_reach.induct) (simp_all add: wf_fresh_state cards_fresh_state wf_game_apply cards_game_apply)

lemma sum_seat_cards:
  assumes "length (hands st) = n st" and "length (table st) = n st"
  shows "sum_list (map (seat_cards st) [0..<n st]) =
         sum_list (map length (hands st)) + (if phase st = Playing then count_set (table st) else 0)"
proof -
  let ?g = "\<lambda>x :: card option. of_bool (x \<noteq> None) :: nat"
  have sc: "seat_cards st = (\<lambda>i. length (hands st ! i) + (if phase st = Playing then ?g (table st ! i) else 0))"
    by (auto simp: seat_cards_def)
  have "sum_list (map (seat_cards st) [0..<n st]) =
        sum_list (map (\<lambda>i. length (hands st ! i)) [0..<n st]) +
        sum_list (map (\<lambda>i. if phase st = Playing then ?g (table st ! i) else 0) [0..<n st])"
    unfolding sc by (rule sum_list_addf)
  also have "\<dots> = sum_list (map length (hands st)) + (if phase st = Playing then count_set (table st) else 0)"
    using sum_list_map_nth [of length "hands st"] sum_list_map_nth [of ?g "table st"] assms
    by (simp add: count_set_sum)
  finally show ?thesis .
qed

subsection \<open>Properties of reachable states\<close>

text \<open>
  C24: well-formedness of every reachable game state: whatever sequence of handler calls,
  background tasks and lobby edits the program performs (the manual \<open>online_next\<close>
  included), every per-seat list has one entry per seat, leader, seat to move, winner and
  bot seats are seats, the round index stays within the schedule and outside the lobby
  \<open>cardsPer\<close> is positive; so no seat index of the handlers is out of range.
\<close>

theorem reach_wf_state: "game_reach allowed st \<Longrightarrow> wf_state st"
proof (induction rule: game_reach.induct)
  case (init k nm bs now)
  then show ?case by (rule wf_fresh_state)
next
  case (step st ev)
  then show ?case by (simp add: wf_game_apply)
qed

text \<open>
  C25: conservation of cards.  In every state reachable without the manual
  \<open>online_next\<close>, outside the lobby, the cards in the hands, the cards of the trick
  being played and the cards of the completed tricks (one per seat each) add up to the
  cards dealt, \<open>n * cardsPer\<close>.
\<close>

theorem reach_card_total:
  assumes "game_reach (\<lambda>ev. \<not> is_manual_next ev) st" and "phase st \<noteq> Lobby"
  shows "sum_list (map length (hands st)) + (if phase st = Playing then count_set (table st) else 0) +
           n st * sum_list (tricksRound st) = n st * the (cardsPer st)"
proof -
  have inv: "wf_state st" "cards_inv st"
    using game_reach_cards [OF assms(1)] by simp_all
  then have "\<forall>i \<in> set [0..<n st]. seat_cards st i + sum_list (tricksRound st) = the (cardsPer st)"
    using assms(2) by (simp add: cards_inv_def)
  then have "sum_list (map (\<lambda>i. seat_cards st i + sum_list (tricksRound st)) [0..<n st]) =
             the (cardsPer st) * length [0..<n st]"
    by (rule sum_list_map_const)
  moreover have "length (hands st) = n st" "length (table st) = n st"
    using inv(1) by (simp_all add: wf_state_def)
  ultimately show ?thesis
    using sum_seat_cards [of st] by (simp add: sum_list_addf map_replicate_const sum_list_replicate mult.commute)
qed

text \<open>
  C26: in every state reachable without the manual \<open>online_next\<close>, while a trick is
  played, the seat to move has not yet played to the trick and still holds a card; so
  the turn never passes to a seat that cannot move.
\<close>

theorem reach_turn_has_card:
  assumes "game_reach (\<lambda>ev. \<not> is_manual_next ev) st" and "phase st = Playing"
  shows "table st ! turn st = None \<and> hands st ! turn st \<noteq> []"
proof -
  have inv: "wf_state st" "cards_inv st"
    using game_reach_cards [OF assms(1)] by simp_all
  then have "seat_cards st (turn st) + sum_list (tricksRound st) = the (cardsPer st)"
    and "sum_list (tricksRound st) < the (cardsPer st)" and "table st ! turn st = None"
    using assms(2) by (auto simp: cards_inv_def wf_state_def)
  then show ?thesis
    using assms(2) by (auto simp: seat_cards_def)
qed

lemma play_outcome_table:
  assumes "seat < length (table st)"
  shows "table (fst (play_outcome now seat idx st)) ! seat = Some (hands st ! seat ! idx)"
proof -
  let ?p = "play_state now seat idx st"
  have tp: "table ?p ! seat = Some (hands st ! seat ! idx)"
    using assms by (simp add: play_state_def Let_def)
  obtain r e where re: "(if all_set (table ?p) then resolve_full_trick now ?p else (?p, [])) = (r, e)"
    by fastforce
  have "table r = table ?p"
    using re resolve_full_trick_frame [of now ?p] by (auto split: if_splits)
  then show ?thesis
    using tp emit_and_schedule_fields [where st = r and now = now and eff = e] re
    by (simp add: play_outcome_def)
qed

lemma bot_choose_card_Some:
  "hands st ! seat \<noteq> [] \<Longrightarrow> \<exists>c h'. online_bot_choose_card st seat = (Some c, h')"
  by (auto simp: online_bot_choose_card_def Let_def trump_or_fallback_def split: option.splits)

text \<open>
  C27: progress of the computer player.  In every state reachable without the manual
  \<open>online_next\<close> where a bot is to move, the bot-turn task plays a card: a card of
  the bot's hand lands on the bot's place on the table, so bots never stall a trick.
\<close>

theorem bot_turn_progress:
  assumes "game_reach (\<lambda>ev. \<not> is_manual_next ev) st" and "bot_to_move st"
  shows "\<exists>c. c \<in> set (hands st ! turn st) \<and> table st ! turn st = None \<and>
             table (fst (online_bot_turn_task now st)) ! turn st = Some c"
proof -
  let ?seat = "turn st"
  have inv: "wf_state st" "cards_inv st"
    using game_reach_cards [OF assms(1)] by simp_all
  have ph: "phase st = Playing" and bot: "?seat \<in> botSeats st"
    using assms(2) by (simp_all add: bot_to_move_def)
  have seat: "?seat < length (hands st)" "?seat < length (table st)"
    using inv(1) by (simp_all add: wf_state_def)
  have empty: "table st ! ?seat = None" and ne: "hands st ! ?seat \<noteq> []"
  proof -
    have "seat_cards st ?seat + sum_list (tricksRound st) = the (cardsPer st)"
      and "sum_list (tricksRound st) < the (cardsPer st)" and "table st ! ?seat = None"
      using inv ph by (auto simp: cards_inv_def wf_state_def)
    then show "table st ! ?seat = None" "hands st ! ?seat \<noteq> []"
      using ph by (auto simp: seat_cards_def)
  qed
  obtain c h' where ch: "online_bot_choose_card st ?seat = (Some c, h')"
    using bot_choose_card_Some [OF ne] by blast
  note props = online_bot_choose_card_props [OF ch]
  let ?s1 = "st\<lparr>hands := (hands st)[?seat := h']\<rparr>"
  have h1: "hands ?s1 ! ?seat = h'"
    using seat by simp
  have c1: "c \<in> set (hands ?s1 ! ?seat)"
    using props h1 by (metis set_mset_mset)
  have legal: "\<not> violates_follow_suit ?s1 (hands ?s1 ! ?seat) c"
    using props h1 by (auto simp: violates_follow_suit_def dest: mset_eq_setD split: option.splits)
  obtain idx where idx: "idx < length (hands ?s1 ! ?seat)" "hands ?s1 ! ?seat ! idx = c"
    and acc: "online_internal_play_card now ?seat (online_card_key c) ?s1 = play_outcome now ?seat idx ?s1"
    using online_internal_play_card_accept [OF _ _ c1 legal] ph by (auto simp: play_outcome_def)
  have task: "online_bot_turn_task now st = play_outcome now ?seat idx ?s1"
    using ph bot ch acc by (simp add: online_bot_turn_task_def Let_def)
  have "table (fst (play_outcome now ?seat idx ?s1)) ! ?seat = Some c"
    using play_outcome_table [of ?seat ?s1 now idx] seat idx by simp
  then show ?thesis
    using task props empty by auto
qed

text \<open>
  C28: the manual \<open>online_next\<close> breaks card conservation.  Sent in the middle of a
  trick, after the leader has played (all bids set), it hands the turn back to the
  leader, whose card is still on the table: the seat to move has already played, the
  invariant that every other operation keeps fails, and the leader's next play
  overwrites its first card.
\<close>

theorem online_next_breaks_cards_inv:
  assumes "wf_state st" and "cards_inv st" and "phase st = Playing"
    and "table st ! leader st \<noteq> None" and "all_set (bids st)"
  shows "phase (fst (online_next now deck st)) = Playing \<and>
         table (fst (online_next now deck st)) ! turn (fst (online_next now deck st)) \<noteq> None \<and>
         \<not> cards_inv (fst (online_next now deck st))"
proof -
  obtain c where c: "cardsPer st = Some c" "0 < c"
    using assms(1,3) by (auto simp: wf_state_def)
  let ?s = "start_play_if_all_bid now st"
  have eq: "online_next now deck st = emit_and_schedule now (?s, [])"
    using online_next_unchanged_phase [OF _ _ assms(5) c] assms(3) by simp
  have s: "phase ?s = Playing" "turn ?s = leader st" "table ?s = table st"
    using assms(5) by (simp_all add: start_play_if_all_bid_def)
  show ?thesis
    unfolding eq using emit_and_schedule_fields [where st = ?s and now = now and eff = "[]"] s assms(4)
    by (simp add: cards_inv_def)
qed

subsection \<open>Witnesses\<close>

lemma demo_reach: "game_reach (\<lambda>ev. \<not> is_manual_next ev) demo_bot_to_move"
proof -
  have "game_reach (\<lambda>ev. \<not> is_manual_next ev) demo_lobby"
    by (rule game_reach.init) simp_all
  then have "game_reach (\<lambda>ev. \<not> is_manual_next ev) demo_dealt"
    by (rule game_reach.step) simp_all
  then have "game_reach (\<lambda>ev. \<not> is_manual_next ev) demo_bidding"
    by (rule game_reach.step) simp_all
  then have "game_reach (\<lambda>ev. \<not> is_manual_next ev) demo_playing"
    by (rule game_reach.step) simp_all
  then show ?thesis
    by (rule game_reach.step) simp_all
qed

lemma demo_bot_to_move_eval:
  "phase demo_bot_to_move = Playing \<and> turn demo_bot_to_move = 1 \<and> bot_to_move demo_bot_to_move \<and>
   n demo_bot_to_move = 2 \<and> cardsPer demo_bot_to_move = Some 7 \<and> tricksRound demo_bot_to_move = [0, 0] \<and>
   count_set (table demo_bot_to_move) = 1 \<and> sum_list (map length (hands demo_bot_to_move)) = 13"
  by code_simp

theorem reach_wf_state_witness: "wf_state demo_lobby"
  using reach_wf_state [of "\<lambda>_. True" demo_lobby] game_reach.init [of 2 "[Some ''A'', Some ''B'']" "{1}" "\<lambda>_. True" 0]
  by simp

theorem reach_card_total_witness:
  "sum_list (map length (hands demo_bot_to_move)) + count_set (table demo_bot_to_move) +
     n demo_bot_to_move * sum_list (tricksRound demo_bot_to_move) = n demo_bot_to_move * the (cardsPer demo_bot_to_move)"
  using reach_card_total [OF demo_reach] demo_bot_to_move_eval by simp

theorem reach_turn_has_card_witness:
  "table demo_bot_to_move ! 1 = None \<and> hands demo_bot_to_move ! 1 \<noteq> []"
  using reach_turn_has_card [OF demo_reach] demo_bot_to_move_eval by simp

theorem bot_turn_progress_witness:
  "\<exists>c. c \<in> set (hands demo_bot_to_move ! 1) \<and> table (fst (online_bot_turn_task 5 demo_bot_to_move)) ! 1 = Some c"
  using bot_turn_progress [OF demo_reach, of 5] demo_bot_to_move_eval by auto

theorem online_next_breaks_cards_inv_witness:
  "wf_state mid_trick \<and> cards_inv mid_trick \<and> \<not> cards_inv (fst (online_next 0 online_make_deck mid_trick))"
proof -
  have w: "wf_state mid_trick"
    by (simp add: wf_state_def fresh_state_def)
  have c: "cards_inv mid_trick"
    by (simp add: cards_inv_def seat_cards_def fresh_state_def numeral_2_eq_2 less_Suc_eq)
  have "phase mid_trick = Playing" "table mid_trick ! leader mid_trick \<noteq> None" "all_set (bids mid_trick)"
    by (simp_all add: fresh_state_def all_set_def)
  then show ?thesis
    using online_next_breaks_cards_inv [OF w c, of 0 online_make_deck] w c by blast
qed

end
