(* ===== verification/Room.thy ===== *)
theory Room
  imports GameInv
begin

text \<open>
  The room layer of \<open>src/app.py\<close>: \<open>ONLINE_ROOMS\<close>, a dictionary from room code to
  room, and the socket handlers that create, join, leave and reconfigure rooms, the
  disconnect handler \<open>_online_cleanup_sid\<close>, the takeover timer
  \<open>_online_schedule_bot_takeover\<close> and its task, and the thin wrappers that find a room
  and call the game operations of \<open>Game\<close>.  A room is a record with the keys of the
  room dictionary; \<open>clients\<close> maps a durable client id to its seat and the time it was
  last seen, \<open>sidToClient\<close> a connection to its client id, \<open>pendingBotTakeover\<close> a
  seat to the marker of its pending takeover timer.

  Request fields arrive as strings; a handler's string arguments are the raw field
  values (\<open>""\<close> for a missing field) and are stripped as the handler strips them.
  Strings are lists of code points below 256, so \<open>str.strip\<close> and \<open>str.isdigit\<close>
  are their Latin-1 restrictions.  Integer fields are the results of \<open>int(...)\<close>;
  a field that \<open>int\<close> rejects raises before any mutation and is not modelled.
  \<open>EmitState\<close> is a call of \<open>_online_emit_full_state\<close>, \<open>EmitLeft\<close> the
  \<open>online_left\<close> reply; an \<open>IndexError\<close> is the effect \<open>Crash\<close> with the
  mutations done before it.
\<close>

record client_meta =
  cl_seat :: seat
  lastSeen :: time

record room =
  room_code :: string
  emptySince :: "time option"
  members :: "(sid, seat) dict"
  clients :: "(client_id, client_meta) dict"
  sidToClient :: "(sid, client_id) dict"
  state :: game_state
  pendingBotTakeover :: "(seat, time) dict"

type_synonym registry = "(string, room) dict"

definition online_empty_ttl :: time where
  "online_empty_ttl = 120000"

definition reconnect_grace :: time where
  "reconnect_grace = 30000"

subsection \<open>Strings of the requests\<close>

definition py_is_space :: "char \<Rightarrow> bool" where
  "py_is_space c \<longleftrightarrow> of_char c \<in> ({9, 10, 11, 12, 13, 28, 29, 30, 31, 32, 133, 160} :: nat set)"

definition py_strip :: "string \<Rightarrow> string" where
  "py_strip s = rev (dropWhile py_is_space (rev (dropWhile py_is_space s)))"

definition py_is_digit :: "char \<Rightarrow> bool" where
  "py_is_digit c \<longleftrightarrow> (48 \<le> (of_char c :: nat) \<and> (of_char c :: nat) \<le> 57) \<or> of_char c \<in> ({178, 179, 185} :: nat set)"

definition py_isdigit :: "string \<Rightarrow> bool" where
  "py_isdigit s \<longleftrightarrow> s \<noteq> [] \<and> list_all py_is_digit s"

text \<open>\<open>(s or "").strip() or default\<close> and \<open>(s or "").strip() or None\<close>.\<close>

definition name_or_default :: "string \<Rightarrow> string \<Rightarrow> string" where
  "name_or_default s d = (let t = py_strip s in if t = [] then d else t)"

definition opt_id :: "string \<Rightarrow> client_id option" where
  "opt_id s = (let t = py_strip s in if t = [] then None else Some t)"

subsection \<open>Room codes and the registry\<close>

text \<open>
  \<open>_online_room_code()\<close> formats \<open>random.randint(0, 9999)\<close> as \<open>f"{k:04d}"\<close>;
  \<open>online_join_room\<close> accepts a code when \<open>code.isdigit() and len(code) == 4\<close>.
  The rejection-sampling loop of \<open>online_create_room\<close> consumes the random draws in
  order; \<open>pick_room_code\<close> takes them as a list, and running out of draws
  (\<open>None\<close>) stands for a loop that has not found a free code.
\<close>

definition format_code :: "nat \<Rightarrow> string" where
  "format_code k = map (\<lambda>e. char_of (48 + k div 10 ^ e mod 10)) [3, 2, 1, 0 :: nat]"

definition valid_room_code :: "string \<Rightarrow> bool" where
  "valid_room_code s \<longleftrightarrow> py_isdigit s \<and> length s = 4"

text \<open>The number a code of ASCII digits denotes, \<open>int(code)\<close>.\<close>

definition code_value :: "string \<Rightarrow> nat" where
  "code_value s = foldl (\<lambda>a c. 10 * a + (of_char c - 48)) 0 s"

fun pick_room_code :: "nat list \<Rightarrow> registry \<Rightarrow> string option" where
  "pick_room_code [] reg = None"
| "pick_room_code (k # ks) reg =
     (if dict_get reg (format_code k) = None then Some (format_code k) else pick_room_code ks reg)"

definition room_expired :: "time \<Rightarrow> room \<Rightarrow> bool" where
  "room_expired now r \<longleftrightarrow>
     (case emptySince r of None \<Rightarrow> False | Some t \<Rightarrow> t \<noteq> 0 \<and> now - t > online_empty_ttl)"

definition online_purge_old_rooms :: "time \<Rightarrow> registry \<Rightarrow> registry" where
  "online_purge_old_rooms now reg = filter (\<lambda>(c, r). \<not> room_expired now r) reg"

subsection \<open>Creating a room\<close>

definition clamp_players :: "int \<Rightarrow> nat" where
  "clamp_players p = (if p < 2 \<or> p > 8 then 4 else nat p)"

definition clamp_bots :: "nat \<Rightarrow> int \<Rightarrow> nat" where
  "clamp_bots k b = min (nat b) (k - 1)"

text \<open>\<open>names[0] = name\<close>, then \<open>Computer i+1\<close> for the \<open>i\<close>-th of the sorted bot seats \<open>1..bots\<close>.\<close>

definition initial_names :: "nat \<Rightarrow> string \<Rightarrow> nat \<Rightarrow> string option list" where
  "initial_names k host b =
     fold (\<lambda>(i, seat) nm. nm[seat := Some (''Computer '' @ show_nat (i + 1))]) (enumerate 0 [1..<1 + b])
       ((replicate k None)[0 := Some host])"

definition new_room :: "string \<Rightarrow> sid \<Rightarrow> client_id option \<Rightarrow> string \<Rightarrow> nat \<Rightarrow> nat \<Rightarrow> time \<Rightarrow> room" where
  "new_room code sid cid host k b now =
     \<lparr>room_code = code, emptySince = None, members = [(sid, 0)],
      clients = (case cid of None \<Rightarrow> [] | Some c \<Rightarrow> [(c, \<lparr>cl_seat = 0, lastSeen = now\<rparr>)]),
      sidToClient = (case cid of None \<Rightarrow> [] | Some c \<Rightarrow> [(sid, c)]),
      state = fresh_state k (initial_names k host b) {1..<1 + b} now,
      pendingBotTakeover = []\<rparr>"

definition online_create_room ::
  "sid \<Rightarrow> string \<Rightarrow> string \<Rightarrow> int \<Rightarrow> int \<Rightarrow> nat list \<Rightarrow> time \<Rightarrow> registry \<Rightarrow> (registry \<times> string \<times> effect list) option" where
  "online_create_room sid cid_in name_in players_in bots_in draws now reg =
     (let reg1 = online_purge_old_rooms now reg; cid = opt_id cid_in;
          host = name_or_default name_in ''Spiller 1'';
          k = clamp_players players_in; b = clamp_bots k bots_in
      in case pick_room_code draws reg1 of
           None \<Rightarrow> None
         | Some code \<Rightarrow> Some (dict_set reg1 code (new_room code sid cid host k b now), code, [EmitState]))"

subsection \<open>Joining a room\<close>

text \<open>
  The seats a newcomer may not take: those of live connections and those reserved by a
  client seen within the grace period.  A known client id re-attaches to its seat
  (refreshing \<open>lastSeen\<close>); otherwise the first seat neither occupied nor a bot is
  taken.  A client that re-attaches from a new connection is detached from its old one.
\<close>

definition occupied_seats :: "time \<Rightarrow> room \<Rightarrow> seat set" where
  "occupied_seats now r =
     set (dict_values (members r)) \<union>
     cl_seat ` set (filter (\<lambda>m. now - lastSeen m < reconnect_grace) (dict_values (clients r)))"

definition free_seat :: "time \<Rightarrow> room \<Rightarrow> seat option" where
  "free_seat now r =
     find (\<lambda>i. i \<notin> occupied_seats now r \<and> i \<notin> botSeats (state r)) [0..<n (state r)]"

definition join_seat :: "time \<Rightarrow> client_id option \<Rightarrow> room \<Rightarrow> (seat \<times> room) option" where
  "join_seat now cid r =
     (case cid of
        Some c \<Rightarrow>
          (case dict_get (clients r) c of
             Some m \<Rightarrow> Some (cl_seat m, r\<lparr>clients := dict_set (clients r) c (m\<lparr>lastSeen := now\<rparr>)\<rparr>)
           | None \<Rightarrow> map_option (\<lambda>s. (s, r)) (free_seat now r))
      | None \<Rightarrow> map_option (\<lambda>s. (s, r)) (free_seat now r))"

definition detach_client :: "client_id \<Rightarrow> room \<Rightarrow> room" where
  "detach_client c r =
     fold (\<lambda>(s, c') r'. if c' = c \<and> dict_get (members r') s \<noteq> None
                         then r'\<lparr>members := dict_pop (members r') s, sidToClient := dict_pop (sidToClient r') s\<rparr>
                         else r') (sidToClient r) r"

text \<open>\<open>st["names"][seat] = value\<close>, an \<open>IndexError\<close> for a seat beyond the list.\<close>

definition set_name :: "seat \<Rightarrow> string option \<Rightarrow> room \<Rightarrow> room option" where
  "set_name seat v r =
     (if seat < length (names (state r)) then Some (r\<lparr>state := (state r)\<lparr>names := (names (state r))[seat := v]\<rparr>\<rparr>)
      else None)"

definition online_join_room :: "sid \<Rightarrow> string \<Rightarrow> string \<Rightarrow> string \<Rightarrow> time \<Rightarrow> registry \<Rightarrow> registry \<times> effect list" where
  "online_join_room sid code_in name_in cid_in now reg =
     (let reg1 = online_purge_old_rooms now reg; code = py_strip code_in;
          name = name_or_default name_in ''Spiller''; cid = opt_id cid_in
      in if \<not> valid_room_code code then (reg1, [EmitError ErrBadCode])
         else case dict_get reg1 code of
           None \<Rightarrow> (reg1, [EmitError ErrRoomNotFound])
         | Some r0 \<Rightarrow>
             let r1 = r0\<lparr>emptySince := None\<rparr> in
             case join_seat now cid r1 of
               None \<Rightarrow> (dict_set reg1 code r1, [EmitError ErrRoomFull])
             | Some (seat, r2) \<Rightarrow>
                 let r3 = (case cid of None \<Rightarrow> r2 | Some c \<Rightarrow> detach_client c r2);
                     r4 = r3\<lparr>members := dict_set (members r3) sid seat\<rparr>;
                     r5 = (case cid of None \<Rightarrow> r4
                           | Some c \<Rightarrow> r4\<lparr>clients := dict_set (clients r4) c \<lparr>cl_seat = seat, lastSeen = now\<rparr>,
                                         sidToClient := dict_set (sidToClient r4) sid c\<rparr>)
                 in case set_name seat (Some name) r5 of
                      None \<Rightarrow> (dict_set reg1 code r5, [Crash])
                    | Some r6 \<Rightarrow> (dict_set reg1 code r6, [EmitState]))"

subsection \<open>Leaving, disconnecting and the takeover timer\<close>

definition online_schedule_bot_takeover :: "time \<Rightarrow> seat \<Rightarrow> client_id option \<Rightarrow> room \<Rightarrow> room \<times> effect list" where
  "online_schedule_bot_takeover now seat cid r =
     (if dict_get (pendingBotTakeover r) seat \<noteq> None then (r, [])
      else (r\<lparr>pendingBotTakeover := dict_set (pendingBotTakeover r) seat now\<rparr>,
            [Spawn reconnect_grace (BotTakeover seat cid now)]))"

text \<open>The takeover task, once it has slept and found the room again.\<close>

definition online_bot_takeover_task :: "seat \<Rightarrow> client_id option \<Rightarrow> time \<Rightarrow> time \<Rightarrow> room \<Rightarrow> room \<times> effect list" where
  "online_bot_takeover_task seat cid marker now r0 =
     (if dict_get (pendingBotTakeover r0) seat \<noteq> Some marker then (r0, [])
      else
        let r1 = r0\<lparr>pendingBotTakeover := dict_pop (pendingBotTakeover r0) seat\<rparr>;
            take = (\<lambda>r. let (st', eff) = online_mark_seat_bot_takeover now seat (state r) in (r\<lparr>state := st'\<rparr>, eff))
        in if phase (state r1) = Lobby then (r1, [])
           else if seat \<in> set (dict_values (members r1)) then (r1, [])
           else case cid of
                  None \<Rightarrow> take r1
                | Some c \<Rightarrow>
                    (case dict_get (clients r1) c of
                       None \<Rightarrow> take r1
                     | Some m \<Rightarrow> if now - lastSeen m < reconnect_grace then (r1, [])
                                 else take (r1\<lparr>clients := dict_pop (clients r1) c\<rparr>)))"

definition online_leave_room :: "sid \<Rightarrow> string \<Rightarrow> string \<Rightarrow> time \<Rightarrow> registry \<Rightarrow> registry \<times> effect list" where
  "online_leave_room sid code_in cid_in now reg =
     (let code = py_strip code_in; cid = opt_id cid_in in
      case dict_get reg code of
        None \<Rightarrow> (reg, [EmitLeft])
      | Some r0 \<Rightarrow>
          let seat_opt = dict_get (members r0) sid;
              r1 = r0\<lparr>members := dict_pop (members r0) sid, sidToClient := dict_pop (sidToClient r0) sid\<rparr>;
              r2 = (case cid of None \<Rightarrow> r1 | Some c \<Rightarrow> r1\<lparr>clients := dict_pop (clients r1) c\<rparr>);
              empty = (\<lambda>r. r\<lparr>emptySince := (if members r = [] then Some now else None)\<rparr>)
          in case seat_opt of
               None \<Rightarrow> (dict_set reg code r2, [EmitLeft])
             | Some seat \<Rightarrow>
                 if phase (state r2) = Lobby then
                   (case set_name seat None r2 of
                      None \<Rightarrow> (dict_set reg code r2, [Crash])
                    | Some r3 \<Rightarrow>
                        (dict_set reg code (empty r3), (if members r3 = [] then [] else [EmitState]) @ [EmitLeft]))
                 else
                   let (st', eff) = online_mark_seat_bot_takeover now seat (state r2)
                   in if Crash \<in> set eff then (dict_set reg code (r2\<lparr>state := st'\<rparr>), eff)
                      else (dict_set reg code (empty (r2\<lparr>state := st'\<rparr>)), eff @ [EmitLeft]))"

text \<open>\<open>_online_cleanup_sid\<close> for one room.\<close>

definition cleanup_room :: "sid \<Rightarrow> time \<Rightarrow> room \<Rightarrow> room \<times> effect list" where
  "cleanup_room sid now r0 =
     (let seat_opt = dict_get (members r0) sid; cid = dict_get (sidToClient r0) sid;
          r1 = r0\<lparr>members := dict_pop (members r0) sid, sidToClient := dict_pop (sidToClient r0) sid\<rparr>
      in case seat_opt of
           None \<Rightarrow> (r1, [])
         | Some seat \<Rightarrow>
             let known = (case cid of None \<Rightarrow> None | Some c \<Rightarrow> map_option (Pair c) (dict_get (clients r1) c));
                 r2 = (case known of
                         Some (c, m) \<Rightarrow> Some (r1\<lparr>clients := dict_set (clients r1) c (m\<lparr>lastSeen := now\<rparr>)\<rparr>)
                       | None \<Rightarrow> if phase (state r1) = Lobby then set_name seat None r1 else Some r1)
             in case r2 of
                  None \<Rightarrow> (r1, [Crash])
                | Some r3 \<Rightarrow>
                    let r4 = r3\<lparr>emptySince := (if members r3 = [] then Some now else None)\<rparr>;
                        eff = (if members r3 = [] then [] else [EmitState])
                    in if phase (state r4) \<noteq> Lobby
                       then let (r5, eff') = online_schedule_bot_takeover now seat cid r4 in (r5, eff @ eff')
                       else (r4, eff))"

text \<open>
  The disconnect handler visits every room in the registry's order; the effects are
  collected per room code.  An \<open>IndexError\<close> in one room propagates out of the loop:
  the rooms after it are not visited.
\<close>

fun cleanup_rooms ::
  "sid \<Rightarrow> time \<Rightarrow> registry \<Rightarrow> registry \<times> (string \<times> effect list) list \<Rightarrow> registry \<times> (string \<times> effect list) list" where
  "cleanup_rooms sid now [] acc = acc"
| "cleanup_rooms sid now ((code, r) # rs) (reg', out) =
     (let (r', e) = cleanup_room sid now r; acc' = (dict_set reg' code r', out @ [(code, e)])
      in if Crash \<in> set e then acc' else cleanup_rooms sid now rs acc')"

definition online_cleanup_sid :: "sid \<Rightarrow> time \<Rightarrow> registry \<Rightarrow> registry \<times> (string \<times> effect list) list" where
  "online_cleanup_sid sid now reg = cleanup_rooms sid now reg (reg, [])"

subsection \<open>Lobby configuration and the game handlers\<close>

definition host_name :: "string \<Rightarrow> game_state \<Rightarrow> string" where
  "host_name name_in st =
     (let incoming = name_or_default name_in [] in
      if incoming \<noteq> [] then incoming
      else case names st of
             [] \<Rightarrow> ''Spiller 1''
           | x # _ \<Rightarrow> (case x of None \<Rightarrow> ''Spiller 1'' | Some v \<Rightarrow> name_or_default v ''Spiller 1''))"

definition online_update_lobby ::
  "sid \<Rightarrow> string \<Rightarrow> int option \<Rightarrow> int \<Rightarrow> string \<Rightarrow> time \<Rightarrow> registry \<Rightarrow> registry \<times> effect list" where
  "online_update_lobby sid code_in players_in bots_in name_in now reg =
     (let reg1 = online_purge_old_rooms now reg; code = py_strip code_in in
      case dict_get reg1 code of
        None \<Rightarrow> (reg1, [EmitError ErrRoomNotFound])
      | Some r \<Rightarrow>
          if dict_get (members r) sid \<noteq> Some 0 then (reg1, [EmitError ErrNotHost])
          else if phase (state r) \<noteq> Lobby then (reg1, [])
          else if length (members r) > 1 then (reg1, [EmitError ErrOthersPresent])
          else
            let k = clamp_players (case players_in of Some p \<Rightarrow> p | None \<Rightarrow> int (n (state r)));
                b = clamp_bots k bots_in;
                nm = initial_names k (host_name name_in (state r)) b
            in (dict_set reg1 code (r\<lparr>state := fresh_state k nm {1..<1 + b} now\<rparr>), [EmitState]))"

text \<open>A handler's room lookup \<open>ONLINE_ROOMS.get(code)\<close> with the "room not found" reply.\<close>

definition with_room :: "string \<Rightarrow> (room \<Rightarrow> room \<times> effect list) \<Rightarrow> registry \<Rightarrow> registry \<times> effect list" where
  "with_room code_in f reg =
     (let code = py_strip code_in in
      case dict_get reg code of
        None \<Rightarrow> (reg, [EmitError ErrRoomNotFound])
      | Some r \<Rightarrow> let (r', eff) = f r in (dict_set reg code r', eff))"

definition on_state :: "(game_state \<Rightarrow> game_state \<times> effect list) \<Rightarrow> room \<Rightarrow> room \<times> effect list" where
  "on_state f r = (let (st', eff) = f (state r) in (r\<lparr>state := st'\<rparr>, eff))"

definition online_start_game_handler :: "string \<Rightarrow> time \<Rightarrow> card list \<Rightarrow> registry \<Rightarrow> registry \<times> effect list" where
  "online_start_game_handler code_in now deck =
     with_room code_in (\<lambda>r. on_state (online_start_game (members r) now deck) r)"

definition online_set_bid_handler :: "sid \<Rightarrow> string \<Rightarrow> int option \<Rightarrow> time \<Rightarrow> registry \<Rightarrow> registry \<times> effect list" where
  "online_set_bid_handler sid code_in bid_in now =
     with_room code_in (\<lambda>r. on_state (online_set_bid (dict_get (members r) sid) bid_in now) r)"

definition online_play_card_handler :: "sid \<Rightarrow> string \<Rightarrow> string \<Rightarrow> time \<Rightarrow> registry \<Rightarrow> registry \<times> effect list" where
  "online_play_card_handler sid code_in key now =
     with_room code_in (\<lambda>r. on_state (online_play_card (dict_get (members r) sid) (py_strip key) now) r)"

definition online_next_handler :: "string \<Rightarrow> time \<Rightarrow> card list \<Rightarrow> registry \<Rightarrow> registry \<times> effect list" where
  "online_next_handler code_in now deck = with_room code_in (on_state (online_next now deck))"

text \<open>
  Concrete rooms for the witnesses, room \<open>1234\<close> in the lobby.  The lemmas
  \<open>run_*\<close> below show each is what a sequence of handlers produces: the host
  (connection 1, client \<open>h\<close>) creates a four-seat room; A (connection 2, client
  \<open>a\<close>) joins seat 1 and disconnects at 2 s; B (connection 3, client \<open>b\<close>) joins
  at 40 s and gets seat 1.  Second run: B and D join seats 2 and 3, A and B leave,
  D disconnects, the host shrinks the room to two seats.
\<close>

abbreviation lobby_room :: "(sid, seat) dict \<Rightarrow> (client_id, client_meta) dict \<Rightarrow> (sid, client_id) dict \<Rightarrow> game_state \<Rightarrow> room" where
  "lobby_room mem cls sids st \<equiv>
     \<lparr>room_code = ''1234'', emptySince = None, members = mem, clients = cls, sidToClient = sids,
      state = st, pendingBotTakeover = []\<rparr>"

abbreviation room_created :: room where
  "room_created \<equiv> lobby_room [(1, 0)] [(''h'', \<lparr>cl_seat = 0, lastSeen = 0\<rparr>)] [(1, ''h'')]
     (fresh_state 4 [Some ''H'', None, None, None] {} 0)"

abbreviation room_a_joined :: room where
  "room_a_joined \<equiv> lobby_room [(1, 0), (2, 1)]
     [(''h'', \<lparr>cl_seat = 0, lastSeen = 0\<rparr>), (''a'', \<lparr>cl_seat = 1, lastSeen = 1000\<rparr>)] [(1, ''h''), (2, ''a'')]
     (fresh_state 4 [Some ''H'', Some ''A'', None, None] {} 0)"

abbreviation room_a_gone :: room where
  "room_a_gone \<equiv> lobby_room [(1, 0)]
     [(''h'', \<lparr>cl_seat = 0, lastSeen = 0\<rparr>), (''a'', \<lparr>cl_seat = 1, lastSeen = 2000\<rparr>)] [(1, ''h'')]
     (fresh_state 4 [Some ''H'', Some ''A'', None, None] {} 0)"

abbreviation room_b_took :: room where
  "room_b_took \<equiv> lobby_room [(1, 0), (3, 1)]
     [(''h'', \<lparr>cl_seat = 0, lastSeen = 0\<rparr>), (''a'', \<lparr>cl_seat = 1, lastSeen = 2000\<rparr>),
      (''b'', \<lparr>cl_seat = 1, lastSeen = 40000\<rparr>)] [(1, ''h''), (3, ''b'')]
     (fresh_state 4 [Some ''H'', Some ''B'', None, None] {} 0)"

abbreviation room_shrunk :: room where
  "room_shrunk \<equiv> lobby_room [(1, 0)]
     [(''h'', \<lparr>cl_seat = 0, lastSeen = 0\<rparr>), (''d'', \<lparr>cl_seat = 3, lastSeen = 1500\<rparr>)] [(1, ''h'')]
     (fresh_state 2 [Some ''H'', None] {} 2000)"

text \<open>A room in play whose seat-1 player left at 4 s, with the takeover timer pending.\<close>

abbreviation room_dropped :: room where
  "room_dropped \<equiv>
     \<lparr>room_code = ''1234'', emptySince = None, members = [(1, 0)],
      clients = [(''h'', \<lparr>cl_seat = 0, lastSeen = 0\<rparr>), (''a'', \<lparr>cl_seat = 1, lastSeen = 4000\<rparr>)],
      sidToClient = [(1, ''h'')],
      state = (fresh_state 4 [Some ''H'', Some ''A'', Some ''Bot 3'', Some ''Bot 4''] {2, 3} 3000)\<lparr>phase := Bidding\<rparr>,
      pendingBotTakeover = [(1, 4000)]\<rparr>"

text \<open>
  A room in play where connection 2 (client \<open>a\<close>) holds seat 1 again after a
  disconnect at 4 s whose takeover timer is still pending.
\<close>

abbreviation room_back :: room where
  "room_back \<equiv> room_dropped\<lparr>members := [(1, 0), (2, 1)], sidToClient := [(1, ''h''), (2, ''a'')],
     clients := [(''h'', \<lparr>cl_seat = 0, lastSeen = 0\<rparr>), (''a'', \<lparr>cl_seat = 1, lastSeen = 9000\<rparr>)]\<rparr>"

subsection \<open>Room codes\<close>

lemma of_char_digit: "d < 10 \<Longrightarrow> (of_char (char_of (48 + d) :: char) :: nat) = 48 + d"
  by (simp add: of_char_of)

lemma code_value_format: "k < 10000 \<Longrightarrow> code_value (format_code k) = k"
proof -
  assume k: "k < 10000"
  have "code_value (format_code k) =
        10 * (10 * (10 * (k div 1000 mod 10) + k div 100 mod 10) + k div 10 mod 10) + k mod 10"
    by (simp add: format_code_def code_value_def of_char_digit)
  also have "\<dots> = k"
  proof -
    have 1: "10 * (k div 10) + k mod 10 = k" by simp
    have 2: "10 * (k div 100) + k div 10 mod 10 = k div 10"
      using div_mult_mod_eq [of "k div 10" 10] div_mult2_eq [of k 10 10] by simp
    have 3: "10 * (k div 1000) + k div 100 mod 10 = k div 100"
      using div_mult_mod_eq [of "k div 100" 10] div_mult2_eq [of k 100 10] by simp
    have 4: "k div 1000 mod 10 = k div 1000" using k by simp
    show ?thesis by (simp only: 1 2 3 4)
  qed
  finally show ?thesis .
qed

lemma mod_ten_le: "(x :: nat) mod 10 \<le> 9"
  by simp

lemma valid_format_code: "valid_room_code (format_code k)"
  by (simp add: valid_room_code_def py_isdigit_def py_is_digit_def format_code_def of_char_digit mod_ten_le)

lemma pick_room_code_Some:
  "pick_room_code draws reg = Some c \<Longrightarrow> dict_get reg c = None \<and> c \<in> format_code ` set draws"
  by (induction draws) (auto split: if_splits)

lemma pick_room_code_None:
  "pick_room_code draws reg = None \<longleftrightarrow> (\<forall>k \<in> set draws. dict_get reg (format_code k) \<noteq> None)"
  by (induction draws) auto

text \<open>
  C29: round trip of room codes.  Every draw \<open>k\<close> of \<open>random.randint(0, 9999)\<close>
  is formatted as a code that \<open>online_join_room\<close> accepts (four digits) and that
  denotes \<open>k\<close> again: the formatting loses nothing, so distinct draws give distinct codes.
\<close>

theorem room_code_roundtrip:
  "k < 10000 \<Longrightarrow> valid_room_code (format_code k) \<and> code_value (format_code k) = k"
  using valid_format_code code_value_format by blast

text \<open>
  C30: the rejection-sampling loop of \<open>online_create_room\<close> ends exactly when some draw
  gives a code not in use, and the code it ends with is not in use: a new room never
  replaces a live one.  When all 10000 codes are in use no sequence of draws ends it.
\<close>

theorem pick_room_code_terminates:
  "(pick_room_code draws reg \<noteq> None \<longleftrightarrow> (\<exists>k \<in> set draws. dict_get reg (format_code k) = None)) \<and>
   (pick_room_code draws reg = Some c \<longrightarrow> dict_get reg c = None \<and> c \<in> format_code ` set draws)"
  using pick_room_code_Some [of draws reg c] by (simp add: pick_room_code_None)

text \<open>
  The loop as a search.  \<open>while code in ONLINE_ROOMS: code = _online_room_code()\<close>
  over the draws is \<open>next(f"{k:04d}" for k in draws if f"{k:04d}" not in rooms)\<close>:
  the first draw whose code is free, formatted.
\<close>

theorem pick_room_code_find:
  "pick_room_code draws reg = map_option format_code (find (\<lambda>k. dict_get reg (format_code k) = None) draws)"
  by (induction draws) auto

subsection \<open>Creating a room\<close>

lemma length_fold_enum_update:
  "length (fold (\<lambda>(i, seat) nm. nm[seat := f i]) xs ys) = length ys"
  by (induction xs arbitrary: ys) auto

lemma length_initial_names: "length (initial_names k host b) = k"
  by (simp add: initial_names_def length_fold_enum_update)

lemma clamp_players_bounds: "2 \<le> clamp_players p \<and> clamp_players p \<le> 8"
  by (simp add: clamp_players_def nat_le_iff le_nat_iff)

text \<open>
  C31: a new room's code was not in use after the purge, its only member is the
  creator in seat 0, and its game state is an initial state of \<open>game_reach\<close>: every
  property proved in \<open>GameInv\<close> for reachable states holds for the rooms the
  program creates.
\<close>

theorem online_create_room_init:
  assumes "online_create_room sid cid_in name_in players_in bots_in draws now reg = Some (reg', code, eff)"
  shows "dict_get (online_purge_old_rooms now reg) code = None \<and>
         (\<exists>r. dict_get reg' code = Some r \<and> members r = [(sid, 0)] \<and> game_reach allowed (state r))"
proof -
  let ?reg1 = "online_purge_old_rooms now reg"
  let ?k = "clamp_players players_in"
  let ?b = "clamp_bots ?k bots_in"
  let ?r = "new_room code sid (opt_id cid_in) (name_or_default name_in ''Spiller 1'') ?k ?b now"
  have pick: "pick_room_code draws ?reg1 = Some code" and reg': "reg' = dict_set ?reg1 code ?r"
    using assms by (auto simp: online_create_room_def Let_def split: option.splits)
  have k: "2 \<le> ?k" "?k \<le> 8"
    using clamp_players_bounds by blast+
  have "game_reach allowed (state ?r)"
    using k by (auto simp: new_room_def length_initial_names clamp_bots_def intro!: game_reach.init)
  then show ?thesis
    using pick_room_code_Some [OF pick] reg' by (simp add: new_room_def)
qed

subsection \<open>Joining a room\<close>

lemma detach_client_state [simp]: "state (detach_client c r) = state r"
  unfolding detach_client_def by (rule fold_keeps [where g = state]) (auto split: prod.splits)

lemma detach_client_members:
  assumes "(s, c) \<notin> set (sidToClient r)"
  shows "dict_get (members (detach_client c r)) s = dict_get (members r) s"
  unfolding detach_client_def
  by (rule fold_keeps [where g = "\<lambda>r. dict_get (members r) s"]) (use assms in \<open>auto split: prod.splits\<close>)

text \<open>A join with a known client id, up to the final write of the seat's name.\<close>

lemma join_known_client:
  assumes v: "valid_room_code (py_strip code_in)"
    and r: "dict_get (online_purge_old_rooms now reg) (py_strip code_in) = Some r"
    and c: "opt_id cid_in = Some c" and m: "dict_get (clients r) c = Some m"
  shows "\<exists>r5. state r5 = state r \<and> dict_get (members r5) sid = Some (cl_seat m) \<and>
           (\<forall>s. (s, c) \<notin> set (sidToClient r) \<longrightarrow> s \<noteq> sid \<longrightarrow> dict_get (members r5) s = dict_get (members r) s) \<and>
           online_join_room sid code_in name_in cid_in now reg =
             (case set_name (cl_seat m) (Some (name_or_default name_in ''Spiller'')) r5 of
                None \<Rightarrow> (dict_set (online_purge_old_rooms now reg) (py_strip code_in) r5, [Crash])
              | Some r6 \<Rightarrow> (dict_set (online_purge_old_rooms now reg) (py_strip code_in) r6, [EmitState]))"
proof -
  let ?r2 = "r\<lparr>emptySince := None, clients := dict_set (clients r) c (m\<lparr>lastSeen := now\<rparr>)\<rparr>"
  let ?r3 = "detach_client c ?r2"
  let ?r4 = "?r3\<lparr>members := dict_set (members ?r3) sid (cl_seat m)\<rparr>"
  let ?r5 = "?r4\<lparr>clients := dict_set (clients ?r4) c \<lparr>cl_seat = cl_seat m, lastSeen = now\<rparr>,
                  sidToClient := dict_set (sidToClient ?r4) sid c\<rparr>"
  have js: "join_seat now (Some c) (r\<lparr>emptySince := None\<rparr>) = Some (cl_seat m, ?r2)"
    using m by (simp add: join_seat_def)
  have eq: "online_join_room sid code_in name_in cid_in now reg =
             (case set_name (cl_seat m) (Some (name_or_default name_in ''Spiller'')) ?r5 of
                None \<Rightarrow> (dict_set (online_purge_old_rooms now reg) (py_strip code_in) ?r5, [Crash])
              | Some r6 \<Rightarrow> (dict_set (online_purge_old_rooms now reg) (py_strip code_in) r6, [EmitState]))"
    using v r c js by (simp add: online_join_room_def Let_def)
  have others: "\<forall>s. (s, c) \<notin> set (sidToClient r) \<longrightarrow> s \<noteq> sid \<longrightarrow> dict_get (members ?r5) s = dict_get (members r) s"
    using detach_client_members [of _ c ?r2] by simp
  show ?thesis
    by (rule exI [of _ ?r5]) (use eq others in simp)
qed

lemma set_name_Some:
  "set_name seat v r = Some r' \<Longrightarrow>
   members r' = members r \<and> hands (state r') = hands (state r) \<and> botSeats (state r') = botSeats (state r) \<and>
   phase (state r') = phase (state r) \<and> n (state r') = n (state r)"
  by (auto simp: set_name_def split: if_splits)

text \<open>
  C32: reconnection.  A connection that joins with the durable client id of a
  reservation in the room is attached to the reserved seat, whatever other connections
  hold; the seat's hand, the bot seats and the phase are unchanged.
\<close>

theorem join_reattach:
  assumes "valid_room_code (py_strip code_in)"
    and "dict_get (online_purge_old_rooms now reg) (py_strip code_in) = Some r"
    and "opt_id cid_in = Some c" and "dict_get (clients r) c = Some m"
    and "cl_seat m < length (names (state r))"
  shows "\<exists>r'. online_join_room sid code_in name_in cid_in now reg =
                (dict_set (online_purge_old_rooms now reg) (py_strip code_in) r', [EmitState]) \<and>
              dict_get (members r') sid = Some (cl_seat m) \<and> hands (state r') = hands (state r) \<and>
              botSeats (state r') = botSeats (state r) \<and> phase (state r') = phase (state r)"
proof -
  obtain r5 where r5: "state r5 = state r" "dict_get (members r5) sid = Some (cl_seat m)"
    and eq: "online_join_room sid code_in name_in cid_in now reg =
             (case set_name (cl_seat m) (Some (name_or_default name_in ''Spiller'')) r5 of
                None \<Rightarrow> (dict_set (online_purge_old_rooms now reg) (py_strip code_in) r5, [Crash])
              | Some r6 \<Rightarrow> (dict_set (online_purge_old_rooms now reg) (py_strip code_in) r6, [EmitState]))"
    using join_known_client [OF assms(1-4)] by blast
  obtain r6 where r6: "set_name (cl_seat m) (Some (name_or_default name_in ''Spiller'')) r5 = Some r6"
    using assms(5) r5(1) by (simp add: set_name_def)
  show ?thesis
    using eq r6 r5 set_name_Some [OF r6] by auto
qed

text \<open>
  C34: two live connections on one seat.  The reservation of a client id is honoured
  however long ago the client was last seen, while a newcomer may take any seat whose
  reservation is older than 30 s.  So when another connection already holds the
  reserved seat, the returning client is attached to the same seat: both connections
  are members of it.  The specification requires at most one connection per seat and
  a new seat for a client absent for more than 30 s.
\<close>

theorem join_shares_seat:
  assumes "valid_room_code (py_strip code_in)"
    and "dict_get (online_purge_old_rooms now reg) (py_strip code_in) = Some r"
    and "opt_id cid_in = Some c" and "dict_get (clients r) c = Some m"
    and "cl_seat m < length (names (state r))"
    and "dict_get (members r) sid' = Some (cl_seat m)" and "sid' \<noteq> sid" and "(sid', c) \<notin> set (sidToClient r)"
  shows "\<exists>r'. online_join_room sid code_in name_in cid_in now reg =
                (dict_set (online_purge_old_rooms now reg) (py_strip code_in) r', [EmitState]) \<and>
              dict_get (members r') sid = Some (cl_seat m) \<and> dict_get (members r') sid' = Some (cl_seat m)"
proof -
  obtain r5 where r5: "state r5 = state r" "dict_get (members r5) sid = Some (cl_seat m)"
    and oth: "\<forall>s. (s, c) \<notin> set (sidToClient r) \<longrightarrow> s \<noteq> sid \<longrightarrow> dict_get (members r5) s = dict_get (members r) s"
    and eq: "online_join_room sid code_in name_in cid_in now reg =
             (case set_name (cl_seat m) (Some (name_or_default name_in ''Spiller'')) r5 of
                None \<Rightarrow> (dict_set (online_purge_old_rooms now reg) (py_strip code_in) r5, [Crash])
              | Some r6 \<Rightarrow> (dict_set (online_purge_old_rooms now reg) (py_strip code_in) r6, [EmitState]))"
    using join_known_client [OF assms(1-4)] by blast
  obtain r6 where r6: "set_name (cl_seat m) (Some (name_or_default name_in ''Spiller'')) r5 = Some r6"
    using assms(5) r5(1) by (simp add: set_name_def)
  show ?thesis
    using eq r6 r5 oth assms(6-8) set_name_Some [OF r6] by auto
qed

text \<open>
  C35: a reservation beyond the seats.  \<open>online_update_lobby\<close> may shrink the room
  while a disconnected client keeps its reservation.  When that client comes back, the
  join stores the connection on the vanished seat and then raises \<open>IndexError\<close> at
  \<open>st["names"][seat] = name\<close>; the member entry stays, so the room keeps a member
  whose seat has no hand.
\<close>

theorem join_stale_seat_crash:
  assumes "valid_room_code (py_strip code_in)"
    and "dict_get (online_purge_old_rooms now reg) (py_strip code_in) = Some r"
    and "opt_id cid_in = Some c" and "dict_get (clients r) c = Some m"
    and "length (names (state r)) \<le> cl_seat m"
  shows "\<exists>r'. online_join_room sid code_in name_in cid_in now reg =
                (dict_set (online_purge_old_rooms now reg) (py_strip code_in) r', [Crash]) \<and>
              dict_get (members r') sid = Some (cl_seat m) \<and> state r' = state r"
proof -
  obtain r5 where r5: "state r5 = state r" "dict_get (members r5) sid = Some (cl_seat m)"
    and eq: "online_join_room sid code_in name_in cid_in now reg =
             (case set_name (cl_seat m) (Some (name_or_default name_in ''Spiller'')) r5 of
                None \<Rightarrow> (dict_set (online_purge_old_rooms now reg) (py_strip code_in) r5, [Crash])
              | Some r6 \<Rightarrow> (dict_set (online_purge_old_rooms now reg) (py_strip code_in) r6, [EmitState]))"
    using join_known_client [OF assms(1-4)] by blast
  have "set_name (cl_seat m) (Some (name_or_default name_in ''Spiller'')) r5 = None"
    using assms(5) r5(1) by (simp add: set_name_def)
  then show ?thesis
    using eq r5 by auto
qed

lemma free_seat_emptySince [simp]: "free_seat now (r\<lparr>emptySince := e\<rparr>) = free_seat now r"
  by (simp add: free_seat_def occupied_seats_def)



subsection \<open>The takeover timer\<close>

lemma mark_takeover_bot:
  assumes "phase st \<noteq> Lobby" and "seat < length (names st)"
  shows "seat \<in> botSeats (fst (online_mark_seat_bot_takeover now seat st))"
proof -
  define s1 where "s1 = (if seat \<notin> botSeats st
             then st\<lparr>names := (names st)[seat := Some (takeover_name seat (names st ! seat))],
                     botSeats := insert seat (botSeats st)\<rparr>
             else st)"
  have b1: "seat \<in> botSeats s1"
    by (simp add: s1_def)
  have eq: "online_mark_seat_bot_takeover now seat st =
      (if phase s1 = Bidding then
         (case online_bot_choose_bid s1 of
            None \<Rightarrow> (s1, [Crash])
          | Some st2 \<Rightarrow> emit_and_schedule now (start_play_if_all_bid now st2, []))
       else emit_and_schedule now (s1, []))"
    using assms unfolding online_mark_seat_bot_takeover_def Let_def s1_def [symmetric] by simp
  have "botSeats st2 = botSeats s1" if "online_bot_choose_bid s1 = Some st2" for st2
    by (subst online_bot_choose_bid_other_fields [OF that]) simp
  then show ?thesis
    unfolding eq using b1
    by (auto simp: emit_and_schedule_fields start_play_if_all_bid_def split: option.splits)
qed

text \<open>
  The takeover task.  A task whose marker is no longer the seat's pending marker
  does nothing.  With the current marker, outside the lobby: if the seat is held by a
  live connection again, the task only clears the marker; if not, and the client has
  not been seen within 30 s, the seat (one of the room's seats) becomes a bot seat.
\<close>

theorem bot_takeover_task_cases:
  "(dict_get (pendingBotTakeover r) seat \<noteq> Some marker \<longrightarrow>
      online_bot_takeover_task seat cid marker now r = (r, [])) \<and>
   (dict_get (pendingBotTakeover r) seat = Some marker \<and> phase (state r) \<noteq> Lobby \<and>
    seat \<in> set (dict_values (members r)) \<longrightarrow>
      state (fst (online_bot_takeover_task seat cid marker now r)) = state r \<and>
      dict_get (pendingBotTakeover (fst (online_bot_takeover_task seat cid marker now r))) seat = None) \<and>
   (dict_get (pendingBotTakeover r) seat = Some marker \<and> phase (state r) \<noteq> Lobby \<and>
    seat \<notin> set (dict_values (members r)) \<and> seat < length (names (state r)) \<and>
    (\<forall>c m. cid = Some c \<longrightarrow> dict_get (clients r) c = Some m \<longrightarrow> reconnect_grace \<le> now - lastSeen m) \<longrightarrow>
      state (fst (online_bot_takeover_task seat cid marker now r)) = fst (online_mark_seat_bot_takeover now seat (state r)) \<and>
      seat \<in> botSeats (state (fst (online_bot_takeover_task seat cid marker now r))))"
  using mark_takeover_bot [of "state r" seat now]
  by (auto simp: online_bot_takeover_task_def Let_def case_prod_beta split: option.splits)

subsection \<open>Lobby configuration\<close>

text \<open>
  C39: only the host (seat 0), alone in the room and in the lobby, may reconfigure it;
  anyone else gets an error and the room is unchanged.  An accepted reconfiguration
  replaces the game state by an initial state of \<open>game_reach\<close>.
\<close>

theorem online_update_lobby_guards:
  assumes "dict_get (online_purge_old_rooms now reg) (py_strip code_in) = Some r"
  shows "(dict_get (members r) sid \<noteq> Some 0 \<longrightarrow>
            online_update_lobby sid code_in players_in bots_in name_in now reg =
              (online_purge_old_rooms now reg, [EmitError ErrNotHost])) \<and>
         (dict_get (members r) sid = Some 0 \<and> phase (state r) = Lobby \<and> 1 < length (members r) \<longrightarrow>
            online_update_lobby sid code_in players_in bots_in name_in now reg =
              (online_purge_old_rooms now reg, [EmitError ErrOthersPresent])) \<and>
         (dict_get (members r) sid = Some 0 \<and> phase (state r) = Lobby \<and> length (members r) \<le> 1 \<longrightarrow>
            (\<exists>r'. online_update_lobby sid code_in players_in bots_in name_in now reg =
                    (dict_set (online_purge_old_rooms now reg) (py_strip code_in) r', [EmitState]) \<and>
                  members r' = members r \<and> game_reach allowed (state r')))"
proof (intro conjI impI)
  assume h: "dict_get (members r) sid = Some 0 \<and> phase (state r) = Lobby \<and> length (members r) \<le> 1"
  let ?k = "clamp_players (case players_in of Some p \<Rightarrow> p | None \<Rightarrow> int (n (state r)))"
  let ?b = "clamp_bots ?k bots_in"
  let ?r' = "r\<lparr>state := fresh_state ?k (initial_names ?k (host_name name_in (state r)) ?b) {1..<1 + ?b} now\<rparr>"
  have "game_reach allowed (state ?r')"
    using clamp_players_bounds [of "case players_in of Some p \<Rightarrow> p | None \<Rightarrow> int (n (state r))"]
    by (auto simp: length_initial_names clamp_bots_def intro!: game_reach.init)
  moreover have "online_update_lobby sid code_in players_in bots_in name_in now reg =
                   (dict_set (online_purge_old_rooms now reg) (py_strip code_in) ?r', [EmitState])"
    using assms h by (simp add: online_update_lobby_def Let_def)
  ultimately show "\<exists>r'. online_update_lobby sid code_in players_in bots_in name_in now reg =
                    (dict_set (online_purge_old_rooms now reg) (py_strip code_in) r', [EmitState]) \<and>
                  members r' = members r \<and> game_reach allowed (state r')"
    by auto
qed (use assms in \<open>auto simp: online_update_lobby_def Let_def\<close>)

subsection \<open>Disconnects\<close>

lemma cleanup_room_known:
  assumes "dict_get (members r) sid = Some seat" "dict_get (sidToClient r) sid = Some c"
    and "dict_get (clients r) c = Some m"
  shows "cleanup_room sid now r =
     (let r4 = r\<lparr>members := dict_pop (members r) sid, sidToClient := dict_pop (sidToClient r) sid\<rparr>
                \<lparr>clients := dict_set (clients r) c (m\<lparr>lastSeen := now\<rparr>)\<rparr>
                \<lparr>emptySince := (if dict_pop (members r) sid = [] then Some now else None)\<rparr>;
          eff = (if dict_pop (members r) sid = [] then [] else [EmitState])
      in if phase (state r) \<noteq> Lobby
         then let (r5, eff') = online_schedule_bot_takeover now seat (Some c) r4 in (r5, eff @ eff')
         else (r4, eff))"
  using assms by (simp add: cleanup_room_def Let_def dict_get_def dict_pop_def)

text \<open>
  C36: a disconnect keeps the seat reserved.  When a connection whose client id is
  known disconnects, \<open>_online_cleanup_sid\<close> removes it from the members, keeps the
  client's seat and refreshes its \<open>lastSeen\<close>, and leaves the game state alone; in a
  game in progress it arms a takeover timer for the seat, unless one is pending.
\<close>

theorem cleanup_keeps_reservation:
  assumes "dict_get (members r) sid = Some seat" "dict_get (sidToClient r) sid = Some c"
    and "dict_get (clients r) c = Some m"
  shows "dict_get (members (fst (cleanup_room sid now r))) sid = None \<and>
         dict_get (clients (fst (cleanup_room sid now r))) c = Some (m\<lparr>lastSeen := now\<rparr>) \<and>
         state (fst (cleanup_room sid now r)) = state r \<and>
         (phase (state r) \<noteq> Lobby \<and> dict_get (pendingBotTakeover r) seat = None \<longrightarrow>
            dict_get (pendingBotTakeover (fst (cleanup_room sid now r))) seat = Some now \<and>
            Spawn reconnect_grace (BotTakeover seat (Some c) now) \<in> set (snd (cleanup_room sid now r)))"
  unfolding cleanup_room_known [OF assms]
  by (simp add: Let_def online_schedule_bot_takeover_def)

text \<open>
  C37: a takeover lost to a quick reconnect.  A player whose seat still has a pending
  takeover marker from an earlier disconnect drops again: \<open>_online_schedule_bot_takeover\<close>
  sees the marker and arms no new timer.  When the earlier timer fires less than 30 s
  after the second disconnect, it clears the marker and returns, because the client
  was seen recently.  No timer is left and the seat is not a bot: the game waits for a
  player who is gone.
\<close>

theorem takeover_lost:
  assumes "phase (state r) \<noteq> Lobby" "seat \<notin> botSeats (state r)"
    and "dict_get (members r) sid = Some seat" "seat \<notin> set (dict_values (dict_pop (members r) sid))"
    and "dict_get (sidToClient r) sid = Some c" "dict_get (clients r) c = Some m"
    and "dict_get (pendingBotTakeover r) seat = Some marker" "now2 - now1 < reconnect_grace"
  shows "set (snd (cleanup_room sid now1 r)) \<subseteq> {EmitState} \<and>
         snd (online_bot_takeover_task seat (Some c) marker now2 (fst (cleanup_room sid now1 r))) = [] \<and>
         dict_get (pendingBotTakeover (fst (online_bot_takeover_task seat (Some c) marker now2
                                             (fst (cleanup_room sid now1 r))))) seat = None \<and>
         seat \<notin> botSeats (state (fst (online_bot_takeover_task seat (Some c) marker now2
                                        (fst (cleanup_room sid now1 r)))))"
  using assms unfolding cleanup_room_known [OF assms(3,5,6)]
  by (simp add: Let_def online_schedule_bot_takeover_def online_bot_takeover_task_def)

subsection \<open>Witnesses\<close>

lemmas char_of_eval = char_of_def bit_0

lemma format_code_lit: "format_code 1234 = ''1234''" "format_code 42 = ''0042''"
  by (simp_all add: format_code_def char_of_eval)

lemma create_args_lit: "opt_id ''h'' = Some ''h''" "name_or_default ''H'' ''Spiller 1'' = ''H''"
  by code_simp+

lemma replicate_4: "replicate 4 x = [x, x, x, x]"
  by (simp add: numeral_eq_Suc)

lemma run_created:
  "online_create_room 1 ''h'' ''H'' 4 0 [1234] 0 [] = Some ([(''1234'', room_created)], ''1234'', [EmitState])"
  by (simp add: online_create_room_def online_purge_old_rooms_def format_code_lit create_args_lit
      clamp_players_def clamp_bots_def new_room_def initial_names_def dict_get_def replicate_4)

lemma run_a_joined: "fst (online_join_room 2 ''1234'' ''A'' ''a'' 1000 [(''1234'', room_created)]) = [(''1234'', room_a_joined)]"
  by code_simp

lemma run_a_gone: "fst (online_cleanup_sid 2 2000 [(''1234'', room_a_joined)]) = [(''1234'', room_a_gone)]"
  by code_simp

lemma run_b_took: "fst (online_join_room 3 ''1234'' ''B'' ''b'' 40000 [(''1234'', room_a_gone)]) = [(''1234'', room_b_took)]"
  by code_simp

lemma run_shrunk:
  "fst (online_update_lobby 1 ''1234'' (Some 2) 0 [] 2000
     (fst (online_cleanup_sid 4 1500
       (fst (online_leave_room 3 ''1234'' ''b'' 1400
         (fst (online_leave_room 2 ''1234'' ''a'' 1300
           (fst (online_join_room 4 ''1234'' ''D'' ''d'' 1200
             (fst (online_join_room 3 ''1234'' ''B'' ''b'' 1100 [(''1234'', room_a_joined)]))))))))))) =
   [(''1234'', room_shrunk)]"
  by code_simp

lemma strip_1234: "py_strip ''1234'' = ''1234''" and valid_1234: "valid_room_code ''1234''"
  by code_simp+

lemma opt_id_lit: "opt_id ''a'' = Some ''a''" "opt_id ''d'' = Some ''d''"
  by code_simp+

lemma purge_live_room:
  "emptySince r = None \<Longrightarrow> dict_get (online_purge_old_rooms now [(c, r)]) c = Some r"
  by (simp add: online_purge_old_rooms_def room_expired_def dict_get_def)

lemmas witness_simps = strip_1234 valid_1234 opt_id_lit dict_get_def fresh_state_def

theorem room_code_roundtrip_witness: "valid_room_code ''0042'' \<and> code_value ''0042'' = 42"
  using room_code_roundtrip [of 42] by (simp add: format_code_lit)

theorem pick_room_code_terminates_witness:
  "pick_room_code [1234, 42] [(''1234'', room_created)] = Some ''0042'' \<and>
   dict_get [(''1234'', room_created)] ''0042'' = None"
proof -
  have p: "pick_room_code [1234, 42] [(''1234'', room_created)] = Some ''0042''"
    by (simp add: format_code_lit dict_get_def)
  then show ?thesis using pick_room_code_terminates [of "[1234, 42]" "[(''1234'', room_created)]" "''0042''"]
    by simp
qed

theorem online_create_room_init_witness:
  "\<exists>r. dict_get [(''1234'', room_created)] ''1234'' = Some r \<and> members r = [(1, 0)] \<and>
       game_reach (\<lambda>_. True) (state r)"
  using online_create_room_init [OF run_created, of "\<lambda>_. True"] by simp

theorem join_reattach_witness:
  "\<exists>r'. online_join_room 5 ''1234'' ''A'' ''a'' 3000 [(''1234'', room_a_gone)] =
          (dict_set (online_purge_old_rooms 3000 [(''1234'', room_a_gone)]) ''1234'' r', [EmitState]) \<and>
        dict_get (members r') 5 = Some 1"
proof -
  have v: "valid_room_code (py_strip ''1234'')" by (simp only: strip_1234 valid_1234)
  have h: "dict_get (online_purge_old_rooms 3000 [(''1234'', room_a_gone)]) (py_strip ''1234'') = Some room_a_gone"
    unfolding strip_1234 by (rule purge_live_room) simp
  have m: "dict_get (clients room_a_gone) ''a'' = Some \<lparr>cl_seat = 1, lastSeen = 2000\<rparr>"
    by (simp add: dict_get_def)
  have l: "cl_seat \<lparr>cl_seat = 1, lastSeen = 2000\<rparr> < length (names (state room_a_gone))"
    by (simp add: fresh_state_def)
  from join_reattach [where sid = 5 and name_in = "''A''", OF v h opt_id_lit(1) m l]
  show ?thesis unfolding strip_1234 client_meta.select_convs by blast
qed

theorem join_shares_seat_witness:
  "\<exists>r'. online_join_room 4 ''1234'' ''A'' ''a'' 41000 [(''1234'', room_b_took)] =
          (dict_set (online_purge_old_rooms 41000 [(''1234'', room_b_took)]) ''1234'' r', [EmitState]) \<and>
        dict_get (members r') 4 = Some 1 \<and> dict_get (members r') 3 = Some 1"
proof -
  have v: "valid_room_code (py_strip ''1234'')" by (simp only: strip_1234 valid_1234)
  have h: "dict_get (online_purge_old_rooms 41000 [(''1234'', room_b_took)]) (py_strip ''1234'') = Some room_b_took"
    unfolding strip_1234 by (rule purge_live_room) simp
  have m: "dict_get (clients room_b_took) ''a'' = Some \<lparr>cl_seat = 1, lastSeen = 2000\<rparr>"
    by (simp add: dict_get_def)
  have l: "cl_seat \<lparr>cl_seat = 1, lastSeen = 2000\<rparr> < length (names (state room_b_took))"
    by (simp add: fresh_state_def)
  have o: "dict_get (members room_b_took) 3 = Some (cl_seat \<lparr>cl_seat = 1, lastSeen = 2000\<rparr>)"
    by (simp add: dict_get_def)
  have d: "(3::nat) \<noteq> 4" by simp
  have c: "(3, ''a'') \<notin> set (sidToClient room_b_took)" by simp
  from join_shares_seat [where name_in = "''A''", OF v h opt_id_lit(1) m l o d c]
  show ?thesis unfolding strip_1234 client_meta.select_convs .
qed

theorem join_stale_seat_crash_witness:
  "\<exists>r'. online_join_room 5 ''1234'' ''D'' ''d'' 3000 [(''1234'', room_shrunk)] =
          (dict_set (online_purge_old_rooms 3000 [(''1234'', room_shrunk)]) ''1234'' r', [Crash]) \<and>
        dict_get (members r') 5 = Some 3 \<and> state r' = state room_shrunk"
proof -
  have v: "valid_room_code (py_strip ''1234'')" by (simp only: strip_1234 valid_1234)
  have h: "dict_get (online_purge_old_rooms 3000 [(''1234'', room_shrunk)]) (py_strip ''1234'') = Some room_shrunk"
    unfolding strip_1234 by (rule purge_live_room) simp
  have m: "dict_get (clients room_shrunk) ''d'' = Some \<lparr>cl_seat = 3, lastSeen = 1500\<rparr>"
    by (simp add: dict_get_def)
  have l: "length (names (state room_shrunk)) \<le> cl_seat \<lparr>cl_seat = 3, lastSeen = 1500\<rparr>"
    by (simp add: fresh_state_def)
  from join_stale_seat_crash [where sid = 5 and name_in = "''D''", OF v h opt_id_lit(2) m l]
  show ?thesis unfolding strip_1234 client_meta.select_convs .
qed


theorem bot_takeover_task_cases_witness:
  "1 \<in> botSeats (state (fst (online_bot_takeover_task 1 (Some ''a'') 4000 40000 room_dropped)))"
proof -
  have t: "dict_get (pendingBotTakeover room_dropped) 1 = Some 4000 \<and> phase (state room_dropped) \<noteq> Lobby \<and>
           1 \<notin> set (dict_values (members room_dropped)) \<and> 1 < length (names (state room_dropped)) \<and>
           (\<forall>c m. Some ''a'' = Some c \<longrightarrow> dict_get (clients room_dropped) c = Some m \<longrightarrow>
              reconnect_grace \<le> 40000 - lastSeen m)"
    by (simp add: dict_get_def dict_values_def fresh_state_def reconnect_grace_def)
  show ?thesis
    using bot_takeover_task_cases [of room_dropped 1 4000 "Some ''a''" 40000] t by blast
qed

theorem online_update_lobby_guards_witness:
  "online_update_lobby 2 ''1234'' (Some 6) 1 [] 1500 [(''1234'', room_a_joined)] =
     (online_purge_old_rooms 1500 [(''1234'', room_a_joined)], [EmitError ErrNotHost])"
proof -
  have h: "dict_get (online_purge_old_rooms 1500 [(''1234'', room_a_joined)]) (py_strip ''1234'') = Some room_a_joined"
    unfolding strip_1234 by (rule purge_live_room) simp
  show ?thesis
    using online_update_lobby_guards [OF h, of 2 "Some 6" 1 "[]" "\<lambda>_. True"] by (simp add: dict_get_def)
qed

theorem cleanup_keeps_reservation_witness:
  "dict_get (members (fst (cleanup_room 2 10000 room_back))) 2 = None \<and>
   dict_get (pendingBotTakeover (fst (cleanup_room 2 10000 (room_back\<lparr>pendingBotTakeover := []\<rparr>)))) 1 = Some 10000"
proof -
  have a: "dict_get (members room_back) 2 = Some 1" "dict_get (sidToClient room_back) 2 = Some ''a''"
    "dict_get (clients room_back) ''a'' = Some \<lparr>cl_seat = 1, lastSeen = 9000\<rparr>"
    "phase (state room_back) \<noteq> Lobby"
    by (simp_all add: dict_get_def fresh_state_def)
  have b: "dict_get (pendingBotTakeover (room_back\<lparr>pendingBotTakeover := []\<rparr>)) 1 = None"
    by (simp add: dict_get_def)
  show ?thesis
    using cleanup_keeps_reservation [OF a(1-3), of 10000]
      cleanup_keeps_reservation [of "room_back\<lparr>pendingBotTakeover := []\<rparr>" 2 1 "''a''", simplified] a b
    by simp
qed

theorem takeover_lost_witness:
  "snd (online_bot_takeover_task 1 (Some ''a'') 4000 34000 (fst (cleanup_room 2 10000 room_back))) = [] \<and>
   1 \<notin> botSeats (state (fst (online_bot_takeover_task 1 (Some ''a'') 4000 34000 (fst (cleanup_room 2 10000 room_back)))))"
proof -
  have a: "phase (state room_back) \<noteq> Lobby" "(1::nat) \<notin> botSeats (state room_back)"
    "dict_get (members room_back) 2 = Some 1" "1 \<notin> set (dict_values (dict_pop (members room_back) 2))"
    "dict_get (sidToClient room_back) 2 = Some ''a''"
    "dict_get (clients room_back) ''a'' = Some \<lparr>cl_seat = 1, lastSeen = 9000\<rparr>"
    "dict_get (pendingBotTakeover room_back) 1 = Some 4000" "(34000::int) - 10000 < reconnect_grace"
    by (simp_all add: dict_get_def dict_values_def dict_pop_def fresh_state_def reconnect_grace_def)
  show ?thesis using takeover_lost [OF a] by simp
qed

end
