(* ===== verification/Registry.thy ===== *)
theory Registry
  imports Room
begin

text \<open>
  The whole server as one step relation on \<open>ONLINE_ROOMS\<close>.  \<open>room_event\<close> names
  every socket handler and every background task; \<open>reg_step\<close> runs one of them to
  completion on the registry (handlers and tasks are atomic steps, see the header of
  \<open>Spec2Isabelle\<close>); \<open>reg_reach\<close> holds of every registry that some sequence of them
  produces from the empty one.  A background task finds its room by the code it
  captured when it was scheduled and does nothing when the room is gone.
\<close>

text \<open>\<open>room = ONLINE_ROOMS.get(code); if not room: return\<close>, then the task body on the state.\<close>

definition room_task :: "string \<Rightarrow> (game_state \<Rightarrow> game_state \<times> effect list) \<Rightarrow> registry \<Rightarrow> registry \<times> effect list" where
  "room_task code f reg =
     (case dict_get reg code of
        None \<Rightarrow> (reg, [])
      | Some r \<Rightarrow> let (r', eff) = on_state f r in (dict_set reg code r', eff))"

definition online_takeover_timer ::
  "string \<Rightarrow> seat \<Rightarrow> client_id option \<Rightarrow> time \<Rightarrow> time \<Rightarrow> registry \<Rightarrow> registry \<times> effect list" where
  "online_takeover_timer code seat cid marker now reg =
     (case dict_get reg code of
        None \<Rightarrow> (reg, [])
      | Some r \<Rightarrow> let (r', eff) = online_bot_takeover_task seat cid marker now r in (dict_set reg code r', eff))"

datatype room_event =
    RCreate sid string string int int "nat list" time
  | RJoin sid string string string time
  | RLeave sid string string time
  | RDisconnect sid time
  | RUpdateLobby sid string "int option" int string time
  | RStartGame string time "card list"
  | RSetBid sid string "int option" time
  | RPlayCard sid string string time
  | RNext string time "card list"
  | RTakeoverTimer string seat "client_id option" time time
  | RFinishDeal string nat time
  | RBotTurn string time
  | RAutoNextTrick string nat time
  | RAutoNextTrickResume string nat time
  | RAutoNextRound string nat time "card list"
  | RWatchdog string time

text \<open>
  A creation whose code loop has not ended (the draws ran out) has already purged the
  registry and published nothing else.
\<close>

fun reg_step :: "room_event \<Rightarrow> registry \<Rightarrow> registry" where
  "reg_step (RCreate sid cid nm p b draws now) reg =
     (case online_create_room sid cid nm p b draws now reg of
        None \<Rightarrow> online_purge_old_rooms now reg
      | Some (reg', _, _) \<Rightarrow> reg')"
| "reg_step (RJoin sid code nm cid now) reg = fst (online_join_room sid code nm cid now reg)"
| "reg_step (RLeave sid code cid now) reg = fst (online_leave_room sid code cid now reg)"
| "reg_step (RDisconnect sid now) reg = fst (online_cleanup_sid sid now reg)"
| "reg_step (RUpdateLobby sid code p b nm now) reg = fst (online_update_lobby sid code p b nm now reg)"
| "reg_step (RStartGame code now deck) reg = fst (online_start_game_handler code now deck reg)"
| "reg_step (RSetBid sid code bid now) reg = fst (online_set_bid_handler sid code bid now reg)"
| "reg_step (RPlayCard sid code key now) reg = fst (online_play_card_handler sid code key now reg)"
| "reg_step (RNext code now deck) reg = fst (online_next_handler code now deck reg)"
| "reg_step (RTakeoverTimer code seat cid marker now) reg = fst (online_takeover_timer code seat cid marker now reg)"
| "reg_step (RFinishDeal code did now) reg = fst (room_task code (online_finish_deal did now) reg)"
| "reg_step (RBotTurn code now) reg = fst (room_task code (online_bot_turn_task now) reg)"
| "reg_step (RAutoNextTrick code ri now) reg = fst (room_task code (online_auto_next_trick ri now) reg)"
| "reg_step (RAutoNextTrickResume code ri now) reg = fst (room_task code (online_auto_next_trick_resume ri now) reg)"
| "reg_step (RAutoNextRound code ri now deck) reg = fst (room_task code (online_auto_next_round ri now deck) reg)"
| "reg_step (RWatchdog code now) reg = fst (room_task code (online_watchdog_tick now) reg)"

inductive reg_reach :: "registry \<Rightarrow> bool" where
  empty: "reg_reach []"
| step: "reg_reach reg \<Longrightarrow> reg_reach (reg_step ev reg)"

text \<open>\<open>ONLINE_ROOMS\<close> is a dictionary (no code twice) and every room's game state is well formed.\<close>

definition reg_inv :: "registry \<Rightarrow> bool" where
  "reg_inv reg \<longleftrightarrow> distinct (dict_keys reg) \<and> (\<forall>(c, r) \<in> set reg. wf_state (state r))"

subsection \<open>The registry invariant\<close>

lemma reg_inv_set [intro]: "reg_inv reg \<Longrightarrow> wf_state (state r) \<Longrightarrow> reg_inv (dict_set reg c r)"
  unfolding reg_inv_def using set_dict_set_sub [of reg c r] by auto

lemma reg_inv_get: "reg_inv reg \<Longrightarrow> dict_get reg c = Some r \<Longrightarrow> wf_state (state r)"
  unfolding reg_inv_def dict_get_def by (auto dest: map_of_SomeD)

lemma reg_inv_purge [intro]: "reg_inv reg \<Longrightarrow> reg_inv (online_purge_old_rooms now reg)"
  by (auto simp: reg_inv_def online_purge_old_rooms_def dict_keys_def distinct_map_filter)

lemma wf_set_name: "set_name s v r = Some r' \<Longrightarrow> wf_state (state r) \<Longrightarrow> wf_state (state r')"
  by (auto simp: set_name_def wf_state_def split: if_splits)

lemma wf_takeover_any:
  assumes wf: "wf_state st"
  shows "wf_state (fst (online_mark_seat_bot_takeover now seat st))"
proof (cases "seat < n st")
  case True
  then show ?thesis using wf by (rule wf_takeover [rotated])
next
  case False
  then have "seat \<notin> botSeats st" and "length (names st) \<le> seat"
    using wf by (auto simp: wf_state_def)
  then show ?thesis using wf by (simp add: online_mark_seat_bot_takeover_def)
qed

lemma join_seat_state: "join_seat now cid r = Some (s, r') \<Longrightarrow> state r' = state r"
  by (auto simp: join_seat_def split: option.splits)

lemma state_on_state [simp]: "state (fst (on_state f r)) = fst (f (state r))"
  by (simp add: on_state_def case_prod_beta)

lemma state_schedule_takeover [simp]: "state (fst (online_schedule_bot_takeover now seat cid r)) = state r"
  by (simp add: online_schedule_bot_takeover_def)

lemma wf_fresh_room:
  "wf_state (fresh_state (clamp_players p) (initial_names (clamp_players p) h (clamp_bots (clamp_players p) b))
     {Suc 0..<Suc (clamp_bots (clamp_players p) b)} now)"
  using clamp_players_bounds [of p]
  by (intro wf_fresh_state) (auto simp: length_initial_names clamp_bots_def)

lemma reg_inv_with_room:
  assumes "reg_inv reg" and "\<And>r. wf_state (state r) \<Longrightarrow> wf_state (state (fst (f r)))"
  shows "reg_inv (fst (with_room code f reg))"
  using assms reg_inv_get [OF assms(1)]
  by (auto simp: with_room_def Let_def case_prod_beta split: option.splits)

lemma reg_inv_room_task:
  assumes "reg_inv reg" and "\<And>st. wf_state st \<Longrightarrow> wf_state (fst (f st))"
  shows "reg_inv (fst (room_task code f reg))"
  using assms reg_inv_get [OF assms(1)]
  by (auto simp: room_task_def case_prod_beta split: option.splits)

lemma wf_takeover_task: "wf_state (state r) \<Longrightarrow> wf_state (state (fst (online_bot_takeover_task seat cid marker now r)))"
  by (auto simp: online_bot_takeover_task_def Let_def case_prod_beta wf_takeover_any split: option.splits)

lemma reg_inv_takeover_timer: "reg_inv reg \<Longrightarrow> reg_inv (fst (online_takeover_timer code seat cid marker now reg))"
  using reg_inv_get [of reg code]
  by (auto simp: online_takeover_timer_def case_prod_beta wf_takeover_task split: option.splits)

lemma reg_inv_create:
  "reg_inv reg \<Longrightarrow> online_create_room sid cid nm p b draws now reg = Some (reg', c, e) \<Longrightarrow> reg_inv reg'"
  by (auto simp: online_create_room_def Let_def new_room_def wf_fresh_room split: option.splits)

lemma reg_inv_update_lobby: "reg_inv reg \<Longrightarrow> reg_inv (fst (online_update_lobby sid code p b nm now reg))"
  by (auto simp: online_update_lobby_def Let_def wf_fresh_room split: option.splits)

lemma reg_inv_join: "reg_inv reg \<Longrightarrow> reg_inv (fst (online_join_room sid code nm cid now reg))"
proof -
  assume inv: "reg_inv reg"
  let ?reg1 = "online_purge_old_rooms now reg"
  have i1: "reg_inv ?reg1" using inv by blast
  show ?thesis
  proof (cases "dict_get ?reg1 (py_strip code)")
    case None
    then show ?thesis using i1 by (simp add: online_join_room_def Let_def)
  next
    case (Some r0)
    have w0: "wf_state (state r0)" using reg_inv_get [OF i1 Some] .
    have "wf_state (state r6)" if "join_seat now (opt_id cid) (r0\<lparr>emptySince := None\<rparr>) = Some (seat, r2)"
      and "set_name seat v (r5 :: room) = Some r6" and "state r5 = state r2" for seat r2 r5 r6 v
      using wf_set_name [OF that(2)] join_seat_state [OF that(1)] that(3) w0 by simp
    then show ?thesis using i1 Some w0 join_seat_state
      by (auto simp: online_join_room_def Let_def split: option.splits prod.splits)
  qed
qed

lemma set_name_state_wf: "set_name s v r = Some r' \<Longrightarrow> wf_state (state r') = wf_state (state r)"
  by (auto simp: set_name_def wf_state_def split: if_splits)

lemma reg_inv_leave: "reg_inv reg \<Longrightarrow> reg_inv (fst (online_leave_room sid code cid now reg))"
proof -
  assume inv: "reg_inv reg"
  show ?thesis
  proof (cases "dict_get reg (py_strip code)")
    case None
    then show ?thesis using inv by (simp add: online_leave_room_def Let_def)
  next
    case (Some r0)
    have w0: "wf_state (state r0)" using reg_inv_get [OF inv Some] .
    then show ?thesis using inv Some
      by (auto simp: online_leave_room_def Let_def case_prod_beta wf_takeover_any set_name_state_wf
          split: option.splits)
  qed
qed

lemma wf_cleanup_room: "wf_state (state r) \<Longrightarrow> wf_state (state (fst (cleanup_room sid now r)))"
  by (auto simp: cleanup_room_def Let_def case_prod_beta set_name_state_wf split: option.splits)

lemma reg_inv_cleanup_rooms:
  assumes "reg_inv (fst acc)" and "\<forall>(c, r) \<in> set rs. wf_state (state r)"
  shows "reg_inv (fst (cleanup_rooms sid now rs acc))"
  using assms
proof (induction rs arbitrary: acc)
  case Nil
  then show ?case by simp
next
  case (Cons x rs)
  obtain code r where x: "x = (code, r)" by (cases x)
  obtain reg' out where acc: "acc = (reg', out)" by (cases acc)
  obtain r' e where cr: "cleanup_room sid now r = (r', e)" by (cases "cleanup_room sid now r")
  have "wf_state (state r')"
    using wf_cleanup_room [of r sid now] Cons.prems(2) x cr by simp
  then have i: "reg_inv (dict_set reg' code r')"
    using Cons.prems(1) acc by (simp add: reg_inv_set)
  show ?case
    using Cons.IH [of "(dict_set reg' code r', out @ [(code, e)])"] i Cons.prems(2) x acc cr by (simp add: Let_def)
qed

lemma reg_inv_cleanup_sid: "reg_inv reg \<Longrightarrow> reg_inv (fst (online_cleanup_sid sid now reg))"
  unfolding online_cleanup_sid_def by (rule reg_inv_cleanup_rooms) (auto simp: reg_inv_def)

lemma reg_inv_step: "reg_inv reg \<Longrightarrow> reg_inv (reg_step ev reg)"
proof (cases ev)
  case (RCreate sid cid nm p b draws now)
  then show "reg_inv reg \<Longrightarrow> ?thesis"
    by (auto dest: reg_inv_create split: option.splits)
qed (auto simp: reg_inv_join reg_inv_leave reg_inv_cleanup_sid reg_inv_update_lobby reg_inv_takeover_timer
       online_start_game_handler_def online_set_bid_handler_def online_play_card_handler_def
       online_next_handler_def wf_start_game wf_set_bid wf_play_card wf_online_next wf_finish_deal wf_bot_turn
       wf_auto_next_trick wf_auto_next_trick_resume wf_auto_next_round wf_watchdog_tick
       intro!: reg_inv_with_room reg_inv_room_task)

text \<open>
  \<open>ONLINE_ROOMS\<close> keeps its shape.  In every registry that any sequence of
  handlers and background tasks produces from the empty one, including the sequences
  that hit the crashes and races of the findings, no room code occurs twice and every
  room's game state is well formed (\<open>wf_state\<close>: per-seat lists of length \<open>n\<close>,
  seats, bot seats and winner below \<open>n\<close>, a round index within the schedule).
\<close>

theorem reg_reach_inv: "reg_reach reg \<Longrightarrow> reg_inv reg"
proof (induction rule: reg_reach.induct)
  case empty
  show ?case by (simp add: reg_inv_def dict_keys_def)
next
  case (step reg ev)
  from step.IH show ?case by (rule reg_inv_step)
qed

theorem reg_reach_inv_witness: "reg_inv [(''1234'', room_b_took)]"
proof -
  have c: "reg_step (RCreate 1 ''h'' ''H'' 4 0 [1234] 0) [] = [(''1234'', room_created)]"
    by (simp only: reg_step.simps run_created option.case prod.case)
  have r1: "reg_reach [(''1234'', room_created)]"
    using reg_reach.step [OF reg_reach.empty, of "RCreate 1 ''h'' ''H'' 4 0 [1234] 0"] by (simp only: c)
  have r2: "reg_reach [(''1234'', room_a_joined)]"
    using reg_reach.step [OF r1, of "RJoin 2 ''1234'' ''A'' ''a'' 1000"] by (simp only: reg_step.simps run_a_joined)
  have r3: "reg_reach [(''1234'', room_a_gone)]"
    using reg_reach.step [OF r2, of "RDisconnect 2 2000"] by (simp only: reg_step.simps run_a_gone)
  have r4: "reg_reach [(''1234'', room_b_took)]"
    using reg_reach.step [OF r3, of "RJoin 3 ''1234'' ''B'' ''b'' 40000"] by (simp only: reg_step.simps run_b_took)
  show ?thesis using r4 by (rule reg_reach_inv)
qed

end
