(* ===== verification/Sched.thy ===== *)
theory Sched
  imports Registry
begin

text \<open>
  The scheduler: \<open>socketio.start_background_task\<close> and the tasks it runs.  A handler
  or task that returns \<open>Spawn d t\<close> starts a background task \<open>t\<close> for its room; the
  task sleeps and then runs once, as the \<open>room_event\<close> of \<open>task_event\<close> at the time
  it wakes.  The pending tasks form a multiset of (room code, task) pairs: any pending
  task may fire next, and handlers may run at any moment, so every interleaving of
  handlers and timers is a run of \<open>sched_reach\<close>.  Sleep lengths are not enforced:
  a run may fire a task earlier than the code would, so \<open>sched_reach\<close> contains every
  schedule the code can produce.
\<close>

definition spawned :: "string \<Rightarrow> effect list \<Rightarrow> (string \<times> task) list" where
  "spawned c eff = concat (map (\<lambda>e. case e of Spawn d t \<Rightarrow> [(c, t)] | _ \<Rightarrow> []) eff)"

definition tagged :: "string \<Rightarrow> registry \<times> effect list \<Rightarrow> registry \<times> (string \<times> task) list" where
  "tagged c re = (fst re, spawned c (snd re))"

text \<open>One step on the registry with the tasks it starts, tagged with their room's code.\<close>

fun reg_run :: "room_event \<Rightarrow> registry \<Rightarrow> registry \<times> (string \<times> task) list" where
  "reg_run (RCreate sid cid nm p b draws now) reg =
     (case online_create_room sid cid nm p b draws now reg of
        None \<Rightarrow> (online_purge_old_rooms now reg, [])
      | Some (reg', c, eff) \<Rightarrow> (reg', spawned c eff))"
| "reg_run (RJoin sid code nm cid now) reg = tagged (py_strip code) (online_join_room sid code nm cid now reg)"
| "reg_run (RLeave sid code cid now) reg = tagged (py_strip code) (online_leave_room sid code cid now reg)"
| "reg_run (RDisconnect sid now) reg =
     (let (reg', out) = online_cleanup_sid sid now reg in (reg', concat (map (\<lambda>(c, eff). spawned c eff) out)))"
| "reg_run (RUpdateLobby sid code p b nm now) reg = tagged (py_strip code) (online_update_lobby sid code p b nm now reg)"
| "reg_run (RStartGame code now deck) reg = tagged (py_strip code) (online_start_game_handler code now deck reg)"
| "reg_run (RSetBid sid code bid now) reg = tagged (py_strip code) (online_set_bid_handler sid code bid now reg)"
| "reg_run (RPlayCard sid code key now) reg = tagged (py_strip code) (online_play_card_handler sid code key now reg)"
| "reg_run (RNext code now deck) reg = tagged (py_strip code) (online_next_handler code now deck reg)"
| "reg_run (RTakeoverTimer code seat cid marker now) reg = tagged code (online_takeover_timer code seat cid marker now reg)"
| "reg_run (RFinishDeal code did now) reg = tagged code (room_task code (online_finish_deal did now) reg)"
| "reg_run (RBotTurn code now) reg = tagged code (room_task code (online_bot_turn_task now) reg)"
| "reg_run (RAutoNextTrick code ri now) reg = tagged code (room_task code (online_auto_next_trick ri now) reg)"
| "reg_run (RAutoNextTrickResume code ri now) reg = tagged code (room_task code (online_auto_next_trick_resume ri now) reg)"
| "reg_run (RAutoNextRound code ri now deck) reg = tagged code (room_task code (online_auto_next_round ri now deck) reg)"
| "reg_run (RWatchdog code now) reg = tagged code (room_task code (online_watchdog_tick now) reg)"

text \<open>The event a pending task runs when it wakes at \<open>now\<close>; a new round shuffles \<open>deck\<close>.\<close>

fun task_event :: "string \<Rightarrow> time \<Rightarrow> card list \<Rightarrow> task \<Rightarrow> room_event" where
  "task_event c now deck (DealFinish did) = RFinishDeal c did now"
| "task_event c now deck BotTurn = RBotTurn c now"
| "task_event c now deck Watchdog = RWatchdog c now"
| "task_event c now deck (AutoNextTrick ri) = RAutoNextTrick c ri now"
| "task_event c now deck (AutoNextTrickResume ri) = RAutoNextTrickResume c ri now"
| "task_event c now deck (AutoNextRound ri) = RAutoNextRound c ri now deck"
| "task_event c now deck (BotTakeover seat cid marker) = RTakeoverTimer c seat cid marker now"

fun is_handler :: "room_event \<Rightarrow> bool" where
  "is_handler (RCreate _ _ _ _ _ _ _) = True"
| "is_handler (RJoin _ _ _ _ _) = True"
| "is_handler (RLeave _ _ _ _) = True"
| "is_handler (RDisconnect _ _) = True"
| "is_handler (RUpdateLobby _ _ _ _ _ _) = True"
| "is_handler (RStartGame _ _ _) = True"
| "is_handler (RSetBid _ _ _ _) = True"
| "is_handler (RPlayCard _ _ _ _) = True"
| "is_handler (RNext _ _ _) = True"
| "is_handler _ = False"

inductive sched_reach :: "registry \<Rightarrow> (string \<times> task) multiset \<Rightarrow> bool" where
  init: "sched_reach [] {#}"
| handler: "sched_reach reg P \<Longrightarrow> is_handler ev \<Longrightarrow> reg_run ev reg = (reg', ts) \<Longrightarrow>
            sched_reach reg' (P + mset ts)"
| fire: "sched_reach reg P \<Longrightarrow> (c, t) \<in># P \<Longrightarrow> reg_run (task_event c now deck t) reg = (reg', ts) \<Longrightarrow>
         sched_reach reg' (P - {#(c, t)#} + mset ts)"

subsection \<open>The scheduled server refines the step relation\<close>

lemma reg_run_step: "fst (reg_run ev reg) = reg_step ev reg"
  by (cases ev) (simp_all add: tagged_def case_prod_beta split: option.splits)

lemma sched_reach_reg_reach: "sched_reach reg P \<Longrightarrow> reg_reach reg"
proof (induction rule: sched_reach.induct)
  case init
  show ?case by (rule reg_reach.empty)
next
  case (handler reg P ev reg' ts)
  then show ?case using reg_run_step [of ev reg] reg_reach.step [of reg ev] by simp
next
  case (fire reg P c t now deck reg' ts)
  then show ?case using reg_run_step [of "task_event c now deck t" reg] reg_reach.step [of reg] by simp
qed

text \<open>
  C4: the invariant under the real scheduler.  Every registry that the server reaches,
  whatever the interleaving of handlers and of the background tasks they start (each
  task firing once, after it was started), is a registry of the step relation
  \<open>reg_reach\<close>: no room code occurs twice and every room's game state is well formed.
\<close>

theorem sched_reach_inv: "sched_reach reg P \<Longrightarrow> reg_reach reg \<and> reg_inv reg"
  using sched_reach_reg_reach reg_reach_inv by blast

subsection \<open>Witnesses\<close>

lemma run_a_joined_eff:
  "online_join_room 2 ''1234'' ''A'' ''a'' 1000 [(''1234'', room_created)] = ([(''1234'', room_a_joined)], [EmitState])"
  by code_simp

theorem sched_reach_inv_witness: "reg_reach [(''1234'', room_a_joined)] \<and> reg_inv [(''1234'', room_a_joined)]"
proof -
  have c: "reg_run (RCreate 1 ''h'' ''H'' 4 0 [1234] 0) [] = ([(''1234'', room_created)], [])"
    by (simp only: reg_run.simps run_created option.case prod.case) (simp add: spawned_def)
  have j: "reg_run (RJoin 2 ''1234'' ''A'' ''a'' 1000) [(''1234'', room_created)] = ([(''1234'', room_a_joined)], [])"
    by (simp only: reg_run.simps run_a_joined_eff tagged_def) (simp add: spawned_def)
  have s1: "sched_reach [(''1234'', room_created)] {#}"
    using sched_reach.handler [OF sched_reach.init _ c] by simp
  have "sched_reach [(''1234'', room_a_joined)] {#}"
    using sched_reach.handler [OF s1 _ j] by simp
  then show ?thesis by (rule sched_reach_inv)
qed

end
