(* ===== verification/View.thy ===== *)
theory View
  imports Room
begin

text \<open>
  The broadcaster (\<open>src/app.py\<close>, \<open>_online_public_state\<close> and
  \<open>_online_emit_full_state\<close>): what a room sends after a state change.  One message
  with the public fields goes to the whole room, then every member, in the insertion
  order of \<open>room["members"]\<close>, gets the public fields with a \<open>hands\<close> list in which
  the hands it may not see are \<open>None\<close>.  An \<open>IndexError\<close> in the loop (a member on
  a seat beyond \<open>st["hands"]\<close>) ends it: the messages sent before it stay sent and
  the members after it get nothing.
\<close>

record public_view =
  pv_n :: nat
  pv_names :: "string option list"
  pv_roundIndex :: nat
  pv_cardsPer :: "nat option"
  pv_leader :: seat
  pv_turn :: seat
  pv_leadSuit :: "suit option"
  pv_table :: "card option list"
  pv_winner :: "seat option"
  pv_phase :: phase
  pv_bids :: "nat option list"
  pv_tricksRound :: "nat list"
  pv_tricksTotal :: "nat list"
  pv_pointsTotal :: "int list"
  pv_history :: "round_record list"
  pv_botSeats :: "seat list"
  pv_dealId :: nat
  pv_dealSeq :: "seat list option"

definition online_public_state :: "game_state \<Rightarrow> public_view" where
  "online_public_state st =
     \<lparr>pv_n = n st, pv_names = names st, pv_roundIndex = roundIndex st, pv_cardsPer = cardsPer st,
      pv_leader = leader st, pv_turn = turn st, pv_leadSuit = leadSuit st, pv_table = table st,
      pv_winner = winner st, pv_phase = phase st, pv_bids = bids st, pv_tricksRound = tricksRound st,
      pv_tricksTotal = tricksTotal st, pv_pointsTotal = pointsTotal st, pv_history = history st,
      pv_botSeats = sorted_list_of_set (botSeats st), pv_dealId = dealId st, pv_dealSeq = dealSeq st\<rparr>"

text \<open>\<open>int(st.get("cardsPer") or 0) == 1 and phase in ("dealing", "bidding")\<close>\<close>

definition shows_opponents :: "game_state \<Rightarrow> bool" where
  "shows_opponents st \<longleftrightarrow>
     (case cardsPer st of None \<Rightarrow> 0 | Some c \<Rightarrow> c) = 1 \<and> phase st \<in> {Dealing, Bidding}"

text \<open>The \<open>hands\<close> list of the payload for \<open>seat\<close>.\<close>

definition hands_view :: "game_state \<Rightarrow> seat \<Rightarrow> card list option list" where
  "hands_view st seat =
     (if shows_opponents st then map (\<lambda>i. if i \<noteq> seat then Some (hands st ! i) else None) [0..<n st]
      else map (\<lambda>i. if i = seat then Some (hands st ! seat) else None) [0..<n st])"

text \<open>
  \<open>st["hands"][seat]\<close> (line 681) and, under the special rule, \<open>st["hands"][i]\<close> for
  every \<open>i < n\<close> are the indexing that can raise.
\<close>

definition view_ok :: "game_state \<Rightarrow> seat \<Rightarrow> bool" where
  "view_ok st seat \<longleftrightarrow> seat < length (hands st) \<and> (shows_opponents st \<longrightarrow> n st \<le> length (hands st))"

datatype out_msg =
    OutPublic public_view
  | OutPrivate sid seat public_view "card list option list"

fun emit_private :: "game_state \<Rightarrow> (sid, seat) dict \<Rightarrow> out_msg list \<times> bool" where
  "emit_private st [] = ([], False)"
| "emit_private st ((sid, seat) # ms) =
     (if view_ok st seat
      then let (out, crashed) = emit_private st ms
           in (OutPrivate sid seat (online_public_state st) (hands_view st seat) # out, crashed)
      else ([], True))"

text \<open>The messages in the order they are sent, and whether the loop raised.\<close>

definition online_emit_full_state :: "room \<Rightarrow> out_msg list \<times> bool" where
  "online_emit_full_state r =
     (let (out, crashed) = emit_private (state r) (members r)
      in (OutPublic (online_public_state (state r)) # out, crashed))"

text \<open>What connection \<open>sid\<close> receives: the room broadcast and its own messages.\<close>

fun msgs_to :: "sid \<Rightarrow> out_msg list \<Rightarrow> out_msg list" where
  "msgs_to sid [] = []"
| "msgs_to sid (OutPublic v # ms) = OutPublic v # msgs_to sid ms"
| "msgs_to sid (OutPrivate sid' s v h # ms) =
     (if sid' = sid then OutPrivate sid' s v h # msgs_to sid ms else msgs_to sid ms)"

text \<open>
  Rooms for the witnesses: \<open>room_stale\<close> is what the crashing join of D (connection 5,
  reservation on seat 3) leaves of the shrunk two-seat room of \<open>Room\<close>;
  \<open>room_mid_trick\<close> holds a trick in progress with connections 1 and 2 on seats 0 and 1.
\<close>

abbreviation room_stale :: room where
  "room_stale \<equiv> room_shrunk\<lparr>members := [(1, 0), (5, 3)],
     clients := [(''h'', \<lparr>cl_seat = 0, lastSeen = 0\<rparr>), (''d'', \<lparr>cl_seat = 3, lastSeen = 3000\<rparr>)],
     sidToClient := [(1, ''h''), (5, ''d'')]\<rparr>"

abbreviation room_mid_trick :: room where
  "room_mid_trick \<equiv> lobby_room [(1, 0), (2, 1)] [] [] mid_trick"

subsection \<open>What a connection is sent\<close>

lemma public_state_hands [simp]: "online_public_state (st\<lparr>hands := hs\<rparr>) = online_public_state st"
  by (simp add: online_public_state_def)

lemma shows_opponents_hands [simp]: "shows_opponents (st\<lparr>hands := hs\<rparr>) = shows_opponents st"
  by (simp add: shows_opponents_def)

lemma view_ok_hands [simp]: "length hs = length (hands st) \<Longrightarrow> view_ok (st\<lparr>hands := hs\<rparr>) s = view_ok st s"
  by (simp add: view_ok_def)

lemma hands_view_own:
  "\<not> shows_opponents st \<Longrightarrow> hs ! s = hands st ! s \<Longrightarrow> hands_view (st\<lparr>hands := hs\<rparr>) s = hands_view st s"
  by (simp add: hands_view_def)

lemma emit_private_msgs_to:
  assumes "\<not> shows_opponents st" and "length hs = length (hands st)"
    and "\<forall>s. (sid, s) \<in> set ms \<longrightarrow> hs ! s = hands st ! s"
  shows "msgs_to sid (fst (emit_private (st\<lparr>hands := hs\<rparr>) ms)) = msgs_to sid (fst (emit_private st ms)) \<and>
         snd (emit_private (st\<lparr>hands := hs\<rparr>) ms) = snd (emit_private st ms)"
  using assms(3)
proof (induction ms)
  case Nil
  then show ?case by simp
next
  case (Cons m ms)
  obtain sid' s where m: "m = (sid', s)" by (cases m)
  show ?case
    using Cons m assms(1,2) hands_view_own [OF assms(1), of hs s]
    by (auto simp: case_prod_beta)
qed

lemma emit_private_shape:
  "OutPrivate sid s v h \<in> set (fst (emit_private st ms)) \<Longrightarrow>
     (sid, s) \<in> set ms \<and> v = online_public_state st \<and> h = hands_view st s"
  by (induction st ms rule: emit_private.induct) (auto simp: case_prod_beta split: if_splits)

lemma hands_view_nth: "i < n st \<Longrightarrow> hands_view st s ! i =
   (if shows_opponents st then (if i \<noteq> s then Some (hands st ! i) else None)
    else (if i = s then Some (hands st ! s) else None))"
  by (simp add: hands_view_def)

lemma length_hands_view [simp]: "length (hands_view st s) = n st"
  by (simp add: hands_view_def)

text \<open>
  C11: each client sees only its own hand.  Outside the special rule for one-card
  rounds, every private payload shows no hand but the recipient seat's, and what a
  connection receives (the room broadcast and its own payloads) is the same whatever
  the other seats' hands are: the hands of other seats do not flow to it.
\<close>

theorem view_noninterference:
  assumes "\<not> shows_opponents (state r)" and "length hs = length (hands (state r))"
    and "\<forall>s. (sid, s) \<in> set (members r) \<longrightarrow> hs ! s = hands (state r) ! s"
  shows "(\<forall>sid' s v h i. OutPrivate sid' s v h \<in> set (fst (online_emit_full_state r)) \<longrightarrow>
            i < length h \<longrightarrow> h ! i \<noteq> None \<longrightarrow> i = s) \<and>
         msgs_to sid (fst (online_emit_full_state (r\<lparr>state := (state r)\<lparr>hands := hs\<rparr>\<rparr>))) =
           msgs_to sid (fst (online_emit_full_state r)) \<and>
         snd (online_emit_full_state (r\<lparr>state := (state r)\<lparr>hands := hs\<rparr>\<rparr>)) = snd (online_emit_full_state r)"
proof -
  have own: "i = s"
    if m: "OutPrivate sid' s v h \<in> set (fst (online_emit_full_state r))" and i: "i < length h"
      and h: "h ! i \<noteq> None" for sid' s v h i
  proof -
    have "h = hands_view (state r) s"
      using m emit_private_shape [of sid' s v h "state r" "members r"]
      by (auto simp: online_emit_full_state_def case_prod_beta)
    then show ?thesis using i h hands_view_nth [of i "state r" s] assms(1) by (auto split: if_splits)
  qed
  show ?thesis
    using own emit_private_msgs_to [OF assms] by (auto simp: online_emit_full_state_def case_prod_beta)
qed

text \<open>
  C13: the one-card rule.  For every seat \<open>i\<close> of the payload for \<open>s\<close>: when the
  round deals one card per seat and the phase is dealing or bidding, the payload shows
  seat \<open>i\<close>'s hand exactly when \<open>i\<close> is another seat; otherwise it shows only the own
  seat's hand.  The specification says a client sees its own hand only.
\<close>

theorem view_cards_per_one:
  assumes "i < n st"
  shows "hands_view st s ! i =
           (if cardsPer st = Some 1 \<and> phase st \<in> {Dealing, Bidding}
            then (if i \<noteq> s then Some (hands st ! i) else None)
            else (if i = s then Some (hands st ! s) else None))"
proof -
  have "shows_opponents st \<longleftrightarrow> cardsPer st = Some 1 \<and> phase st \<in> {Dealing, Bidding}"
    by (cases "cardsPer st") (auto simp: shows_opponents_def)
  then show ?thesis
    using assms by (simp add: hands_view_nth)
qed

lemma emit_private_stuck:
  "\<forall>(sid', s) \<in> set ms1. view_ok st s \<Longrightarrow> \<not> view_ok st seat \<Longrightarrow>
   emit_private st (ms1 @ (sid, seat) # ms2) =
     (map (\<lambda>(sid', s). OutPrivate sid' s (online_public_state st) (hands_view st s)) ms1, True)"
  by (induction ms1) auto

text \<open>
  C22: one member on a seat beyond the hands stops every broadcast of its room.  The
  public message is sent and the members before it get their payloads; then
  \<open>st["hands"][seat]\<close> raises and the members after it get nothing.  Such a member is
  left behind by the crashing join of a reservation beyond a shrunk room.
\<close>

theorem emit_stale_member_crash:
  assumes "members r = ms1 @ (sid, seat) # ms2" and "\<forall>(sid', s) \<in> set ms1. view_ok (state r) s"
    and "length (hands (state r)) \<le> seat"
  shows "online_emit_full_state r =
           (OutPublic (online_public_state (state r)) #
              map (\<lambda>(sid', s). OutPrivate sid' s (online_public_state (state r)) (hands_view (state r) s)) ms1,
            True)"
  using assms emit_private_stuck [of ms1 "state r" seat sid ms2]
  by (simp add: online_emit_full_state_def view_ok_def)

subsection \<open>Witnesses\<close>

lemma run_stale: "fst (online_join_room 5 ''1234'' ''D'' ''d'' 3000 [(''1234'', room_shrunk)]) = [(''1234'', room_stale)]"
  by code_simp

theorem view_noninterference_witness:
  "msgs_to 1 (fst (online_emit_full_state (room_mid_trick\<lparr>state := mid_trick\<lparr>hands := [[\<lparr>suit = Heart, rank = R5\<rparr>], []]\<rparr>\<rparr>))) =
   msgs_to 1 (fst (online_emit_full_state room_mid_trick))"
proof -
  have "\<not> shows_opponents (state room_mid_trick)"
    "length [[\<lparr>suit = Heart, rank = R5\<rparr>], []] = length (hands (state room_mid_trick))"
    "\<forall>s. (1, s) \<in> set (members room_mid_trick) \<longrightarrow>
        [[\<lparr>suit = Heart, rank = R5\<rparr>], []] ! s = hands (state room_mid_trick) ! s"
    by (simp_all add: shows_opponents_def fresh_state_def)
  from view_noninterference [OF this] show ?thesis by simp
qed

theorem view_cards_per_one_witness:
  "hands_view (mid_trick\<lparr>phase := Bidding, cardsPer := Some 1\<rparr>) 0 ! 0 = None \<and>
   hands_view (mid_trick\<lparr>phase := Bidding, cardsPer := Some 1\<rparr>) 0 ! 1 =
     Some [\<lparr>suit = Heart, rank = R9\<rparr>, \<lparr>suit = Club, rank = R3\<rparr>] \<and>
   hands_view mid_trick 0 ! 1 = None"
  using view_cards_per_one [of 0 "mid_trick\<lparr>phase := Bidding, cardsPer := Some 1\<rparr>" 0]
    view_cards_per_one [of 1 "mid_trick\<lparr>phase := Bidding, cardsPer := Some 1\<rparr>" 0]
    view_cards_per_one [of 1 mid_trick 0]
  by (simp add: fresh_state_def)

theorem emit_stale_member_crash_witness:
  "online_emit_full_state room_stale =
     ([OutPublic (online_public_state (state room_stale)),
       OutPrivate 1 0 (online_public_state (state room_stale)) (hands_view (state room_stale) 0)], True)"
proof -
  have "members room_stale = [(1, 0)] @ (5, 3) # []"
    "\<forall>(sid', s) \<in> set [(1::nat, 0::nat)]. view_ok (state room_stale) s"
    "length (hands (state room_stale)) \<le> 3"
    by (simp_all add: view_ok_def shows_opponents_def fresh_state_def)
  from emit_stale_member_crash [OF this] show ?thesis by simp
qed

end
