(* ===== verification/Scoreboard.thy ===== *)
theory Scoreboard
  imports Room
begin

text \<open>
  The scoreboard rooms of \<open>src/app.py\<close> (lines 21-266), a second feature beside the
  online game: a shared score sheet with a setup phase (player count, number of
  rounds, names) and a game phase in which any member fills in bids and tricks.
  \<open>rooms\<close> is a dictionary from a six-character code to a room; every handler
  finds its room by \<open>(payload.get("room") or "").strip().upper()\<close>, returns silently
  when the room is missing or in the wrong phase, and broadcasts the room otherwise.
  An integer field is the value of \<open>int(payload.get(f) or d)\<close>, which is any integer
  (\<open>d\<close> for a missing or falsy field, \<open>0\<close> for the string \<open>"0"\<close>); a field that
  \<open>int\<close> rejects raises before any mutation and is left out, except the cell value,
  whose \<open>int\<close> failure the handler catches (\<open>VBad\<close>).
\<close>

datatype sb_phase = SbSetup | SbGame

record sb_cell =
  cell_bid :: "int option"
  cell_tricks :: "int option"

record sb_state =
  sb_phase :: sb_phase
  sb_playerCount :: nat
  sb_rounds :: nat
  sb_players :: "string list"
  sb_maxByRound :: "nat list"
  sb_data :: "sb_cell list list"

type_synonym sb_rooms = "(string, sb_state) dict"

datatype sb_field = FBid | FTricks | FOther

datatype sb_value = VNone | VInt int | VBad

datatype sb_out =
    SbRoomCreated string | SbState sb_state | SbJoinOk string | SbJoinError | SbLeft
  | SbBroadcast string sb_state | SbRaise

text \<open>\<open>str.upper\<close> on Latin-1 strings.  Sharp s (223) becomes \<open>SS\<close>; the two letters whose
  capitals lie outside Latin-1 (micro sign 181 and y with diaeresis 255) are kept, which
  changes no lookup: room codes are ASCII.\<close>

definition py_upper_char :: "char \<Rightarrow> string" where
  "py_upper_char c =
     (let k = (of_char c :: nat) in
      if (97 \<le> k \<and> k \<le> 122) \<or> (224 \<le> k \<and> k \<le> 254 \<and> k \<noteq> 247) then [char_of (k - 32)]
      else if k = 223 then ''SS'' else [c])"

definition py_upper :: "string \<Rightarrow> string" where
  "py_upper s = concat (map py_upper_char s)"

definition sb_code_of :: "string \<Rightarrow> string" where
  "sb_code_of s = py_upper (py_strip s)"

definition sb_alphabet :: string where
  "sb_alphabet = ''ABCDEFGHJKLMNPQRSTUVWXYZ23456789''"

text \<open>\<open>_room_code\<close>: six draws of \<open>random.choice(alphabet)\<close>, as indices below 32.\<close>

definition sb_room_code :: "nat list \<Rightarrow> string" where
  "sb_room_code ks = map (\<lambda>i. sb_alphabet ! i) ks"

fun sb_pick_code :: "nat list list \<Rightarrow> sb_rooms \<Rightarrow> string option" where
  "sb_pick_code [] rooms = None"
| "sb_pick_code (ks # kss) rooms =
     (if dict_get rooms (sb_room_code ks) = None then Some (sb_room_code ks) else sb_pick_code kss rooms)"

definition sb_base :: "nat list" where
  "sb_base = [7, 6, 5, 4, 3, 2, 1, 1, 2, 3, 4, 5, 6, 7]"

definition build_max_by_round :: "nat \<Rightarrow> nat list" where
  "build_max_by_round rounds = map (\<lambda>i. sb_base ! (i mod length sb_base)) [0..<rounds]"

definition empty_cell :: sb_cell where
  "empty_cell = \<lparr>cell_bid = None, cell_tricks = None\<rparr>"

definition default_player_name :: "nat \<Rightarrow> string" where
  "default_player_name i = ''Spiller '' @ show_nat (i + 1)"

definition default_room_state :: sb_state where
  "default_room_state =
     \<lparr>sb_phase = SbSetup, sb_playerCount = 4, sb_rounds = 14, sb_players = map default_player_name [0..<4],
      sb_maxByRound = build_max_by_round 14, sb_data = replicate 14 (replicate 4 empty_cell)\<rparr>"

text \<open>
  \<open>if len(xs) < n: for i in range(len(xs), n): xs.append(new(i))\<close>
  \<open>else: del xs[n:]\<close>, the resizing loop of the players, the rows and the sheet.
\<close>

definition resize_list :: "(nat \<Rightarrow> 'a) \<Rightarrow> nat \<Rightarrow> 'a list \<Rightarrow> 'a list" where
  "resize_list mk k xs =
     (if length xs < k then fold (\<lambda>i ys. ys @ [mk i]) [length xs..<k] xs else take k xs)"

text \<open>A handler's outcome on the room: returned early, done (broadcast), or raised.\<close>

datatype sb_result = SbReturned | SbDone | SbRaised

definition sb_handle :: "string \<Rightarrow> (sb_state \<Rightarrow> sb_state \<times> sb_result) \<Rightarrow> sb_rooms \<Rightarrow> sb_rooms \<times> sb_out list" where
  "sb_handle code_in f rooms =
     (let c = sb_code_of code_in in
      case dict_get rooms c of
        None \<Rightarrow> (rooms, [])
      | Some s \<Rightarrow> let (s', res) = f s in
          (dict_set rooms c s',
           case res of SbReturned \<Rightarrow> [] | SbDone \<Rightarrow> [SbBroadcast c s'] | SbRaised \<Rightarrow> [SbRaise]))"

definition on_create_room :: "nat list list \<Rightarrow> sb_rooms \<Rightarrow> (sb_rooms \<times> sb_out list) option" where
  "on_create_room draws rooms =
     (case sb_pick_code draws rooms of
        None \<Rightarrow> None
      | Some c \<Rightarrow> Some (dict_set rooms c default_room_state, [SbRoomCreated c, SbState default_room_state]))"

definition on_join_room :: "string \<Rightarrow> sb_rooms \<Rightarrow> sb_rooms \<times> sb_out list" where
  "on_join_room code_in rooms =
     (let c = sb_code_of code_in in
      case dict_get rooms c of
        None \<Rightarrow> (rooms, [SbJoinError])
      | Some s \<Rightarrow> if c = [] then (rooms, [SbJoinError]) else (rooms, [SbJoinOk c, SbState s]))"

definition on_leave_room :: "string \<Rightarrow> sb_rooms \<Rightarrow> sb_rooms \<times> sb_out list" where
  "on_leave_room code_in rooms = (rooms, [SbLeft])"

definition on_reset_room :: "string \<Rightarrow> sb_rooms \<Rightarrow> sb_rooms \<times> sb_out list" where
  "on_reset_room code_in = sb_handle code_in (\<lambda>s. (default_room_state, SbDone))"

definition sb_set_player_count :: "int \<Rightarrow> sb_state \<Rightarrow> sb_state \<times> sb_result" where
  "sb_set_player_count pc_in s =
     (if sb_phase s \<noteq> SbSetup then (s, SbReturned)
      else
        let k = nat (max 2 (min 8 pc_in));
            data' = map (\<lambda>r. if r < sb_rounds s then resize_list (\<lambda>_. empty_cell) k (sb_data s ! r) else sb_data s ! r)
                      [0..<length (sb_data s)]
        in (s\<lparr>sb_playerCount := k, sb_players := resize_list default_player_name k (sb_players s), sb_data := data'\<rparr>,
            if length (sb_data s) < sb_rounds s then SbRaised else SbDone))"

definition sb_set_rounds :: "int \<Rightarrow> sb_state \<Rightarrow> sb_state \<times> sb_result" where
  "sb_set_rounds r_in s =
     (if sb_phase s \<noteq> SbSetup then (s, SbReturned)
      else
        let rounds = nat (max 4 (min 14 r_in))
        in (s\<lparr>sb_rounds := rounds, sb_maxByRound := build_max_by_round rounds,
              sb_data := resize_list (\<lambda>_. replicate (sb_playerCount s) empty_cell) rounds (sb_data s)\<rparr>, SbDone))"

definition sb_set_name :: "int \<Rightarrow> string \<Rightarrow> sb_state \<Rightarrow> sb_state \<times> sb_result" where
  "sb_set_name idx name_in s =
     (if sb_phase s \<noteq> SbSetup then (s, SbReturned)
      else if idx < 0 \<or> idx \<ge> int (sb_playerCount s) then (s, SbReturned)
        else let i = nat idx; nm = name_or_default name_in (default_player_name i) in
          if i < length (sb_players s) then (s\<lparr>sb_players := (sb_players s)[i := nm]\<rparr>, SbDone)
          else (s, SbRaised))"

definition sb_start_game :: "sb_state \<Rightarrow> sb_state \<times> sb_result" where
  "sb_start_game s = (s\<lparr>sb_phase := SbGame\<rparr>, SbDone)"

definition sb_set_field :: "sb_field \<Rightarrow> int option \<Rightarrow> sb_cell \<Rightarrow> sb_cell" where
  "sb_set_field f v c = (if f = FBid then c\<lparr>cell_bid := v\<rparr> else c\<lparr>cell_tricks := v\<rparr>)"

definition sb_set_cell :: "int \<Rightarrow> int \<Rightarrow> sb_field \<Rightarrow> sb_value \<Rightarrow> sb_state \<Rightarrow> sb_state \<times> sb_result" where
  "sb_set_cell r p f value s =
     (if sb_phase s \<noteq> SbGame then (s, SbReturned)
      else if r < 0 \<or> r \<ge> int (sb_rounds s) \<or> p < 0 \<or> p \<ge> int (sb_playerCount s) then (s, SbReturned)
        else if f = FOther then (s, SbReturned)
        else if nat r \<ge> length (sb_maxByRound s) then (s, SbRaised)
        else
          let max_allowed = int (sb_maxByRound s ! nat r);
              write = (\<lambda>v. if nat r < length (sb_data s) \<and> nat p < length (sb_data s ! nat r)
                           then (s\<lparr>sb_data := (sb_data s)[nat r := (sb_data s ! nat r)[nat p := sb_set_field f v (sb_data s ! nat r ! nat p)]]\<rparr>, SbDone)
                           else (s, SbRaised))
          in case value of
               VNone \<Rightarrow> write None
             | VBad \<Rightarrow> (s, SbReturned)
             | VInt v \<Rightarrow> write (Some (max 0 (min max_allowed v))))"

datatype sb_event =
    SbCreate "nat list list" | SbJoin string | SbLeave string | SbReset string
  | SbSetPlayerCount string int | SbSetRounds string int
  | SbSetName string int string | SbStartGame string
  | SbSetCell string int int sb_field sb_value

text \<open>A creation whose code loop has not ended has changed nothing.\<close>

fun sb_run :: "sb_event \<Rightarrow> sb_rooms \<Rightarrow> sb_rooms \<times> sb_out list" where
  "sb_run (SbCreate draws) rooms = (case on_create_room draws rooms of None \<Rightarrow> (rooms, []) | Some ro \<Rightarrow> ro)"
| "sb_run (SbJoin c) rooms = on_join_room c rooms"
| "sb_run (SbLeave c) rooms = on_leave_room c rooms"
| "sb_run (SbReset c) rooms = on_reset_room c rooms"
| "sb_run (SbSetPlayerCount c v) rooms = sb_handle c (sb_set_player_count v) rooms"
| "sb_run (SbSetRounds c v) rooms = sb_handle c (sb_set_rounds v) rooms"
| "sb_run (SbSetName c i nm) rooms = sb_handle c (sb_set_name i nm) rooms"
| "sb_run (SbStartGame c) rooms = sb_handle c sb_start_game rooms"
| "sb_run (SbSetCell c r p f v) rooms = sb_handle c (sb_set_cell r p f v) rooms"

definition in_range :: "nat \<Rightarrow> int option \<Rightarrow> bool" where
  "in_range m v = (case v of None \<Rightarrow> True | Some x \<Rightarrow> 0 \<le> x \<and> x \<le> int m)"

text \<open>
  The shape of a room: the counts within the clamps, one name per player, the caps of
  \<open>_build_max_by_round\<close>, a row per round with a cell per player, every entry between
  0 and its round's cap, and an empty sheet during setup.
\<close>

definition sb_inv :: "sb_state \<Rightarrow> bool" where
  "sb_inv s \<longleftrightarrow>
     2 \<le> sb_playerCount s \<and> sb_playerCount s \<le> 8 \<and> 4 \<le> sb_rounds s \<and> sb_rounds s \<le> 14 \<and>
     length (sb_players s) = sb_playerCount s \<and> sb_maxByRound s = build_max_by_round (sb_rounds s) \<and>
     length (sb_data s) = sb_rounds s \<and> (\<forall>row \<in> set (sb_data s). length row = sb_playerCount s) \<and>
     (\<forall>r < sb_rounds s. \<forall>c \<in> set (sb_data s ! r).
        in_range (sb_maxByRound s ! r) (cell_bid c) \<and> in_range (sb_maxByRound s ! r) (cell_tricks c)) \<and>
     (sb_phase s = SbSetup \<longrightarrow> (\<forall>row \<in> set (sb_data s). \<forall>c \<in> set row. c = empty_cell))"

definition sb_rooms_inv :: "sb_rooms \<Rightarrow> bool" where
  "sb_rooms_inv rooms \<longleftrightarrow> distinct (dict_keys rooms) \<and> (\<forall>(c, s) \<in> set rooms. sb_inv s)"

inductive sb_reach :: "sb_rooms \<Rightarrow> bool" where
  empty: "sb_reach []"
| step: "sb_reach rooms \<Longrightarrow> sb_reach (fst (sb_run ev rooms))"

subsection \<open>The resizing loops\<close>

lemma fold_append_map: "fold (\<lambda>i ys. ys @ [f i]) is xs = xs @ map f is"
  by (induction "is" arbitrary: xs) auto

lemma resize_list_eq: "resize_list mk k xs = take k xs @ map mk [length xs..<k]"
  by (simp add: resize_list_def fold_append_map)

lemma length_resize_list [simp]: "length (resize_list mk k xs) = k"
  by (simp add: resize_list_eq)

lemma set_resize_list: "set (resize_list mk k xs) \<subseteq> set xs \<union> mk ` {length xs..<k}"
  by (auto simp: resize_list_eq dest: in_set_takeD)

lemma nth_resize_list: "i < length xs \<Longrightarrow> i < k \<Longrightarrow> resize_list mk k xs ! i = xs ! i"
  by (simp add: resize_list_eq nth_append)

subsection \<open>Every handler keeps the shape and does not raise\<close>

lemma length_build_max [simp]: "length (build_max_by_round k) = k"
  by (simp add: build_max_by_round_def)

lemma in_range_None [simp]: "in_range m None"
  by (simp add: in_range_def)

lemma sb_inv_default: "sb_inv default_room_state"
  by (simp add: sb_inv_def default_room_state_def empty_cell_def)

definition sheet_empty :: "sb_cell list list \<Rightarrow> bool" where
  "sheet_empty d \<longleftrightarrow> (\<forall>row \<in> set d. \<forall>c \<in> set row. c = empty_cell)"

lemma sheet_empty_in_range:
  assumes "sheet_empty d" and "k \<le> length d"
  shows "\<forall>r < k. \<forall>c \<in> set (d ! r). in_range (m r) (cell_bid c) \<and> in_range (m r) (cell_tricks c)"
proof (intro allI impI ballI)
  fix r c
  assume "r < k" and c: "c \<in> set (d ! r)"
  then have "d ! r \<in> set d" using assms(2) by simp
  then have "c = empty_cell" using assms(1) c by (simp add: sheet_empty_def)
  then show "in_range (m r) (cell_bid c) \<and> in_range (m r) (cell_tricks c)" by (simp add: empty_cell_def)
qed

text \<open>The invariant through its parts, for an empty sheet.\<close>

lemma sb_inv_empty_sheet:
  "2 \<le> sb_playerCount s \<Longrightarrow> sb_playerCount s \<le> 8 \<Longrightarrow> 4 \<le> sb_rounds s \<Longrightarrow> sb_rounds s \<le> 14 \<Longrightarrow>
   length (sb_players s) = sb_playerCount s \<Longrightarrow> sb_maxByRound s = build_max_by_round (sb_rounds s) \<Longrightarrow>
   length (sb_data s) = sb_rounds s \<Longrightarrow> \<forall>row \<in> set (sb_data s). length row = sb_playerCount s \<Longrightarrow>
   sheet_empty (sb_data s) \<Longrightarrow> sb_inv s"
  using sheet_empty_in_range [of "sb_data s" "sb_rounds s" "\<lambda>r. sb_maxByRound s ! r"]
  by (simp add: sb_inv_def sheet_empty_def)

lemma sb_inv_setup_empty: "sb_inv s \<Longrightarrow> sb_phase s = SbSetup \<Longrightarrow> sheet_empty (sb_data s)"
  by (simp add: sb_inv_def sheet_empty_def)

lemma sb_inv_player_count:
  "sb_inv s \<Longrightarrow> sb_inv (fst (sb_set_player_count v s)) \<and> snd (sb_set_player_count v s) \<noteq> SbRaised"
proof -
  assume inv: "sb_inv s"
  show ?thesis
  proof (cases "sb_phase s = SbSetup")
    case False
    then show ?thesis using inv by (simp add: sb_set_player_count_def)
  next
    case True
    let ?k = "nat (max 2 (min 8 v))"
    let ?d = "map (\<lambda>r. if r < sb_rounds s then resize_list (\<lambda>_. empty_cell) ?k (sb_data s ! r)
                  else sb_data s ! r) [0..<length (sb_data s)]"
    have empty: "sheet_empty (sb_data s)" using sb_inv_setup_empty [OF inv True] .
    have len: "length (sb_data s) = sb_rounds s" using inv by (simp add: sb_inv_def)
    have rows: "\<forall>row \<in> set ?d. length row = ?k" using len by auto
    have "sheet_empty ?d"
      using empty set_resize_list [of "\<lambda>_. empty_cell" ?k] len by (fastforce simp: sheet_empty_def)
    then have "sb_inv (fst (sb_set_player_count v s))"
      using inv True rows len
      by (intro sb_inv_empty_sheet) (auto simp: sb_set_player_count_def Let_def sb_inv_def)
    then show ?thesis using True len by (simp add: sb_set_player_count_def Let_def)
  qed
qed

lemma sb_inv_rounds:
  "sb_inv s \<Longrightarrow> sb_inv (fst (sb_set_rounds v s)) \<and> snd (sb_set_rounds v s) \<noteq> SbRaised"
proof (cases "sb_phase s = SbSetup")
  case False
  then show "sb_inv s \<Longrightarrow> ?thesis" by (simp add: sb_set_rounds_def)
next
  case True
  assume inv: "sb_inv s"
  let ?r = "nat (max 4 (min 14 v))"
  let ?d = "resize_list (\<lambda>_. replicate (sb_playerCount s) empty_cell) ?r (sb_data s)"
  have empty: "sheet_empty (sb_data s)" using sb_inv_setup_empty [OF inv True] .
  have "sheet_empty ?d"
    using empty set_resize_list [of "\<lambda>_. replicate (sb_playerCount s) empty_cell" ?r "sb_data s"]
    by (fastforce simp: sheet_empty_def)
  moreover have "\<forall>row \<in> set ?d. length row = sb_playerCount s"
    using inv set_resize_list [of "\<lambda>_. replicate (sb_playerCount s) empty_cell" ?r "sb_data s"]
    by (fastforce simp: sb_inv_def)
  ultimately have "sb_inv (fst (sb_set_rounds v s))"
    using inv True by (intro sb_inv_empty_sheet) (auto simp: sb_set_rounds_def Let_def sb_inv_def)
  then show ?thesis by (simp add: sb_set_rounds_def Let_def True)
qed

lemma sb_inv_set_name:
  "sb_inv s \<Longrightarrow> sb_inv (fst (sb_set_name i nm s)) \<and> snd (sb_set_name i nm s) \<noteq> SbRaised"
  by (auto simp: sb_set_name_def Let_def sb_inv_def)

lemma sb_inv_start_game: "sb_inv s \<Longrightarrow> sb_inv (fst (sb_start_game s)) \<and> snd (sb_start_game s) \<noteq> SbRaised"
  by (auto simp: sb_start_game_def sb_inv_def)

lemma in_range_clamp: "in_range m (Some (max 0 (min (int m) v)))"
  by (simp add: in_range_def)

lemma cells_update:
  assumes "\<forall>r < k. \<forall>c \<in> set (d ! r). P r c" and "P r0 c0" and "r0 < length d"
  shows "\<forall>r < k. \<forall>c \<in> set (d[r0 := (d ! r0)[p := c0]] ! r). P r c"
proof (intro allI impI ballI)
  fix r c
  assume r: "r < k" and c: "c \<in> set (d[r0 := (d ! r0)[p := c0]] ! r)"
  show "P r c"
  proof (cases "r = r0")
    case True
    then have "c \<in> insert c0 (set (d ! r0))" using c assms(3) set_update_subset_insert by fastforce
    then show ?thesis using assms(1,2) r True by auto
  next
    case False
    then show ?thesis using c assms(1) r by simp
  qed
qed

lemma sb_inv_set_cell:
  "sb_inv s \<Longrightarrow> sb_inv (fst (sb_set_cell ri pi f v s)) \<and> snd (sb_set_cell ri pi f v s) \<noteq> SbRaised"
proof -
  assume inv: "sb_inv s"
  let ?r = "nat ri" and ?p = "nat pi"
  let ?P = "\<lambda>r c. in_range (sb_maxByRound s ! r) (cell_bid c) \<and> in_range (sb_maxByRound s ! r) (cell_tricks c)"
  have step: "sb_inv (s\<lparr>sb_data := (sb_data s)[?r := (sb_data s ! ?r)[?p := sb_set_field f w (sb_data s ! ?r ! ?p)]]\<rparr>)"
    if g: "sb_phase s = SbGame" and r: "?r < sb_rounds s" and p: "?p < sb_playerCount s"
      and w: "in_range (sb_maxByRound s ! ?r) w" for w
  proof -
    have lens: "length (sb_data s) = sb_rounds s" "length (sb_data s ! ?r) = sb_playerCount s"
      using inv r by (auto simp: sb_inv_def)
    have old: "\<forall>r < sb_rounds s. \<forall>c \<in> set (sb_data s ! r). ?P r c" using inv by (auto simp: sb_inv_def)
    have "sb_data s ! ?r ! ?p \<in> set (sb_data s ! ?r)" using lens p by simp
    then have "?P ?r (sb_set_field f w (sb_data s ! ?r ! ?p))"
      using old r w by (auto simp: sb_set_field_def)
    from cells_update [OF old this] lens r
    have "\<forall>r < sb_rounds s. \<forall>c \<in> set ((sb_data s)[?r := (sb_data s ! ?r)[?p := sb_set_field f w (sb_data s ! ?r ! ?p)]] ! r). ?P r c"
      by simp
    moreover have "\<forall>row \<in> set ((sb_data s)[?r := (sb_data s ! ?r)[?p := sb_set_field f w (sb_data s ! ?r ! ?p)]]).
                     length row = sb_playerCount s"
      using inv lens by (auto simp: sb_inv_def dest: set_update_subset_insert [THEN subsetD])
    ultimately show ?thesis using inv g by (auto simp: sb_inv_def)
  qed
  have m: "length (sb_maxByRound s) = sb_rounds s" using inv by (simp add: sb_inv_def)
  have d: "length (sb_data s) = sb_rounds s" "\<forall>row \<in> set (sb_data s). length row = sb_playerCount s"
    using inv by (simp_all add: sb_inv_def)
  show ?thesis
    using inv step [of None] step [of "Some (max 0 (min (int (sb_maxByRound s ! ?r)) _))"] m d
    by (auto simp: sb_set_cell_def Let_def in_range_clamp split: sb_value.splits)
qed

subsection \<open>The registry of score sheets\<close>

lemma sb_rooms_inv_set:
  "sb_rooms_inv rooms \<Longrightarrow> sb_inv s \<Longrightarrow> sb_rooms_inv (dict_set rooms c s)"
  unfolding sb_rooms_inv_def using set_dict_set_sub [of rooms c s] by auto

lemma sb_rooms_inv_get: "sb_rooms_inv rooms \<Longrightarrow> dict_get rooms c = Some s \<Longrightarrow> sb_inv s"
  unfolding sb_rooms_inv_def dict_get_def by (auto dest: map_of_SomeD)

lemma sb_rooms_handle:
  assumes inv: "sb_rooms_inv rooms" and f: "\<And>s. sb_inv s \<Longrightarrow> sb_inv (fst (f s)) \<and> snd (f s) \<noteq> SbRaised"
  shows "sb_rooms_inv (fst (sb_handle c f rooms)) \<and> SbRaise \<notin> set (snd (sb_handle c f rooms))"
proof (cases "dict_get rooms (sb_code_of c)")
  case None
  then show ?thesis using inv by (simp add: sb_handle_def)
next
  case (Some s)
  have "sb_inv (fst (f s))" and r: "snd (f s) \<noteq> SbRaised" using f [OF sb_rooms_inv_get [OF inv Some]] by auto
  then show ?thesis using inv Some sb_rooms_inv_set
    by (auto simp: sb_handle_def Let_def case_prod_beta split: sb_result.splits)
qed

lemma sb_rooms_step:
  "sb_rooms_inv rooms \<Longrightarrow> sb_rooms_inv (fst (sb_run ev rooms)) \<and> SbRaise \<notin> set (snd (sb_run ev rooms))"
proof (cases ev)
  case (SbCreate draws)
  then show "sb_rooms_inv rooms \<Longrightarrow> ?thesis"
    by (auto simp: on_create_room_def sb_rooms_inv_set sb_inv_default split: option.splits)
qed (auto simp: on_join_room_def on_leave_room_def on_reset_room_def sb_inv_default Let_def
       sb_inv_player_count sb_inv_rounds sb_inv_set_name sb_inv_start_game sb_inv_set_cell
       intro!: sb_rooms_handle split: option.splits)

text \<open>
  C38: the score sheets keep their shape.  In every registry the scoreboard handlers
  produce from the empty one, no code occurs twice and every room has between 2 and 8
  players with one name each, between 4 and 14 rounds with the caps of
  \<open>_build_max_by_round\<close>, a row per round with a cell per player, every bid and trick
  count between 0 and its round's cap, and an empty sheet during setup.  Consequently
  no handler ever raises on such a registry.
\<close>

theorem sb_reach_inv: "sb_reach rooms \<Longrightarrow> sb_rooms_inv rooms \<and> (\<forall>ev. SbRaise \<notin> set (snd (sb_run ev rooms)))"
proof (induction rule: sb_reach.induct)
  case empty
  show ?case using sb_rooms_step [of "[]"] by (simp add: sb_rooms_inv_def dict_keys_def)
next
  case (step rooms ev)
  then show ?case using sb_rooms_step by blast
qed

text \<open>No scoreboard handler removes a room: \<open>rooms\<close> only grows.\<close>

theorem sb_rooms_kept: "set (dict_keys rooms) \<subseteq> set (dict_keys (fst (sb_run ev rooms)))"
  by (cases ev) (auto simp: on_create_room_def on_join_room_def on_leave_room_def on_reset_room_def
      sb_handle_def Let_def case_prod_beta split: option.splits)

subsection \<open>Witnesses\<close>

lemma sb_code_A: "sb_room_code [0, 0, 0, 0, 0, 0] = ''AAAAAA''" "sb_code_of ''aaaaaa '' = ''AAAAAA''"
  by (simp add: sb_room_code_def sb_alphabet_def) code_simp

theorem sb_reach_inv_witness:
  "sb_rooms_inv [(''AAAAAA'', default_room_state)] \<and>
   SbRaise \<notin> set (snd (sb_run (SbSetCell ''aaaaaa '' 3 1 FBid (VInt 9)) [(''AAAAAA'', default_room_state)]))"
proof -
  have c: "fst (sb_run (SbCreate [[0, 0, 0, 0, 0, 0]]) []) = [(''AAAAAA'', default_room_state)]"
    by (simp add: on_create_room_def sb_code_A dict_get_def)
  have "sb_reach [(''AAAAAA'', default_room_state)]"
    using sb_reach.step [OF sb_reach.empty, of "SbCreate [[0, 0, 0, 0, 0, 0]]"] by (simp only: c)
  from sb_reach_inv [OF this] show ?thesis by blast
qed

end
