(* ===== verification/Http.thy ===== *)
theory Http
  imports Prelude
begin

text \<open>
  The HTTP side of \<open>src/app.py\<close>: the Flask application of line 12, its routes
  (lines 74-102) and the admin-token gate \<open>_admin_allowed\<close> (lines 67-71).  A request
  is the path after the leading slash, the query argument \<open>token\<close> and the header
  \<open>X-Admin-Token\<close> (\<open>None\<close> when absent); the configured token is
  \<open>ADMIN_TOKEN\<close> (\<open>""\<close> when the variable is unset).  \<open>ServeFile p\<close> is
  \<open>send_from_directory(".", p)\<close>, which is also what Flask's \<open>send_static_file\<close> does
  for the static folder \<open>"."\<close>; how that library call resolves \<open>p\<close> is not modelled.

  \<open>Flask(__name__, static_folder=".", static_url_path="")\<close> registers the static
  route \<open>/<path:filename>\<close> when the application is created, before the decorators
  run.  Werkzeug prefers the routes with fixed text (\<open>/\<close>, \<open>/admin\<close>,
  \<open>/online.*\<close>) to a converter route, and of the two routes that are a single
  \<open>path\<close> converter, \<open>/<path:filename>\<close> and \<open>/<path:path>\<close>, the one registered
  first; so every other nonempty path goes to the static route, and the catch-all
  \<open>static_files\<close> with its prefix check never runs.
\<close>

definition admin_allowed :: "string \<Rightarrow> string option \<Rightarrow> string option \<Rightarrow> bool" where
  "admin_allowed admin_token query header \<longleftrightarrow>
     admin_token \<noteq> [] \<and>
     (let token = (case query of Some t \<Rightarrow> if t = [] then header else Some t | None \<Rightarrow> header)
      in token = Some admin_token)"

datatype http_resp = ServeFile string | Forbidden

text \<open>The route \<open>/<path:filename>\<close> that line 12 registers: \<open>send_static_file\<close>.\<close>

definition static_rule :: "string \<Rightarrow> http_resp" where
  "static_rule filename = ServeFile filename"

text \<open>The catch-all \<open>static_files\<close> (lines 98-102), which the static route shadows.\<close>

definition static_files :: "string \<Rightarrow> string \<Rightarrow> string option \<Rightarrow> string option \<Rightarrow> http_resp" where
  "static_files admin_token p query header =
     (if take 5 p = ''admin'' \<and> \<not> admin_allowed admin_token query header then Forbidden
      else ServeFile p)"

text \<open>The dispatch of a \<open>GET\<close>: the fixed routes, then the static route.\<close>

definition http_get :: "string \<Rightarrow> string \<Rightarrow> string option \<Rightarrow> string option \<Rightarrow> http_resp" where
  "http_get admin_token p query header =
     (if p = [] then ServeFile ''piratwhist.html''
      else if p = ''admin'' then
        (if admin_allowed admin_token query header then ServeFile ''admin.html'' else Forbidden)
      else if p \<in> {''online.html'', ''online.js'', ''online.css''} then ServeFile p
      else static_rule p)"

text \<open>
  C9: the admin gate.  A request is refused exactly when it is for \<open>/admin\<close> and
  it does not carry the configured token (in the query, or, when the query has none,
  in the header), which is every request for \<open>/admin\<close> when no token is configured.
  Every other path is served, \<open>/admin.html\<close> and \<open>/app.py\<close> included: the check
  of the catch-all never runs.
\<close>

theorem admin_gate:
  "http_get admin_token p query header = Forbidden \<longleftrightarrow>
     p = ''admin'' \<and>
     \<not> (admin_token \<noteq> [] \<and>
        (query = Some admin_token \<or> ((query = None \<or> query = Some []) \<and> header = Some admin_token)))"
  by (auto simp: http_get_def static_rule_def admin_allowed_def split: option.splits)

text \<open>
  The catch-all's own check would refuse \<open>admin.html\<close> without a token, but the
  dispatch serves it through the static route.
\<close>

theorem http_gate_shadowed:
  "static_files admin_token ''admin.html'' None None = Forbidden \<and>
   http_get admin_token ''admin.html'' None None = ServeFile ''admin.html'' \<and>
   http_get admin_token ''app.py'' None None = ServeFile ''app.py''"
  by (simp add: http_get_def static_files_def static_rule_def admin_allowed_def)

theorem admin_gate_witness:
  "http_get ''s3cret'' ''admin'' (Some ''wrong'') (Some ''s3cret'') = Forbidden \<and>
   http_get ''s3cret'' ''admin'' None (Some ''s3cret'') \<noteq> Forbidden \<and>
   http_get [] ''admin'' (Some []) (Some []) = Forbidden \<and>
   http_get ''s3cret'' ''admin.html'' None None \<noteq> Forbidden"
  using admin_gate [of "''s3cret''" "''admin''" "Some ''wrong''" "Some ''s3cret''"]
    admin_gate [of "''s3cret''" "''admin''" None "Some ''s3cret''"]
    admin_gate [of "[]" "''admin''" "Some []" "Some []"]
    admin_gate [of "''s3cret''" "''admin.html''" None None]
  by simp

end
