(* ===== verification/Spec2Isabelle.thy ===== *)
theory Spec2Isabelle
  imports Sched View Scoreboard Http
begin

text \<open>
  Verification development of the online trick-taking card game server
  \<open>src/app.py\<close> (the \<open>/online\<close> game: \<open>ONLINE_ROOMS\<close> and the \<open>online_*\<close>
  socket handlers).  The program keeps a dictionary of rooms; each room holds its
  members (connection to seat), its client reservations (durable client id to seat and
  last-seen time), a pending-takeover map and the game state \<open>room["state"]\<close>.  Socket
  handlers and background tasks (deal animation, bot turns, automatic next trick and
  round, the bot watchdog, the 30 s takeover timer) mutate it.

  \<^bold>\<open>Theories and the code they model.\<close>
  \<^item> \<open>Prelude\<close>: the model's types (\<open>seat\<close>, \<open>sid\<close>, \<open>time\<close> in milliseconds as
    \<open>int\<close>), Python dictionaries as association lists in insertion order
    (\<open>dict_get\<close>, \<open>dict_set\<close>, \<open>dict_pop\<close>), and the list, option and fold lemmas
    the components share (\<open>fold_keeps\<close>, the \<open>model_simps\<close> collection).
  \<^item> \<open>Cards\<close>: \<open>ONLINE_SUITS\<close>, \<open>ONLINE_RANKS\<close>, \<open>_online_make_deck\<close>,
    \<open>_online_card_key\<close>, \<open>_online_compare_cards\<close> (lines 270-309).
  \<^item> \<open>State\<close>: the record \<open>game_state\<close> with the keys of \<open>room["state"]\<close>, the
    \<open>phase\<close> strings as a datatype, and the \<open>effect\<close> of a handler: a broadcast
    (\<open>EmitState\<close>), an error reply, \<open>online_left\<close>, a background task started with
    its delay (\<open>Spawn\<close>), or an uncaught exception (\<open>Crash\<close>).
  \<^item> \<open>Trick\<close>: the winner loop of \<open>_online_internal_play_card\<close> and
    \<open>_online_points_for_round\<close>.
  \<^item> \<open>Deal\<close>: \<open>_online_deal\<close> and \<open>ONLINE_ROUND_CARDS\<close>.
  \<^item> \<open>Bot\<close>: \<open>_online_bot_choose_bid\<close> (with Python's round-half-even) and
    \<open>_online_bot_choose_card\<close>.
  \<^item> \<open>Game\<close>: every mutation of \<open>room["state"]\<close> as a function
    \<open>game_state \<Rightarrow> game_state \<times> effect list\<close>: \<open>online_start_game\<close>, the deal
    phase and its \<open>_finish\<close> task, \<open>online_set_bid\<close>, \<open>online_play_card\<close> and
    \<open>_online_internal_play_card\<close>, the automatic next trick and next round, the manual
    \<open>online_next\<close>, bot takeover, the bot-turn task and one watchdog iteration.
  \<^item> \<open>GameInv\<close>: the game as a step relation.  \<open>game_event\<close> names every handler and
    task, \<open>game_apply\<close> runs one, \<open>game_reach\<close> is the inductive set of states reachable
    from a fresh lobby; \<open>wf_state\<close> (shape) and \<open>cards_inv\<close> (card conservation)
    are proved by rule induction.
  \<^item> \<open>Room\<close>: the registry \<open>ONLINE_ROOMS\<close>, the TTL purge, room codes,
    \<open>online_create_room\<close>, \<open>online_join_room\<close>, \<open>online_leave_room\<close>, the
    disconnect handler \<open>_online_cleanup_sid\<close>, \<open>_online_schedule_bot_takeover\<close> and
    its task, \<open>online_update_lobby\<close> and the room lookup of the game handlers.
  \<^item> \<open>Registry\<close>: the whole server as one step relation.  \<open>room_event\<close> names every
    socket handler and background task, \<open>reg_step\<close> runs one on \<open>ONLINE_ROOMS\<close>
    (a task first finds its room by code, \<open>room_task\<close>), \<open>reg_reach\<close> is the set of
    registries reachable from the empty one, and \<open>reg_inv\<close> (distinct codes,
    well-formed states) holds of all of them.
  \<^item> \<open>Sched\<close>: \<open>socketio.start_background_task\<close>.  The tasks a step starts
    (\<open>Spawn\<close> effects, tagged with their room's code) join a multiset of pending tasks;
    \<open>sched_reach\<close> runs handlers at any time and fires any pending task once, and every
    registry it reaches is one of \<open>reg_reach\<close>.
  \<^item> \<open>View\<close>: \<open>_online_public_state\<close> and \<open>_online_emit_full_state\<close>: the public
    message and each member's private payload in send order (\<open>online_emit_full_state\<close>),
    with the one-card rule (\<open>shows_opponents\<close>) and the \<open>IndexError\<close> of a member seat
    past the hands (\<open>view_ok\<close>); \<open>msgs_to\<close> is what one connection receives.
  \<^item> \<open>Scoreboard\<close>: the separate score-sheet feature (lines 21-266): \<open>rooms\<close>,
    \<open>_room_code\<close>, \<open>_build_max_by_round\<close>, \<open>_default_room_state\<close> and every
    handler (\<open>on_create_room\<close> ... \<open>on_set_cell\<close>, the part after the room lookup
    as \<open>sb_set_player_count\<close> and so on), with the append-or-delete resizing loops as
    \<open>resize_list\<close>; \<open>sb_reach\<close> is the set of reachable score registries.
  \<^item> \<open>Http\<close>: the Flask routes, \<open>_admin_allowed\<close> (lines 66-102) and the static
    route \<open>/<path:filename>\<close> that \<open>Flask(__name__, static_folder=".",
    static_url_path="")\<close> registers at line 12 (\<open>static_rule\<close>), as a function
    \<open>http_get\<close> from the path, the \<open>token\<close> argument and the \<open>X-Admin-Token\<close> header
    to the file served or 403.  Werkzeug prefers the fixed routes and, of the two
    single-converter routes, the static one registered first, so the catch-all
    \<open>static_files\<close> (modelled on its own) is never dispatched to.

  \<^bold>\<open>What the lemmas show.\<close>  Trick resolution picks an unbeaten card and agrees with
  the trick order of the rules; dealing partitions the deck into sorted hands of
  \<open>cardsPer\<close> cards; the bot plays legal cards and bids in range; follow suit is
  enforced; every reachable state is well formed, and every state reachable without
  \<open>online_next\<close> conserves cards and lets a bot to move play.  Room codes round-trip,
  the code loop ends exactly when a free code is drawn, joins re-attach or allocate a
  free seat, a disconnect keeps the reservation and arms the takeover timer, and every
  reachable registry satisfies \<open>reg_inv\<close>, under any interleaving of handlers and
  timers.  A connection receives no other seat's hand outside one-card rounds, and what
  it receives does not depend on the other hands.  Every reachable score sheet keeps
  its shape (counts within the clamps, a cell per player and round, entries within the
  round's cap) and no scoreboard handler raises on it.  Exactly the requests for
  \<open>/admin\<close> without the configured token are refused.  The
  findings are theorems too: \<open>online_next\<close> reopens a finished game, resets the turn
  mid-trick and keeps a stale \<open>cardsPer\<close>; an old reservation shares a seat with a
  newcomer; a reservation beyond a shrunk room crashes the join; and a second
  disconnect during a pending takeover loses the takeover; in a one-card round the
  payload shows the opponents' hands and hides one's own; and a member on a seat past
  the hands breaks every later broadcast of its room; scoreboard rooms are never removed;
  and the static route shadows the catch-all, so \<open>/admin.html\<close> and every other file
  of the application directory, \<open>app.py\<close> included, are served to anyone.

  \<^bold>\<open>Bounds and loops.\<close>  The loops inside a handler walk a list (seats, hands,
  rooms, draws), so every operation is a total \<open>fun\<close> or \<open>definition\<close> and no fuel
  is needed.  The room-code rejection sampling may run forever; it takes the random
  draws as a list, running out of draws stands for the loop still running, and
  \<open>pick_room_code_terminates\<close> says when it stops.  The watchdog's
  \<open>while True\<close> loop is one iteration, \<open>online_watchdog_tick\<close>, that re-spawns
  itself; its unbounded repetition is the repetition of \<open>RWatchdog\<close> steps in
  \<open>reg_reach\<close>.  Randomness (\<open>random.shuffle\<close>,
  \<open>random.randint\<close>) is a parameter; \<open>time.time()\<close> is the \<open>now\<close> argument;
  \<open>socketio.sleep\<close> is the delay of a \<open>Spawn\<close>; \<open>sched_reach\<close> does not
  enforce it, so it allows every order of timers the code can produce.

  \<^bold>\<open>Not modelled.\<close>  How \<open>send_from_directory\<close> resolves a path and reads the
  file is Werkzeug's and the file system's; so is the rule order, which the model
  states as the dispatch of \<open>http_get\<close>.  The handlers of \<open>Game\<close> and \<open>Room\<close> record a
  broadcast as the effect \<open>EmitState\<close>, which \<open>online_emit_full_state\<close> interprets;
  they do not see a broadcast that raises, so in a room with a member past the seats
  (reachable only through the crashing join of the findings) they continue where the
  code stops after the emit.  Socket.IO's own delivery and the \<open>join_room\<close> and
  \<open>leave_room\<close> calls are library I/O.  Integer fields that \<open>int()\<close> rejects raise
  before any mutation and are left out; the scoreboard handlers take the integer
  \<open>int(field or d)\<close> evaluates to.  Strings are lists of code points below 256,
  so \<open>str.strip\<close> and \<open>str.isdigit\<close> are their Latin-1 restrictions.  The server
  runs Socket.IO with \<open>async_mode="threading"\<close> and no per-room lock; the model
  treats each handler and each task as one atomic step, which is what the spec requires
  but not what the code guarantees.
\<close>

end
